(* ===== verification/JS_Base.thy ===== *)
theory JS_Base
  imports Complex_Main "HOL-Library.AList" "HOL-Library.Multiset"
begin

section \<open>JavaScript values and the library shared by all components\<close>

text \<open>
  This theory holds what every component needs of the language itself: the values a script
  handles, their conversions (\<open>ToString\<close>, \<open>ToNumber\<close>, truth value), the two equalities and
  the order, strings as lists of 8-bit code units, run-time errors as a sum, and the two
  interfaces the components are written against, a dictionary (\<open>dict\<close>) and a state machine
  (\<open>machine\<close>).

  Numbers are exact rationals with a separate \<open>NaN\<close>; the infinities are not represented.
  Arrays and objects are values: an object is the list of its own properties in enumeration
  order, which browsers keep as insertion order for names that are not array indexes; what an
  object inherits from a prototype is not among them. Two
  arrays or objects of the model stand for two different references, so the reference
  equality \<open>==\<close> between them is false; a function is known by a name, equal names being the
  same function.
\<close>

named_theorems js_simps \<open>unfolding rules of the JavaScript primitives\<close>
named_theorems err_simps \<open>rules for computations that may raise an error\<close>

subsection \<open>Values\<close>

datatype jsval =
    JUndef
  | JNull
  | JBool bool
  | JNaN
  | JNum rat
  | JStr string
  | JArr "jsval list"
  | JObj "(string \<times> jsval) list"
  | JFun string

type_synonym props = "(string \<times> jsval) list"

text \<open>The errors the modelled code can raise: reading a property of \<open>undefined\<close> or \<open>null\<close>,
  calling something that is not a function (\<open>TypeError\<close>), using an undeclared name
  (\<open>ReferenceError\<close>), and an explicit \<open>throw new Error(...)\<close>.\<close>

datatype js_error = TypeError | ReferenceError | Thrown string

abbreviation nullish :: "jsval \<Rightarrow> bool" where
  "nullish v \<equiv> v = JUndef \<or> v = JNull"

fun truthy :: "jsval \<Rightarrow> bool" where
  "truthy JUndef = False"
| "truthy JNull = False"
| "truthy (JBool b) = b"
| "truthy JNaN = False"
| "truthy (JNum r) = (r \<noteq> 0)"
| "truthy (JStr s) = (s \<noteq> [])"
| "truthy (JArr _) = True"
| "truthy (JObj _) = True"
| "truthy (JFun _) = True"

text \<open>\<open>a || b\<close> yields the first operand when it is truthy.\<close>

definition js_or :: "jsval \<Rightarrow> jsval \<Rightarrow> jsval" where
  "js_or a b = (if truthy a then a else b)"

definition get_prop :: "props \<Rightarrow> string \<Rightarrow> jsval" where
  "get_prop p k = (case map_of p k of None \<Rightarrow> JUndef | Some v \<Rightarrow> v)"

subsection \<open>Strings\<close>

abbreviation code :: "char \<Rightarrow> nat" where
  "code c \<equiv> of_char c"

definition is_digit :: "char \<Rightarrow> bool" where
  "is_digit c = (48 \<le> code c \<and> code c \<le> 57)"

definition digit_char :: "nat \<Rightarrow> char" where
  "digit_char n = char_of (48 + n)"

definition digit_val :: "char \<Rightarrow> nat" where
  "digit_val c = code c - 48"

fun nat_digits :: "nat \<Rightarrow> string" where
  "nat_digits n = (if n < 10 then [digit_char n] else nat_digits (n div 10) @ [digit_char (n mod 10)])"

declare nat_digits.simps [simp del]

definition digits_val :: "string \<Rightarrow> nat" where
  "digits_val s = foldl (\<lambda>acc c. 10 * acc + digit_val c) 0 s"

text \<open>The white space of the regular expression class \<open>\s\<close>.\<close>

definition is_space :: "char \<Rightarrow> bool" where
  "is_space c = (code c = 32 \<or> (9 \<le> code c \<and> code c \<le> 13) \<or> code c = 160)"

definition trim :: "string \<Rightarrow> string" where
  "trim s = rev (dropWhile is_space (rev (dropWhile is_space s)))"

definition to_lower_char :: "char \<Rightarrow> char" where
  "to_lower_char c =
     (if (65 \<le> code c \<and> code c \<le> 90) \<or> (192 \<le> code c \<and> code c \<le> 222 \<and> code c \<noteq> 215)
      then char_of (code c + 32) else c)"

definition to_lower :: "string \<Rightarrow> string" where
  "to_lower s = map to_lower_char s"

definition to_upper_char :: "char \<Rightarrow> char" where
  "to_upper_char c =
     (if (97 \<le> code c \<and> code c \<le> 122) \<or> (224 \<le> code c \<and> code c \<le> 254 \<and> code c \<noteq> 247)
      then char_of (code c - 32) else c)"

definition starts_at :: "string \<Rightarrow> string \<Rightarrow> bool" where
  "starts_at p s = (take (length p) s = p)"

text \<open>\<open>s.indexOf(p)\<close>: the least index at which \<open>p\<close> occurs; \<open>None\<close> stands for \<open>-1\<close>.\<close>

fun index_of :: "string \<Rightarrow> string \<Rightarrow> nat option" where
  "index_of [] p = (if p = [] then Some 0 else None)"
| "index_of (c # cs) p =
     (if starts_at p (c # cs) then Some 0 else map_option Suc (index_of cs p))"

text \<open>\<open>s.replace(/p/g, r)\<close> for a literal, non-empty \<open>p\<close>.\<close>

function replace_all :: "string \<Rightarrow> string \<Rightarrow> string \<Rightarrow> string" where
  "replace_all p r [] = []"
| "replace_all p r (c # cs) =
     (if p \<noteq> [] \<and> starts_at p (c # cs) then r @ replace_all p r (drop (length p) (c # cs))
      else c # replace_all p r cs)"
  by pat_completeness auto
termination
  by (relation "measure (\<lambda>(p, r, s). length s)") (auto simp: neq_Nil_conv)

fun join :: "string \<Rightarrow> string list \<Rightarrow> string" where
  "join sep [] = []"
| "join sep [x] = x"
| "join sep (x # y # zs) = x @ sep @ join sep (y # zs)"

fun str_lt :: "string \<Rightarrow> string \<Rightarrow> bool" where
  "str_lt xs [] = False"
| "str_lt [] (y # ys) = True"
| "str_lt (x # xs) (y # ys) =
     (if code x < code y then True else if code x = code y then str_lt xs ys else False)"

subsection \<open>Conversions\<close>

fun frac_digits :: "nat \<Rightarrow> rat \<Rightarrow> string" where
  "frac_digits 0 f = []"
| "frac_digits (Suc n) f =
     (if f = 0 then []
      else digit_char (nat \<lfloor>10 * f\<rfloor>) # frac_digits n (10 * f - of_int \<lfloor>10 * f\<rfloor>))"

text \<open>The decimal notation of a number, to twenty places after the point.\<close>

definition num_to_string :: "rat \<Rightarrow> string" where
  "num_to_string r =
     (let a = \<bar>r\<bar>; i = \<lfloor>a\<rfloor>; f = a - of_int i
      in (if r < 0 then ''-'' else []) @ nat_digits (nat i)
         @ (if f = 0 then [] else CHR ''.'' # frac_digits 20 f))"

fun to_string :: "jsval \<Rightarrow> string" where
  "to_string JUndef = ''undefined''"
| "to_string JNull = ''null''"
| "to_string (JBool b) = (if b then ''true'' else ''false'')"
| "to_string JNaN = ''NaN''"
| "to_string (JNum r) = num_to_string r"
| "to_string (JStr s) = s"
| "to_string (JArr xs) = join '','' (map (\<lambda>x. if nullish x then [] else to_string x) xs)"
| "to_string (JObj _) = ''[object Object]''"
| "to_string (JFun f) = f"

definition parse_sign :: "string \<Rightarrow> rat \<times> string" where
  "parse_sign s =
     (case s of [] \<Rightarrow> (1, [])
      | c # cs \<Rightarrow> if c = CHR ''-'' then (-1, cs) else if c = CHR ''+'' then (1, cs) else (1, c # cs))"

definition parse_exponent :: "string \<Rightarrow> rat \<times> string" where
  "parse_exponent s =
     (case s of [] \<Rightarrow> (1, [])
      | c # cs \<Rightarrow>
          if c = CHR ''e'' \<or> c = CHR ''E'' then
            (let (sg, t) = parse_sign cs; ds = takeWhile is_digit t
             in if ds = [] then (1, s)
                else (if sg = 1 then 10 ^ digits_val ds else 1 / 10 ^ digits_val ds,
                      dropWhile is_digit t))
          else (1, s))"

text \<open>The longest prefix of a string that is a decimal literal, with its value and the rest.\<close>

definition parse_decimal :: "string \<Rightarrow> (rat \<times> string) option" where
  "parse_decimal s =
     (let (sg, s1) = parse_sign s;
          ip = takeWhile is_digit s1; s2 = dropWhile is_digit s1;
          (fp, s3) = (case s2 of [] \<Rightarrow> ([], [])
             | c # cs \<Rightarrow> if c = CHR ''.'' then (takeWhile is_digit cs, dropWhile is_digit cs) else ([], s2))
      in if ip = [] \<and> fp = [] then None
         else let (ex, s4) = parse_exponent s3
              in Some (sg * (of_nat (digits_val (ip @ fp)) / 10 ^ length fp) * ex, s4))"

definition parseFloat :: "string \<Rightarrow> rat option" where
  "parseFloat s = map_option fst (parse_decimal (dropWhile is_space s))"

definition parseInt :: "string \<Rightarrow> int option" where
  "parseInt s =
     (let (sg, t) = parse_sign (dropWhile is_space s); ds = takeWhile is_digit t
      in if ds = [] then None else Some ((if sg = 1 then 1 else -1) * int (digits_val ds)))"

fun prim_to_number :: "jsval \<Rightarrow> rat option" where
  "prim_to_number JUndef = None"
| "prim_to_number JNull = Some 0"
| "prim_to_number (JBool b) = Some (if b then 1 else 0)"
| "prim_to_number JNaN = None"
| "prim_to_number (JNum r) = Some r"
| "prim_to_number (JStr s) =
     (let t = trim s in if t = [] then Some 0
      else case parse_decimal t of Some (r, []) \<Rightarrow> Some r | _ \<Rightarrow> None)"
| "prim_to_number _ = None"

fun is_ref :: "jsval \<Rightarrow> bool" where
  "is_ref (JArr _) = True"
| "is_ref (JObj _) = True"
| "is_ref (JFun _) = True"
| "is_ref _ = False"

definition to_prim :: "jsval \<Rightarrow> jsval" where
  "to_prim v = (if is_ref v then JStr (to_string v) else v)"

definition to_number :: "jsval \<Rightarrow> rat option" where
  "to_number v = prim_to_number (to_prim v)"

subsection \<open>Comparison operators\<close>

text \<open>The operator \<open><\<close>: by code units between strings, by value otherwise, false for \<open>NaN\<close>.\<close>

definition js_lt :: "jsval \<Rightarrow> jsval \<Rightarrow> bool" where
  "js_lt a b =
     (case (to_prim a, to_prim b) of
        (JStr s, JStr t) \<Rightarrow> str_lt s t
      | _ \<Rightarrow> (case (to_number a, to_number b) of (Some x, Some y) \<Rightarrow> x < y | _ \<Rightarrow> False))"

definition js_gt :: "jsval \<Rightarrow> jsval \<Rightarrow> bool" where
  "js_gt a b = js_lt b a"

text \<open>The equality \<open>===\<close>.\<close>

fun js_seq :: "jsval \<Rightarrow> jsval \<Rightarrow> bool" where
  "js_seq JUndef JUndef = True"
| "js_seq JNull JNull = True"
| "js_seq (JBool a) (JBool b) = (a = b)"
| "js_seq (JNum a) (JNum b) = (a = b)"
| "js_seq (JStr a) (JStr b) = (a = b)"
| "js_seq (JFun a) (JFun b) = (a = b)"
| "js_seq _ _ = False"

text \<open>The equality \<open>==\<close>.\<close>

definition js_eq :: "jsval \<Rightarrow> jsval \<Rightarrow> bool" where
  "js_eq a b =
     (if nullish a \<or> nullish b then nullish a \<and> nullish b
      else if is_ref a \<and> is_ref b then js_seq a b
      else (case (to_prim a, to_prim b) of
              (JStr s, JStr t) \<Rightarrow> s = t
            | _ \<Rightarrow> (case (to_number a, to_number b) of (Some x, Some y) \<Rightarrow> x = y | _ \<Rightarrow> False)))"

subsection \<open>Computations that may raise an error\<close>

fun bindE :: "'e + 'a \<Rightarrow> ('a \<Rightarrow> 'e + 'b) \<Rightarrow> 'e + 'b" where
  "bindE (Inl e) f = Inl e"
| "bindE (Inr a) f = f a"

fun filterE :: "('a \<Rightarrow> 'e + bool) \<Rightarrow> 'a list \<Rightarrow> 'e + 'a list" where
  "filterE p [] = Inr []"
| "filterE p (x # xs) =
     bindE (p x) (\<lambda>b. bindE (filterE p xs) (\<lambda>ys. Inr (if b then x # ys else ys)))"

fun mapE :: "('a \<Rightarrow> 'e + 'b) \<Rightarrow> 'a list \<Rightarrow> 'e + 'b list" where
  "mapE f [] = Inr []"
| "mapE f (x # xs) = bindE (f x) (\<lambda>y. bindE (mapE f xs) (\<lambda>ys. Inr (y # ys)))"

fun foldE :: "('s \<Rightarrow> 'a \<Rightarrow> 'e + 's) \<Rightarrow> 's \<Rightarrow> 'a list \<Rightarrow> 'e + 's" where
  "foldE f s [] = Inr s"
| "foldE f s (x # xs) = bindE (f s x) (\<lambda>s'. foldE f s' xs)"

text \<open>Reading \<open>v[k]\<close>: an error on \<open>undefined\<close> and \<open>null\<close>. An object has its own properties,
  an array and a string their elements and \<open>length\<close>; what a prototype adds is not represented.\<close>

definition elem_prop :: "(nat \<Rightarrow> jsval) \<Rightarrow> nat \<Rightarrow> string \<Rightarrow> jsval" where
  "elem_prop f n k =
     (if k = ''length'' then JNum (of_nat n)
      else let i = digits_val k in if k = nat_digits i \<and> i < n then f i else JUndef)"

fun read_prop :: "jsval \<Rightarrow> string \<Rightarrow> js_error + jsval" where
  "read_prop JUndef k = Inl TypeError"
| "read_prop JNull k = Inl TypeError"
| "read_prop (JObj p) k = Inr (get_prop p k)"
| "read_prop (JStr s) k = Inr (elem_prop (\<lambda>i. JStr [s ! i]) (length s) k)"
| "read_prop (JArr xs) k = Inr (elem_prop (\<lambda>i. xs ! i) (length xs) k)"
| "read_prop _ k = Inr JUndef"

text \<open>Reading \<open>xs[i]\<close> past the end of an array gives \<open>undefined\<close>.\<close>

definition arr_get :: "jsval list \<Rightarrow> nat \<Rightarrow> jsval" where
  "arr_get xs i = (if i < length xs then xs ! i else JUndef)"

text \<open>Writing \<open>xs[i] = v\<close> past the end extends the array with holes, read as \<open>undefined\<close>.\<close>

definition arr_put :: "jsval list \<Rightarrow> nat \<Rightarrow> jsval \<Rightarrow> jsval list" where
  "arr_put xs i v =
     (if i < length xs then xs[i := v] else xs @ replicate (i - length xs) JUndef @ [v])"

subsection \<open>The interfaces\<close>

text \<open>A dictionary: what a lookup returns after a store and after a deletion, and the
  enumeration of the keys. \<open>ok_key\<close> is the set of keys the store accepts.\<close>

locale dict =
  fixes ok_key :: "'k \<Rightarrow> bool"
    and invar :: "'d \<Rightarrow> bool"
    and lookup :: "'d \<Rightarrow> 'k \<Rightarrow> 'v option"
    and put :: "'k \<Rightarrow> 'v \<Rightarrow> 'd \<Rightarrow> 'd"
    and del :: "'k \<Rightarrow> 'd \<Rightarrow> 'd"
    and keys :: "'d \<Rightarrow> 'k list"
  assumes lookup_put: "invar d \<Longrightarrow> ok_key k \<Longrightarrow> lookup (put k v d) = (lookup d)(k \<mapsto> v)"
    and lookup_del: "invar d \<Longrightarrow> lookup (del k d) = (lookup d)(k := None)"
    and keys_dom: "invar d \<Longrightarrow> set (keys d) = dom (lookup d)"
    and keys_distinct: "invar d \<Longrightarrow> distinct (keys d)"
    and invar_put: "invar d \<Longrightarrow> invar (put k v d)"
    and invar_del: "invar d \<Longrightarrow> invar (del k d)"
begin

definition put_all :: "('k \<times> 'v) list \<Rightarrow> 'd \<Rightarrow> 'd" where
  "put_all kvs d = fold (\<lambda>(k, v). put k v) kvs d"

lemma invar_put_all: "invar d \<Longrightarrow> invar (put_all kvs d)"
  by (induction kvs arbitrary: d) (auto simp: put_all_def invar_put)

lemma lookup_put_all:
  "invar d \<Longrightarrow> list_all (\<lambda>(k, v). ok_key k) kvs \<Longrightarrow>
   lookup (put_all kvs d) = lookup d ++ map_of (rev kvs)"
proof (induction kvs arbitrary: d)
  case Nil
  then show ?case by (simp add: put_all_def)
next
  case (Cons kv kvs)
  then show ?case
    by (cases kv) (simp add: put_all_def invar_put lookup_put map_add_upd_left map_add_assoc [symmetric])
qed

lemma length_keys_put:
  assumes "invar d" "ok_key k"
  shows "length (keys (put k v d)) = (if lookup d k = None then Suc (length (keys d)) else length (keys d))"
proof -
  have "length (keys d') = card (dom (lookup d'))" if "invar d'" for d'
    using that by (metis distinct_card keys_distinct keys_dom)
  moreover have "finite (dom (lookup d))"
    using assms(1) keys_dom by (metis List.finite_set)
  ultimately show ?thesis
    using assms by (auto simp: lookup_put invar_put card_insert_if domIff)
qed

end

text \<open>A state machine with an invariant: what holds at the start and is kept by every step
  holds in every reachable state.\<close>

locale machine =
  fixes start :: "'s \<Rightarrow> bool"
    and step :: "'s \<Rightarrow> 's \<Rightarrow> bool"
    and inv :: "'s \<Rightarrow> bool"
  assumes start_inv: "start s \<Longrightarrow> inv s"
    and step_inv: "inv s \<Longrightarrow> step s t \<Longrightarrow> inv t"
begin

lemma steps_inv: "step\<^sup>*\<^sup>* s t \<Longrightarrow> inv s \<Longrightarrow> inv t"
  by (induction rule: rtranclp_induct) (auto intro: step_inv)

lemma reachable_inv: "start s \<Longrightarrow> step\<^sup>*\<^sup>* s t \<Longrightarrow> inv t"
  by (blast intro: steps_inv start_inv)

end

subsection \<open>Lemmas on errors\<close>

lemma bindE_Inr_iff [err_simps]: "bindE m f = Inr y \<longleftrightarrow> (\<exists>x. m = Inr x \<and> f x = Inr y)"
  by (cases m) auto

lemma bindE_Inl_iff [err_simps]:
  "bindE m f = Inl e \<longleftrightarrow> m = Inl e \<or> (\<exists>x. m = Inr x \<and> f x = Inl e)"
  by (cases m) auto

lemma filterE_total:
  "(\<And>x. x \<in> set xs \<Longrightarrow> p x = Inr (q x)) \<Longrightarrow> filterE p xs = Inr (filter q xs)"
  by (induction xs) auto

lemma filterE_Inr_subset: "filterE p xs = Inr ys \<Longrightarrow> set ys \<subseteq> set xs"
  by (induction xs arbitrary: ys) (auto simp: err_simps split: if_splits)

lemma mapE_total:
  "(\<And>x. x \<in> set xs \<Longrightarrow> f x = Inr (g x)) \<Longrightarrow> mapE f xs = Inr (map g xs)"
  by (induction xs) auto

lemma foldE_total:
  "(\<And>s x. x \<in> set xs \<Longrightarrow> f s x = Inr (g s x)) \<Longrightarrow> foldE f s xs = Inr (foldl g s xs)"
  by (induction xs arbitrary: s) auto

subsection \<open>Lemmas on lists\<close>

text \<open>An update that does not change what a function sees of the element.\<close>

lemma map_put_same: "g y = g (xs ! i) \<Longrightarrow> map g (xs[i := y]) = map g xs"
  by (metis list_update_id map_update)

subsection \<open>Lemmas on decimal numerals\<close>

lemma digit_char_facts:
  assumes "n < 10"
  shows "is_digit (digit_char n)" "digit_val (digit_char n) = n"
  using assms by (auto simp: is_digit_def digit_char_def digit_val_def)

lemma digits_val_snoc [simp]: "digits_val (s @ [c]) = 10 * digits_val s + digit_val c"
  by (simp add: digits_val_def)

lemma nat_digits_not_Nil [simp]: "nat_digits n \<noteq> []"
  by (subst nat_digits.simps) simp

lemma nat_digits_digits: "list_all is_digit (nat_digits n)"
proof (induction n rule: nat_digits.induct)
  case (1 n)
  show ?case
    using "1.IH" by (subst nat_digits.simps) (auto simp: digit_char_facts)
qed

lemma digits_val_nat_digits [simp]: "digits_val (nat_digits n) = n"
proof (induction n rule: nat_digits.induct)
  case (1 n)
  show ?case
  proof (cases "n < 10")
    case True
    then show ?thesis
      by (subst nat_digits.simps) (simp add: digits_val_def digit_char_facts)
  next
    case False
    with "1.IH" have "digits_val (nat_digits (n div 10)) = n div 10" by simp
    with False show ?thesis
      by (subst nat_digits.simps) (simp add: digit_char_facts)
  qed
qed

lemma elem_prop_name:
  assumes "\<not> list_all is_digit k" "k \<noteq> ''length''"
  shows "elem_prop f n k = JUndef"
proof -
  have "k \<noteq> nat_digits (digits_val k)" using assms(1) nat_digits_digits [of "digits_val k"] by auto
  with assms(2) show ?thesis by (simp add: elem_prop_def Let_def)
qed

lemma nat_digits_inject [simp]: "nat_digits m = nat_digits n \<longleftrightarrow> m = n"
  by (metis digits_val_nat_digits)

lemma takeWhile_digits: "list_all is_digit s \<Longrightarrow> takeWhile is_digit s = s"
  by (induction s) auto

lemma dropWhile_digits: "list_all is_digit s \<Longrightarrow> dropWhile is_digit s = []"
  by (induction s) auto

text \<open>A numeral reads back as its number.\<close>

lemma parseInt_nat_digits [simp]: "parseInt (nat_digits n) = Some (int n)"
proof -
  obtain c cs where s: "nat_digits n = c # cs" by (cases "nat_digits n") auto
  have "is_digit c" using nat_digits_digits [of n] s by simp
  then have "\<not> is_space c" "c \<noteq> CHR ''-''" "c \<noteq> CHR ''+''" by (auto simp: is_digit_def is_space_def)
  then have "parse_sign (dropWhile is_space (nat_digits n)) = (1, nat_digits n)"
    by (simp add: s parse_sign_def)
  then show ?thesis
    by (simp add: parseInt_def takeWhile_digits nat_digits_digits Let_def)
qed

subsection \<open>Lemmas on strings\<close>

lemma starts_at_Nil [simp]: "starts_at [] s"
  by (simp add: starts_at_def)

lemma starts_at_append: "starts_at p s \<longleftrightarrow> (\<exists>t. s = p @ t)"
  unfolding starts_at_def by (metis append_eq_conv_conj append_take_drop_id)

lemma index_of_Some:
  "index_of s p = Some i \<Longrightarrow> s = take i s @ p @ drop (i + length p) s \<and> i + length p \<le> length s"
proof (induction s arbitrary: i)
  case Nil
  then show ?case by (simp split: if_splits)
next
  case (Cons c cs)
  show ?case
  proof (cases "starts_at p (c # cs)")
    case True
    with Cons.prems have "i = 0" by simp
    moreover from True obtain t where "c # cs = p @ t" by (auto simp: starts_at_append)
    ultimately show ?thesis by (metis add_0 append_eq_conv_conj append_self_conv2 length_append
          le_add1 take0)
  next
    case False
    with Cons.prems obtain j where "index_of cs p = Some j" "i = Suc j" by auto
    with Cons.IH show ?thesis by auto
  qed
qed

lemma index_of_None: "index_of s p = None \<longleftrightarrow> (\<forall>a b. s \<noteq> a @ p @ b)"
proof (induction s)
  case Nil
  then show ?case by auto
next
  case (Cons c cs)
  have "(\<exists>a b. c # cs = a @ p @ b) \<longleftrightarrow> starts_at p (c # cs) \<or> (\<exists>a b. cs = a @ p @ b)"
  proof
    assume "\<exists>a b. c # cs = a @ p @ b"
    then obtain a b where ab: "c # cs = a @ p @ b" by blast
    show "starts_at p (c # cs) \<or> (\<exists>a b. cs = a @ p @ b)"
      using ab by (cases a) (auto simp: starts_at_append)
  next
    assume "starts_at p (c # cs) \<or> (\<exists>a b. cs = a @ p @ b)"
    then show "\<exists>a b. c # cs = a @ p @ b"
      by (metis append_Cons append_Nil starts_at_append)
  qed
  with Cons show ?case by auto
qed

lemma replace_all_char:
  "replace_all [a] r s = concat (map (\<lambda>c. if c = a then r else [c]) s)"
  by (induction s) (auto simp: starts_at_def)

lemma replace_all_absent: "index_of s p = None \<Longrightarrow> replace_all p r s = s"
  by (induction s) (auto split: if_splits)

subsection \<open>Objects\<close>

lemma get_prop_update [simp]:
  "get_prop (AList.update k v p) k' = (if k' = k then v else get_prop p k')"
  by (simp add: get_prop_def update_conv)

lemma get_prop_delete [simp]:
  "get_prop (AList.delete k p) k' = (if k' = k then JUndef else get_prop p k')"
  by (simp add: get_prop_def delete_conv)

lemma get_prop_Nil [simp]: "get_prop [] k = JUndef"
  by (simp add: get_prop_def)

text \<open>A list of properties with distinct names is a dictionary.\<close>

interpretation props: dict "\<lambda>_::string. True" "\<lambda>p. distinct (map fst p)" map_of
  AList.update AList.delete "\<lambda>p. map fst p"
  by unfold_locales
    (auto simp: update_conv delete_conv fun_eq_iff dom_map_of_conv_image_fst distinct_update
      distinct_delete)

lemma read_nonnullish: "\<not> nullish v \<Longrightarrow> \<exists>x. read_prop v k = Inr x"
  by (cases v) auto

lemma arr_get_simps [simp]:
  "i < length xs \<Longrightarrow> arr_get xs i = xs ! i"
  "\<not> i < length xs \<Longrightarrow> arr_get xs i = JUndef"
  by (simp_all add: arr_get_def)

lemma arr_put_in [simp]: "i < length xs \<Longrightarrow> arr_put xs i v = xs[i := v]"
  by (simp add: arr_put_def)

end
