(* ===== verification/Moo.thy ===== *)
theory Moo
  imports JS_Base
begin

section \<open>The MooTools layer the scripts are written on\<close>

text \<open>
  \<open>cip/cip.src.js\<close> opens with a copy of MooTools 1.2.2. This theory models the part of it the
  application calls: type inspection (\<open>$type\<close>, \<open>$splat\<close>), arrays, hashes (with the
  prototype names a \<open>Hash\<close> cannot store), numbers, strings, query strings, event handlers
  (\<open>Events\<close>) and chains (\<open>Chain\<close>). A handler of an event is a value of an arbitrary type;
  equal values are the same function.
\<close>

named_theorems moo_defs \<open>definitions of the MooTools primitives\<close>

subsection \<open>Type inspection\<close>

fun moo_type :: "jsval \<Rightarrow> string option" where
  "moo_type JUndef = None"
| "moo_type JNull = None"
| "moo_type JNaN = None"
| "moo_type (JBool _) = Some ''boolean''"
| "moo_type (JNum _) = Some ''number''"
| "moo_type (JStr _) = Some ''string''"
| "moo_type (JArr _) = Some ''array''"
| "moo_type (JObj _) = Some ''object''"
| "moo_type (JFun _) = Some ''function''"

definition moo_defined :: "jsval \<Rightarrow> bool" where
  "moo_defined a = (\<not> js_eq a JUndef)"

definition moo_chk :: "jsval \<Rightarrow> bool" where
  "moo_chk a = (truthy a \<or> js_seq a (JNum 0))"

definition splat :: "jsval \<Rightarrow> jsval list" where
  "splat b =
     (case moo_type b of
        None \<Rightarrow> []
      | Some t \<Rightarrow> (case b of JArr xs \<Rightarrow> xs | _ \<Rightarrow> [b]))"

fun pick :: "jsval list \<Rightarrow> jsval" where
  "pick [] = JNull"
| "pick (a # as) = (if moo_defined a then a else pick as)"

text \<open>\<open>$extend\<close>: every property of \<open>a\<close> is stored into \<open>c\<close>.\<close>

definition moo_extend :: "props \<Rightarrow> props \<Rightarrow> props" where
  "moo_extend c a = fold (\<lambda>(k, v). AList.update k v) a c"

subsection \<open>Arrays\<close>

definition arr_clean :: "jsval list \<Rightarrow> jsval list" where
  "arr_clean xs = filter moo_defined xs"

text \<open>\<open>indexOf\<close> with strict equality, from the start; \<open>None\<close> stands for \<open>-1\<close>.\<close>

fun arr_indexOf :: "('a \<Rightarrow> 'a \<Rightarrow> bool) \<Rightarrow> 'a list \<Rightarrow> 'a \<Rightarrow> nat option" where
  "arr_indexOf eq [] c = None"
| "arr_indexOf eq (x # xs) c = (if eq x c then Some 0 else map_option Suc (arr_indexOf eq xs c))"

definition arr_contains :: "('a \<Rightarrow> 'a \<Rightarrow> bool) \<Rightarrow> 'a list \<Rightarrow> 'a \<Rightarrow> bool" where
  "arr_contains eq xs a = (arr_indexOf eq xs a \<noteq> None)"

definition arr_include :: "('a \<Rightarrow> 'a \<Rightarrow> bool) \<Rightarrow> 'a \<Rightarrow> 'a list \<Rightarrow> 'a list" where
  "arr_include eq a xs = (if arr_contains eq xs a then xs else xs @ [a])"

definition arr_combine :: "('a \<Rightarrow> 'a \<Rightarrow> bool) \<Rightarrow> 'a list \<Rightarrow> 'a list \<Rightarrow> 'a list" where
  "arr_combine eq xs c = fold (arr_include eq) c xs"

text \<open>\<open>erase\<close> runs from the end towards the front, splicing out every equal element.\<close>

fun arr_erase_from :: "('a \<Rightarrow> 'a \<Rightarrow> bool) \<Rightarrow> 'a \<Rightarrow> nat \<Rightarrow> 'a list \<Rightarrow> 'a list" where
  "arr_erase_from eq b 0 xs = xs"
| "arr_erase_from eq b (Suc a) xs =
     arr_erase_from eq b a
       (if a < length xs \<and> eq (xs ! a) b then take a xs @ drop (Suc a) xs else xs)"

definition arr_erase :: "('a \<Rightarrow> 'a \<Rightarrow> bool) \<Rightarrow> 'a \<Rightarrow> 'a list \<Rightarrow> 'a list" where
  "arr_erase eq b xs = arr_erase_from eq b (length xs) xs"

definition arr_getLast :: "jsval list \<Rightarrow> jsval" where
  "arr_getLast xs = (if xs = [] then JNull else last xs)"

fun arr_flatten :: "jsval list \<Rightarrow> jsval list" where
  "arr_flatten [] = []"
| "arr_flatten (x # xs) =
     (case moo_type x of
        None \<Rightarrow> arr_flatten xs
      | Some _ \<Rightarrow> (case x of JArr ys \<Rightarrow> arr_flatten ys | _ \<Rightarrow> [x]) @ arr_flatten xs)"

subsection \<open>Hashes\<close>

text \<open>The names \<open>Hash.prototype\<close> and \<open>Object.prototype\<close> already hold: a \<open>set\<close> of such a name
  is dropped unless the hash has its own property of that name.\<close>

definition hash_proto :: "string list" where
  "hash_proto =
     [''constructor'', ''$family'', ''forEach'', ''each'', ''getClean'', ''getLength'', ''has'',
      ''keyOf'', ''indexOf'', ''hasValue'', ''contains'', ''extend'', ''combine'', ''erase'',
      ''get'', ''set'', ''empty'', ''include'', ''map'', ''filter'', ''every'', ''some'',
      ''getKeys'', ''getValues'', ''toQueryString'', ''toJSON'', ''getFromPath'',
      ''cleanValues'', ''run'', ''toString'', ''toLocaleString'', ''valueOf'',
      ''hasOwnProperty'', ''isPrototypeOf'', ''propertyIsEnumerable'']"

text \<open>\<open>new Hash(a)\<close> copies every property, whatever its name.\<close>

definition hash_new :: "(string \<times> 'v) list \<Rightarrow> (string \<times> 'v) list" where
  "hash_new a = fold (\<lambda>(k, v). AList.update k v) a []"

definition hash_get :: "props \<Rightarrow> string \<Rightarrow> jsval" where
  "hash_get h a = (case map_of h a of Some v \<Rightarrow> v | None \<Rightarrow> JNull)"

definition hash_set :: "string \<Rightarrow> 'v \<Rightarrow> (string \<times> 'v) list \<Rightarrow> (string \<times> 'v) list" where
  "hash_set a b h = (if a \<notin> set hash_proto \<or> map_of h a \<noteq> None then AList.update a b h else h)"

definition hash_erase :: "string \<Rightarrow> (string \<times> 'v) list \<Rightarrow> (string \<times> 'v) list" where
  "hash_erase a h = AList.delete a h"

definition hash_extend :: "(string \<times> 'v) list \<Rightarrow> (string \<times> 'v) list \<Rightarrow> (string \<times> 'v) list" where
  "hash_extend h a = fold (\<lambda>(k, v). hash_set k v) a h"

definition hash_include :: "string \<Rightarrow> jsval \<Rightarrow> props \<Rightarrow> props" where
  "hash_include a b h =
     (if a \<notin> set hash_proto \<and> nullish (get_prop h a) \<or> map_of h a \<noteq> None \<and> nullish (get_prop h a)
      then AList.update a b h else h)"

definition hash_getKeys :: "(string \<times> 'v) list \<Rightarrow> string list" where
  "hash_getKeys h = map fst h"

definition hash_getValues :: "(string \<times> 'v) list \<Rightarrow> 'v list" where
  "hash_getValues h = map snd h"

definition hash_getLength :: "(string \<times> 'v) list \<Rightarrow> nat" where
  "hash_getLength h = length h"

definition hash_filter :: "('v \<Rightarrow> string \<Rightarrow> bool) \<Rightarrow> (string \<times> 'v) list \<Rightarrow> (string \<times> 'v) list" where
  "hash_filter b h = fold (\<lambda>(k, v) a. if b v k then hash_set k v a else a) h []"

fun hash_keyOf :: "('v \<Rightarrow> 'v \<Rightarrow> bool) \<Rightarrow> (string \<times> 'v) list \<Rightarrow> 'v \<Rightarrow> string option" where
  "hash_keyOf eq [] b = None"
| "hash_keyOf eq ((k, v) # h) b = (if eq v b then Some k else hash_keyOf eq h b)"

subsection \<open>Numbers\<close>

definition num_limit :: "rat \<Rightarrow> rat \<Rightarrow> rat \<Rightarrow> rat" where
  "num_limit x b a = min a (max b x)"

text \<open>\<open>Math.round\<close> rounds a half upwards; \<open>x.round(a)\<close> rounds to \<open>a\<close> decimal places.\<close>

definition math_round :: "rat \<Rightarrow> int" where
  "math_round x = \<lfloor>x + 1 / 2\<rfloor>"

definition num_round :: "nat \<Rightarrow> rat \<Rightarrow> rat" where
  "num_round a x = of_int (math_round (x * 10 ^ a)) / 10 ^ a"

text \<open>The arguments \<open>times\<close> passes to its function, in order.\<close>

definition num_times :: "nat \<Rightarrow> nat list" where
  "num_times n = [0..<n]"

subsection \<open>Strings\<close>

definition str_contains :: "string \<Rightarrow> string \<Rightarrow> bool" where
  "str_contains s a = (index_of s a \<noteq> None)"

fun squeeze_spaces :: "bool \<Rightarrow> string \<Rightarrow> string" where
  "squeeze_spaces seen [] = []"
| "squeeze_spaces seen (c # cs) =
     (if is_space c then (if seen then squeeze_spaces True cs else CHR '' '' # squeeze_spaces True cs)
      else c # squeeze_spaces False cs)"

definition str_clean :: "string \<Rightarrow> string" where
  "str_clean s = trim (squeeze_spaces False s)"

fun camelCase :: "string \<Rightarrow> string" where
  "camelCase [] = []"
| "camelCase [c] = [c]"
| "camelCase (c # d # cs) =
     (if c = CHR ''-'' \<and> \<not> is_digit d then to_upper_char d # camelCase cs
      else c # camelCase (d # cs))"

definition is_upper_az :: "char \<Rightarrow> bool" where
  "is_upper_az c = (65 \<le> code c \<and> code c \<le> 90)"

definition is_lower_az :: "char \<Rightarrow> bool" where
  "is_lower_az c = (97 \<le> code c \<and> code c \<le> 122)"

definition is_word_char :: "char \<Rightarrow> bool" where
  "is_word_char c = (is_upper_az c \<or> is_lower_az c \<or> is_digit c \<or> c = CHR ''_'')"

definition hyphenate :: "string \<Rightarrow> string" where
  "hyphenate s = concat (map (\<lambda>c. if is_upper_az c then [CHR ''-'', to_lower_char c] else [c]) s)"

text \<open>\<open>capitalize\<close> raises every lower case letter that follows a word boundary.\<close>

fun capitalize_after :: "bool \<Rightarrow> string \<Rightarrow> string" where
  "capitalize_after w [] = []"
| "capitalize_after w (c # cs) =
     (if \<not> w \<and> is_lower_az c then to_upper_char c else c) # capitalize_after (is_word_char c) cs"

definition capitalize :: "string \<Rightarrow> string" where
  "capitalize s = capitalize_after False s"

text \<open>\<open>substitute\<close>: the first brace group \<open>{key}\<close> at the head of a string, if any.\<close>

definition not_brace :: "char \<Rightarrow> bool" where
  "not_brace c = (c \<noteq> CHR ''{'' \<and> c \<noteq> CHR ''}'')"

definition match_brace :: "string \<Rightarrow> (string \<times> string) option" where
  "match_brace s =
     (case s of [] \<Rightarrow> None
      | c # t \<Rightarrow>
          if c = CHR ''{'' then
            (let k = takeWhile not_brace t
             in case dropWhile not_brace t of
                  [] \<Rightarrow> None
                | d # r \<Rightarrow> if k \<noteq> [] \<and> d = CHR ''}'' then Some (k, r) else None)
          else None)"

lemma match_brace_shorter: "match_brace s = Some (k, r) \<Longrightarrow> length r < length s"
proof -
  assume a: "match_brace s = Some (k, r)"
  then obtain c t d where s: "s = c # t" "dropWhile not_brace t = d # r"
    by (auto simp: match_brace_def Let_def split: list.splits if_splits)
  have "length (d # r) \<le> length t"
    using s(2) by (metis length_dropWhile_le)
  with s show ?thesis by simp
qed

function substitute :: "string \<Rightarrow> props \<Rightarrow> string" where
  "substitute [] a = []"
| "substitute (c # cs) a =
     (case match_brace (c # cs) of
        Some (k, r) \<Rightarrow>
          (if nullish (get_prop a k) then [] else to_string (get_prop a k)) @ substitute r a
      | None \<Rightarrow>
          (case (if c = CHR 0x5C then match_brace cs else None) of
             Some (k, r) \<Rightarrow> (CHR ''{'' # k @ ''}'') @ substitute r a
           | None \<Rightarrow> c # substitute cs a))"
  by pat_completeness auto
termination
  by (relation "measure (\<lambda>(s, a). length s)")
    (auto dest: match_brace_shorter simp: less_Suc_eq split: if_splits)

subsection \<open>Query strings\<close>

definition hex_digit :: "nat \<Rightarrow> char" where
  "hex_digit n = (if n < 10 then char_of (48 + n) else char_of (55 + n))"

definition percent_byte :: "nat \<Rightarrow> string" where
  "percent_byte b = [CHR ''%'', hex_digit (b div 16), hex_digit (b mod 16)]"

text \<open>\<open>encodeURIComponent\<close>: the unreserved characters stand, every other code unit below 256 is
  percent-encoded in UTF-8 (one or two bytes).\<close>

definition unreserved :: "char \<Rightarrow> bool" where
  "unreserved c = (is_upper_az c \<or> is_lower_az c \<or> is_digit c \<or> c \<in> set ''-_.!~*()'' \<or> code c = 39)"

definition encode_char :: "char \<Rightarrow> string" where
  "encode_char c =
     (if unreserved c then [c]
      else if code c < 128 then percent_byte (code c)
      else percent_byte (192 + code c div 64) @ percent_byte (128 + code c mod 64))"

definition encodeURIComponent :: "string \<Rightarrow> string" where
  "encodeURIComponent s = concat (map encode_char s)"

definition query_key :: "string option \<Rightarrow> string \<Rightarrow> string" where
  "query_key a e = (case a of None \<Rightarrow> e | Some b \<Rightarrow> b @ ''['' @ e @ '']'')"

fun query_val :: "string \<Rightarrow> jsval \<Rightarrow> string"
  and query_props :: "string option \<Rightarrow> props \<Rightarrow> string list"
  and query_items :: "string \<Rightarrow> nat \<Rightarrow> jsval list \<Rightarrow> string list" where
  "query_val e (JObj p) = join ''&'' (query_props (Some e) p)"
| "query_val e (JArr xs) = join ''&'' (query_items e 0 xs)"
| "query_val e v = e @ ''='' @ encodeURIComponent (to_string v)"
| "query_props a [] = []"
| "query_props a ((e, f) # r) =
     (if nullish f then [] else [query_val (query_key a e) f]) @ query_props a r"
| "query_items e i [] = []"
| "query_items e i (f # r) =
     (if nullish f then [] else [query_val (query_key (Some e) (nat_digits i)) f])
     @ query_items e (Suc i) r"

definition toQueryString :: "props \<Rightarrow> string" where
  "toQueryString h = join ''&'' (query_props None h)"

subsection \<open>The JSON encoder\<close>

definition hex_lower :: "nat \<Rightarrow> char" where
  "hex_lower n = (if n < 10 then char_of (48 + n) else char_of (87 + n))"

text \<open>\<open>$replaceChars\<close>: seven characters have an escape of their own, the others \<open>\u00xx\<close>.\<close>

definition json_escape_char :: "char \<Rightarrow> string" where
  "json_escape_char c =
     (if code c = 8 then [CHR 0x5C, CHR ''b'']
      else if code c = 9 then [CHR 0x5C, CHR ''t'']
      else if code c = 10 then [CHR 0x5C, CHR ''n'']
      else if code c = 12 then [CHR 0x5C, CHR ''f'']
      else if code c = 13 then [CHR 0x5C, CHR ''r'']
      else if code c = 34 then [CHR 0x5C, CHR 0x22]
      else if code c = 92 then [CHR 0x5C, CHR 0x5C]
      else CHR 0x5C # ''u00'' @ [hex_lower (code c div 16), hex_lower (code c mod 16)])"

definition json_quote :: "(char \<Rightarrow> bool) \<Rightarrow> string \<Rightarrow> string" where
  "json_quote special s =
     CHR 0x22 # concat (map (\<lambda>c. if special c then json_escape_char c else [c]) s) @ [CHR 0x22]"

definition moo_json_special :: "char \<Rightarrow> bool" where
  "moo_json_special c = (code c < 32 \<or> code c = 92 \<or> code c = 34)"

text \<open>\<open>JSON.encode\<close>; \<open>None\<close> is the \<open>null\<close> it returns for a function, which the enclosing
  array or object drops.\<close>

fun json_encode :: "jsval \<Rightarrow> string option" where
  "json_encode (JStr s) = Some (json_quote moo_json_special s)"
| "json_encode (JArr xs) =
     Some (''['' @ join '','' (concat (map (\<lambda>x. case json_encode x of None \<Rightarrow> [] | Some c \<Rightarrow> [c]) xs)) @ '']'')"
| "json_encode (JObj p) =
     Some (''{'' @ join '','' (concat (map (\<lambda>(d, e). case json_encode e of
         None \<Rightarrow> [] | Some c \<Rightarrow> [json_quote moo_json_special d @ '':'' @ c]) p)) @ ''}'')"
| "json_encode (JNum r) = Some (num_to_string r)"
| "json_encode (JBool b) = Some (if b then ''true'' else ''false'')"
| "json_encode JUndef = Some ''null''"
| "json_encode JNull = Some ''null''"
| "json_encode JNaN = Some ''null''"
| "json_encode (JFun _) = None"

subsection \<open>Events and chains\<close>

text \<open>\<open>Events.removeOn\<close>: a name \<open>onXyz\<close> is the event \<open>xyz\<close>.\<close>

definition removeOn :: "string \<Rightarrow> string" where
  "removeOn a =
     (case a of
        o1 # n # c # r \<Rightarrow>
          if o1 = CHR ''o'' \<and> n = CHR ''n'' \<and> is_upper_az c then to_lower_char c # r else a
      | _ \<Rightarrow> a)"

record 'h events =
  handlers :: "(string \<times> 'h list) list"
  internal :: "'h list"

definition no_events :: "'h events" where
  "no_events = \<lparr>handlers = [], internal = []\<rparr>"

definition handlers_of :: "'h events \<Rightarrow> string \<Rightarrow> 'h list" where
  "handlers_of es c = (case map_of (handlers es) c of None \<Rightarrow> [] | Some hs \<Rightarrow> hs)"

text \<open>\<open>noop\<close> is MooTools' \<open>$empty\<close>, which is never registered.\<close>

definition addEvent :: "'h \<Rightarrow> string \<Rightarrow> 'h \<Rightarrow> bool \<Rightarrow> 'h events \<Rightarrow> 'h events" where
  "addEvent noop c b a es =
     (let c = removeOn c
      in if b \<noteq> noop
         then es\<lparr>handlers := AList.update c (arr_include (=) b (handlers_of es c)) (handlers es),
                 internal := (if a then b # internal es else internal es)\<rparr>
         else es)"

definition removeEvent :: "string \<Rightarrow> 'h \<Rightarrow> 'h events \<Rightarrow> 'h events" where
  "removeEvent b a es =
     (let b = removeOn b
      in case map_of (handlers es) b of
           None \<Rightarrow> es
         | Some hs \<Rightarrow>
             if a \<notin> set (internal es)
             then es\<lparr>handlers := AList.update b (arr_erase (=) a hs) (handlers es)\<rparr>
             else es)"

text \<open>\<open>fireEvent\<close> calls the handlers of the event in the order they were added: the model gives
  the handlers called.\<close>

definition fireEvent :: "string \<Rightarrow> 'h events \<Rightarrow> 'h list" where
  "fireEvent c es = handlers_of es (removeOn c)"

definition chain_add :: "'f list \<Rightarrow> 'f list \<Rightarrow> 'f list" where
  "chain_add ch fs = ch @ fs"

definition callChain :: "'f list \<Rightarrow> 'f option \<times> 'f list" where
  "callChain ch = (case ch of [] \<Rightarrow> (None, []) | f # r \<Rightarrow> (Some f, r))"

lemmas [moo_defs] = splat_def arr_clean_def arr_contains_def arr_include_def arr_erase_def
  hash_get_def hash_set_def hash_erase_def hash_extend_def hash_new_def
  addEvent_def removeEvent_def fireEvent_def handlers_of_def

subsection \<open>Arrays: laws\<close>

lemma moo_defined_iff [simp]: "moo_defined a \<longleftrightarrow> \<not> nullish a"
  by (simp add: moo_defined_def js_eq_def)

lemma arr_clean_eq: "arr_clean xs = filter (\<lambda>x. \<not> nullish x) xs"
  by (auto simp: arr_clean_def intro: filter_cong)

lemma splat_simps [simp]:
  "splat JUndef = []" "splat JNull = []" "splat JNaN = []" "splat (JArr xs) = xs"
  "splat (JStr s) = [JStr s]" "splat (JNum r) = [JNum r]" "splat (JBool b) = [JBool b]"
  "splat (JObj p) = [JObj p]" "splat (JFun f) = [JFun f]"
  by (simp_all add: splat_def)

lemma arr_indexOf_Some:
  "arr_indexOf eq xs c = Some i \<Longrightarrow> i < length xs \<and> eq (xs ! i) c \<and> (\<forall>j<i. \<not> eq (xs ! j) c)"
proof (induction xs arbitrary: i)
  case (Cons x xs)
  then show ?case
    by (auto simp: nth_Cons split: if_splits nat.splits)
qed simp

lemma arr_indexOf_None: "arr_indexOf eq xs c = None \<longleftrightarrow> (\<forall>x \<in> set xs. \<not> eq x c)"
  by (induction xs) auto

lemma arr_contains_iff [simp]: "arr_contains eq xs a \<longleftrightarrow> (\<exists>x \<in> set xs. eq x a)"
  by (simp add: arr_contains_def arr_indexOf_None)

lemma arr_include_set [simp]: "set (arr_include (=) a xs) = insert a (set xs)"
  by (auto simp: arr_include_def)

lemma arr_include_distinct [simp]: "distinct (arr_include (=) a xs) \<longleftrightarrow> distinct xs"
  by (auto simp: arr_include_def)

text \<open>The backward loop of \<open>erase\<close> keeps exactly the elements that differ.\<close>

lemma arr_erase_from_eq:
  "a \<le> length xs \<Longrightarrow>
   arr_erase_from eq b a xs = filter (\<lambda>x. \<not> eq x b) (take a xs) @ drop a xs"
proof (induction eq b a xs rule: arr_erase_from.induct)
  case (2 eq b a xs)
  then have a: "a < length xs" by simp
  show ?case
  proof (cases "eq (xs ! a) b")
    case True
    let ?ys = "take a xs @ drop (Suc a) xs"
    have "arr_erase_from eq b a ?ys = filter (\<lambda>x. \<not> eq x b) (take a ?ys) @ drop a ?ys"
      using "2.IH" a True by simp
    with True a show ?thesis by (simp add: take_Suc_conv_app_nth)
  next
    case False
    then have "arr_erase_from eq b a xs = filter (\<lambda>x. \<not> eq x b) (take a xs) @ drop a xs"
      using "2.IH" a by simp
    with False a show ?thesis by (simp add: take_Suc_conv_app_nth Cons_nth_drop_Suc)
  qed
qed simp

lemma arr_erase_eq: "arr_erase eq b xs = filter (\<lambda>x. \<not> eq x b) xs"
  by (simp add: arr_erase_def arr_erase_from_eq)

lemma arr_flatten_no_arrays: "x \<in> set (arr_flatten xs) \<Longrightarrow> \<not> (\<exists>ys. x = JArr ys) \<and> \<not> nullish x"
  by (induction xs rule: arr_flatten.induct) (auto split: jsval.splits option.splits)

subsection \<open>Hashes: laws\<close>

text \<open>A hash is a dictionary on the names its prototype does not hold.\<close>

interpretation hash: dict "\<lambda>k. k \<notin> set hash_proto" "\<lambda>h. distinct (map fst h)" map_of
  hash_set hash_erase hash_getKeys
  by unfold_locales
    (auto simp: hash_set_def hash_erase_def hash_getKeys_def update_conv delete_conv fun_eq_iff
      dom_map_of_conv_image_fst distinct_update distinct_delete)

lemma hash_set_proto: "k \<in> set hash_proto \<Longrightarrow> map_of h k = None \<Longrightarrow> hash_set k v h = h"
  by (simp add: hash_set_def)

lemma hash_extend_eq: "hash_extend h a = hash.put_all a h"
  by (simp add: hash_extend_def hash.put_all_def)

lemma moo_extend_eq: "moo_extend c a = props.put_all a c"
  by (simp add: moo_extend_def props.put_all_def)

lemma hash_new_eq: "hash_new a = props.put_all a []"
  by (simp add: hash_new_def props.put_all_def)

lemma map_of_hash_new: "map_of (hash_new a) = map_of (rev a)"
  by (simp add: hash_new_eq props.lookup_put_all list_all_iff)

lemma distinct_hash_new [simp]: "distinct (map fst (hash_new a))"
  by (simp add: hash_new_eq props.invar_put_all)

lemma map_of_hash_extend:
  "distinct (map fst h) \<Longrightarrow> list_all (\<lambda>(k, v). k \<notin> set hash_proto) a \<Longrightarrow>
   map_of (hash_extend h a) = map_of h ++ map_of (rev a)"
  by (simp add: hash_extend_eq hash.lookup_put_all)

lemma map_of_moo_extend:
  "distinct (map fst c) \<Longrightarrow> map_of (moo_extend c a) = map_of c ++ map_of (rev a)"
  by (simp add: moo_extend_eq props.lookup_put_all list_all_iff)

lemma map_of_rev_distinct: "distinct (map fst a) \<Longrightarrow> map_of (rev a) = map_of a"
proof (induction a)
  case (Cons kv a)
  then have "map_of a (fst kv) = None" by (simp add: map_of_eq_None_iff)
  with Cons show ?case
    by (cases kv) (auto simp: fun_eq_iff map_add_def split: option.splits)
qed simp

subsection \<open>Numbers: laws\<close>

lemma math_round_bounds: "of_int (math_round x) \<le> x + 1 / 2" "x - 1 / 2 < of_int (math_round x)"
  unfolding math_round_def by linarith+

lemma num_round_error: "\<bar>num_round a x - x\<bar> \<le> 1 / (2 * 10 ^ a)"
proof -
  have "\<bar>of_int (math_round (x * 10 ^ a)) - x * 10 ^ a\<bar> \<le> (1 / 2 :: rat)"
    using math_round_bounds [of "x * 10 ^ a"] by linarith
  then have "\<bar>of_int (math_round (x * 10 ^ a)) - x * 10 ^ a\<bar> / 10 ^ a \<le> (1 / 2 :: rat) / 10 ^ a"
    by (rule divide_right_mono) simp
  moreover have "num_round a x - x = (of_int (math_round (x * 10 ^ a)) - x * 10 ^ a) / 10 ^ a"
    by (simp add: num_round_def diff_divide_distrib)
  ultimately show ?thesis by (simp add: abs_divide)
qed

lemma num_round_mono: "x \<le> y \<Longrightarrow> num_round a x \<le> num_round a y"
  by (auto simp: num_round_def math_round_def intro!: divide_right_mono floor_mono mult_right_mono)

lemma math_round_of_int [simp]: "math_round (of_int i) = i"
  by (simp add: math_round_def floor_unique)

lemma num_round_0 [simp]: "num_round a 0 = 0"
  using math_round_of_int [of 0] by (simp add: num_round_def)

lemma num_round_idem [simp]: "num_round a (num_round a x) = num_round a x"
  by (simp add: num_round_def)

lemma num_round_nonneg: "0 \<le> x \<Longrightarrow> 0 \<le> num_round a x"
  using num_round_mono [of 0 x a] by simp

subsection \<open>Strings: laws\<close>

lemma to_upper_to_lower: "is_upper_az c \<Longrightarrow> to_upper_char (to_lower_char c) = c"
  by (auto simp: is_upper_az_def to_upper_char_def to_lower_char_def)

lemma lower_not_digit: "is_upper_az c \<Longrightarrow> \<not> is_digit (to_lower_char c)"
  by (auto simp: is_upper_az_def is_digit_def to_lower_char_def)

lemma camelCase_Cons: "c \<noteq> CHR ''-'' \<Longrightarrow> camelCase (c # cs) = c # camelCase cs"
  by (cases cs) auto

lemma hyphenate_simps [simp]:
  "hyphenate [] = []"
  "hyphenate (c # cs) =
     (if is_upper_az c then CHR ''-'' # to_lower_char c # hyphenate cs else c # hyphenate cs)"
  by (simp_all add: hyphenate_def)

lemma camelCase_hyphenate: "CHR ''-'' \<notin> set s \<Longrightarrow> camelCase (hyphenate s) = s"
  by (induction s) (auto simp: camelCase_Cons to_upper_to_lower lower_not_digit)

lemma squeeze_spaces_space:
  "list_all is_space s \<Longrightarrow> list_all is_space (squeeze_spaces b s)"
  by (induction s arbitrary: b) (auto simp: is_space_def)

lemma squeeze_spaces_nonspace:
  "\<not> list_all is_space s \<Longrightarrow> \<not> list_all is_space (squeeze_spaces b s)"
  by (induction s arbitrary: b) auto

lemma dropWhile_Nil_iff: "dropWhile p s = [] \<longleftrightarrow> list_all p s"
  by (induction s) auto

lemma list_all_rev [simp]: "list_all p (rev s) = list_all p s"
  by (simp add: list_all_iff)

lemma list_all_dropWhile: "list_all p (dropWhile p s) \<longleftrightarrow> list_all p s"
  by (induction s) auto

lemma trim_Nil_iff: "trim s = [] \<longleftrightarrow> list_all is_space s"
  unfolding trim_def
  by (metis dropWhile_Nil_iff list_all_dropWhile list_all_rev rev_is_Nil_conv)

text \<open>A cleaned value is empty exactly when it holds nothing but white space.\<close>

lemma str_clean_Nil_iff: "str_clean s = [] \<longleftrightarrow> list_all is_space s"
  using squeeze_spaces_space [of s False] squeeze_spaces_nonspace [of s False]
  by (auto simp: str_clean_def trim_Nil_iff)

lemma hex_digit_unreserved: "n < 16 \<Longrightarrow> unreserved (hex_digit n)"
  by (auto simp: hex_digit_def unreserved_def is_digit_def is_upper_az_def)

lemma percent_byte_chars: "b < 256 \<Longrightarrow> c \<in> set (percent_byte b) \<Longrightarrow> unreserved c \<or> c = CHR ''%''"
  by (auto simp: percent_byte_def hex_digit_unreserved)

lemma utf8_bytes_bound:
  assumes "(n::nat) < 256"
  shows "n < 128 \<or> 192 + n div 64 < 256 \<and> 128 + n mod 64 < 256"
proof -
  have "n div 64 < 64" using assms by (intro less_mult_imp_div_less) simp
  moreover have "n mod 64 < 64" by simp
  ultimately show ?thesis by linarith
qed

lemma encode_char_chars:
  assumes "d \<in> set (encode_char c)"
  shows "unreserved d \<or> d = CHR ''%''"
proof -
  have "code c < 256" by (metis of_char_mod_256 mod_less_divisor zero_less_numeral)
  from utf8_bytes_bound [OF this] show ?thesis
    using assms percent_byte_chars [of "code c" d] percent_byte_chars [of "192 + code c div 64" d]
      percent_byte_chars [of "128 + code c mod 64" d]
    by (auto simp: encode_char_def split: if_splits)
qed

text \<open>An encoded value holds no character with a meaning in a query string.\<close>

lemma encodeURIComponent_chars:
  "d \<in> set (encodeURIComponent s) \<Longrightarrow> unreserved d \<or> d = CHR ''%''"
  by (auto simp: encodeURIComponent_def dest: encode_char_chars)

subsection \<open>Events: laws\<close>

text \<open>An event source: what is called after a handler was added or removed.\<close>

locale event_source =
  fixes ok :: "'h \<Rightarrow> bool"
    and wf :: "'s \<Rightarrow> bool"
    and add :: "string \<Rightarrow> 'h \<Rightarrow> 's \<Rightarrow> 's"
    and remove :: "string \<Rightarrow> 'h \<Rightarrow> 's \<Rightarrow> 's"
    and fire :: "string \<Rightarrow> 's \<Rightarrow> 'h list"
  assumes fire_add_new: "wf s \<Longrightarrow> ok h \<Longrightarrow> h \<notin> set (fire e s) \<Longrightarrow> fire e (add e h s) = fire e s @ [h]"
    and fire_add_present: "wf s \<Longrightarrow> ok h \<Longrightarrow> h \<in> set (fire e s) \<Longrightarrow> fire e (add e h s) = fire e s"
    and fire_remove: "wf s \<Longrightarrow> fire e (remove e h s) = filter (\<lambda>x. x \<noteq> h) (fire e s)"
    and wf_add: "wf s \<Longrightarrow> wf (add e h s)"
    and wf_remove: "wf s \<Longrightarrow> wf (remove e h s)"
    and wf_fire: "wf s \<Longrightarrow> distinct (fire e s)"
begin

lemma add_twice: "wf s \<Longrightarrow> ok h \<Longrightarrow> fire e (add e h (add e h s)) = fire e (add e h s)"
  by (cases "h \<in> set (fire e s)") (simp_all add: fire_add_present fire_add_new wf_add)

lemma remove_add: "wf s \<Longrightarrow> ok h \<Longrightarrow> h \<notin> set (fire e s) \<Longrightarrow> fire e (remove e h (add e h s)) = fire e s"
  by (auto simp: fire_remove fire_add_new wf_add filter_id_conv)

lemma fire_add_all:
  "wf s \<Longrightarrow> list_all ok hs \<Longrightarrow> distinct hs \<Longrightarrow> set hs \<inter> set (fire e s) = {} \<Longrightarrow>
   fire e (fold (add e) hs s) = fire e s @ hs"
proof (induction hs arbitrary: s)
  case (Cons h hs)
  have "fire e (fold (add e) hs (add e h s)) = fire e (add e h s) @ hs"
    using Cons.prems by (intro Cons.IH) (auto simp: fire_add_new wf_add)
  with Cons.prems show ?case by (simp add: fire_add_new)
qed simp

end

text \<open>The handler table of an object built by \<open>addEvent\<close> alone: no list holds a handler twice,
  and nothing is internal.\<close>

definition events_wf :: "'h events \<Rightarrow> bool" where
  "events_wf es = (internal es = [] \<and> list_all (\<lambda>(c, hs). distinct hs) (handlers es))"

lemma handlers_of_update:
  "handlers_of (es\<lparr>handlers := AList.update c hs (handlers es), internal := i\<rparr>) c' =
     (if c' = c then hs else handlers_of es c')"
  by (simp add: handlers_of_def update_conv)

lemma handlers_of_update_only:
  "handlers_of (es\<lparr>handlers := AList.update c hs (handlers es)\<rparr>) c' =
     (if c' = c then hs else handlers_of es c')"
  by (simp add: handlers_of_def update_conv)

lemma events_wf_distinct: "events_wf es \<Longrightarrow> distinct (handlers_of es c)"
  by (auto simp: events_wf_def handlers_of_def list_all_iff dest!: map_of_SomeD split: option.splits)

lemma list_all_update:
  "list_all P al \<Longrightarrow> P (k, v) \<Longrightarrow> list_all P (AList.update k v al)"
  by (induction al) auto

lemma events_wf_update [simp]:
  "events_wf es \<Longrightarrow> distinct hs \<Longrightarrow>
   events_wf (es\<lparr>handlers := AList.update c hs (handlers es)\<rparr>)"
  by (simp add: events_wf_def list_all_update)

lemma events_wf_addEvent: "events_wf es \<Longrightarrow> events_wf (addEvent noop c b False es)"
  by (simp add: addEvent_def Let_def events_wf_distinct)

lemma fireEvent_addEvent:
  "b \<noteq> noop \<Longrightarrow> fireEvent d (addEvent noop c b a es) =
     (if removeOn d = removeOn c then arr_include (=) b (fireEvent d es) else fireEvent d es)"
  by (simp add: addEvent_def Let_def fireEvent_def handlers_of_update)

lemma fireEvent_removeEvent:
  "events_wf es \<Longrightarrow> fireEvent d (removeEvent c b es) =
     (if removeOn d = removeOn c then filter (\<lambda>x. x \<noteq> b) (fireEvent d es) else fireEvent d es)"
  by (auto simp: removeEvent_def Let_def events_wf_def arr_erase_eq fireEvent_def
      handlers_of_update_only split: option.splits) (auto simp: handlers_of_def)

lemma events_wf_removeEvent: "events_wf es \<Longrightarrow> events_wf (removeEvent c b es)"
  using events_wf_distinct [of es "removeOn c"]
  by (auto simp: removeEvent_def Let_def arr_erase_eq handlers_of_def split: option.splits)

interpretation moo_events: event_source "\<lambda>h. h \<noteq> noop" events_wf
  "\<lambda>c b es. addEvent noop c b False es" removeEvent fireEvent for noop :: 'h
  by unfold_locales
    (auto simp: fireEvent_addEvent fireEvent_removeEvent arr_include_def events_wf_addEvent
      events_wf_removeEvent, auto simp: fireEvent_def events_wf_distinct)

end
