(* ===== verification/Taffy_Util.thy ===== *)
theory Taffy_Util
  imports Moo
begin

section \<open>The public utilities of the TAFFY collection library\<close>

text \<open>
  \<open>cip/cip.src.js\<close> carries TAFFY 1.6.1, the in-memory collection a \<open>CITable\<close> keeps its rows in.
  This theory models its utilities: type tests, object merging, the comparisons \<open>isSameArray\<close>,
  \<open>isSameObject\<close>, \<open>has\<close> and \<open>hasAll\<close>, the removal of duplicates, and the JSON printer.
\<close>

subsection \<open>Type tests\<close>

fun typeOf :: "jsval \<Rightarrow> string" where
  "typeOf JUndef = ''undefined''"
| "typeOf JNull = ''null''"
| "typeOf (JBool _) = ''boolean''"
| "typeOf JNaN = ''number''"
| "typeOf (JNum _) = ''number''"
| "typeOf (JStr _) = ''string''"
| "typeOf (JArr _) = ''array''"
| "typeOf (JObj _) = ''object''"
| "typeOf (JFun _) = ''function''"

text \<open>\<open>TAFFY["is" + y]\<close> for the eight type names.\<close>

definition is_type :: "string \<Rightarrow> jsval \<Rightarrow> bool" where
  "is_type y c = (typeOf c = to_lower y)"

abbreviation isObject :: "jsval \<Rightarrow> bool" where
  "isObject v \<equiv> typeOf v = ''object''"

abbreviation isArray :: "jsval \<Rightarrow> bool" where
  "isArray v \<equiv> typeOf v = ''array''"

abbreviation isString :: "jsval \<Rightarrow> bool" where
  "isString v \<equiv> typeOf v = ''string''"

text \<open>\<open>isNumeric\<close> looks at the characters of a string; a value without characters passes.\<close>

fun isNumeric_str :: "string \<Rightarrow> bool" where
  "isNumeric_str [] = True"
| "isNumeric_str (c # cs) = (if c \<notin> set ''0123456789'' then False else isNumeric_str cs)"

subsection \<open>Objects\<close>

text \<open>The own enumerable properties of a value.\<close>

fun own_props :: "jsval \<Rightarrow> props" where
  "own_props (JObj p) = p"
| "own_props (JArr xs) = map (\<lambda>i. (nat_digits i, xs ! i)) [0..<length xs]"
| "own_props (JStr s) = map (\<lambda>i. (nat_digits i, JStr [s ! i])) [0..<length s]"
| "own_props _ = []"

definition mergeObj :: "jsval \<Rightarrow> jsval \<Rightarrow> jsval" where
  "mergeObj ob1 ob2 =
     JObj (fold (\<lambda>(n, v) c. AList.update n v c) (own_props ob2)
            (fold (\<lambda>(n, v) c. AList.update n v c) (own_props ob1) []))"

text \<open>\<open>sort()\<close> without a comparison function orders by code units.\<close>

fun insert_str :: "string \<Rightarrow> string list \<Rightarrow> string list" where
  "insert_str x [] = [x]"
| "insert_str x (y # ys) = (if str_lt y x then y # insert_str x ys else x # y # ys)"

definition sort_strs :: "string list \<Rightarrow> string list" where
  "sort_strs xs = foldr insert_str xs []"

definition getObjectKeys :: "jsval \<Rightarrow> string list" where
  "getObjectKeys ob = sort_strs (map fst (own_props ob))"

definition isSameArray :: "jsval \<Rightarrow> jsval \<Rightarrow> bool" where
  "isSameArray ar1 ar2 = (isArray ar1 \<and> isArray ar2 \<and> to_string ar1 = to_string ar2)"

lemma size_member [termination_simp]: "x \<in> set xs \<Longrightarrow> size x < Suc (size_list size (xs::jsval list))"
  by (induction xs) auto

lemma size_set_props:
  "(k, v) \<in> set p \<Longrightarrow> size v < Suc (size_list (size_prod (\<lambda>x. 0) size) (p::props))"
  by (induction p) auto

lemma size_map_of_props:
  "map_of p k = Some v \<Longrightarrow> size v < Suc (size_list (size_prod (\<lambda>x. 0) size) (p::props))"
  by (rule size_set_props) (rule map_of_SomeD)

fun isSameObject :: "jsval \<Rightarrow> jsval \<Rightarrow> bool" where
  "isSameObject (JObj p1) (JObj p2) =
     (isSameArray (JArr (map JStr (getObjectKeys (JObj p1)))) (JArr (map JStr (getObjectKeys (JObj p2))))
      \<and> list_all (\<lambda>(n, v1).
           isSameObject v1 (get_prop p2 n)
           \<or> isSameArray v1 (get_prop p2 n)
           \<or> js_eq v1 (get_prop p2 n)) p1)"
| "isSameObject _ _ = False"

text \<open>\<open>has(var1, var2)\<close> for values that are not themselves TAFFY collections.\<close>

function has :: "jsval \<Rightarrow> jsval \<Rightarrow> bool" where
  "has (JObj p1) var2 =
     (case var2 of
        JObj p2 \<Rightarrow>
          list_all (\<lambda>(x, v2). case map_of p1 x of
              None \<Rightarrow> False | Some v1 \<Rightarrow> v1 \<noteq> JUndef \<and> has v1 v2) p2
      | JArr xs \<Rightarrow> list_ex (\<lambda>x. has (JObj p1) x) xs
      | JStr s \<Rightarrow> \<not> nullish (get_prop p1 s)
      | _ \<Rightarrow> False)"
| "has (JArr ns) var2 =
     (case var2 of
        JObj p2 \<Rightarrow> list_ex (\<lambda>n. has n (JObj p2)) ns
      | JArr xs \<Rightarrow> list_ex (\<lambda>x. list_ex (\<lambda>n. has n x) ns) xs
      | JStr s \<Rightarrow> list_ex (\<lambda>n. has n (JStr s)) ns
      | _ \<Rightarrow> False)"
| "has (JStr s) var2 = (case var2 of JStr t \<Rightarrow> t = s | _ \<Rightarrow> False)"
| "has JUndef var2 = (typeOf JUndef = typeOf var2 \<and> js_eq JUndef var2)"
| "has JNull var2 = (typeOf JNull = typeOf var2 \<and> js_eq JNull var2)"
| "has (JBool b) var2 = (typeOf (JBool b) = typeOf var2 \<and> js_eq (JBool b) var2)"
| "has JNaN var2 = (typeOf JNaN = typeOf var2 \<and> js_eq JNaN var2)"
| "has (JNum r) var2 = (typeOf (JNum r) = typeOf var2 \<and> js_eq (JNum r) var2)"
| "has (JFun f) var2 = (typeOf (JFun f) = typeOf var2 \<and> js_eq (JFun f) var2)"
  by pat_completeness auto
termination
  by (relation "measure (\<lambda>(v1, v2). size v1 + size v2)")
    (auto dest!: size_member size_set_props size_map_of_props)

definition hasAll :: "jsval \<Rightarrow> jsval \<Rightarrow> bool" where
  "hasAll var1 var2 =
     (case var2 of JArr xs \<Rightarrow> list_all (\<lambda>x. has var1 x) xs | _ \<Rightarrow> has var1 var2)"

subsection \<open>Unique elements\<close>

definition gatherUniques :: "'a list \<Rightarrow> 'a list" where
  "gatherUniques a = foldl (\<lambda>uniques x. if \<exists>c \<in> set uniques. c = x then uniques else uniques @ [x]) [] a"

subsection \<open>The JSON printer\<close>

text \<open>The characters the printer escapes: the quote, the backslash, and the control characters
  of both ranges.\<close>

definition json_special :: "char \<Rightarrow> bool" where
  "json_special c = (code c = 34 \<or> code c = 92 \<or> code c < 32 \<or> (127 \<le> code c \<and> code c \<le> 159))"

definition json_string :: "string \<Rightarrow> string" where
  "json_string s = json_quote json_special s"

text \<open>A value with a \<open>toJSON\<close> method is printed as the printed form of what the method returns.
  MooTools, loaded before TAFFY in the same file, gives every array that method, with its own
  encoder as the body; so the branch for arrays prints a string literal.\<close>

fun stringify :: "string list option \<Rightarrow> jsval \<Rightarrow> string" where
  "stringify w (JStr s) = json_string s"
| "stringify w (JNum r) = num_to_string r"
| "stringify w JNaN = ''null''"
| "stringify w (JBool b) = (if b then ''true'' else ''false'')"
| "stringify w JNull = ''null''"
| "stringify w (JArr xs) = json_string (the (json_encode (JArr xs)))"
| "stringify w (JObj p) =
     ''{'' @ join '','' (concat (
        case w of
          None \<Rightarrow>
            map (\<lambda>(k, x). let v = stringify w x in if v = [] then [] else [json_string k @ '':'' @ v]) p
        | Some ks \<Rightarrow>
            map (\<lambda>k. case map_of (map (\<lambda>(k, x). (k, stringify w x)) p) k of
                None \<Rightarrow> []
              | Some v \<Rightarrow> if v = [] then [] else [json_string k @ '':'' @ v]) ks)) @ ''}''"
| "stringify w JUndef = []"
| "stringify w (JFun _) = []"

subsection \<open>A reference reader of JSON string literals\<close>

fun hex_val :: "char \<Rightarrow> nat option" where
  "hex_val c =
     (if 48 \<le> code c \<and> code c \<le> 57 then Some (code c - 48)
      else if 97 \<le> code c \<and> code c \<le> 102 then Some (code c - 87)
      else if 65 \<le> code c \<and> code c \<le> 70 then Some (code c - 55)
      else None)"

definition simple_escape :: "char \<Rightarrow> char option" where
  "simple_escape e =
     map_of [(CHR ''b'', CHR 0x08), (CHR ''t'', CHR 0x09), (CHR ''n'', CHR 0x0A), (CHR ''f'', CHR 0x0C),
       (CHR ''r'', CHR 0x0D), (CHR 0x22, CHR 0x22), (CHR 0x5C, CHR 0x5C), (CHR ''/'', CHR ''/'')] e"

definition hex4 :: "char \<Rightarrow> char \<Rightarrow> char \<Rightarrow> char \<Rightarrow> nat option" where
  "hex4 a b c d =
     (case (hex_val a, hex_val b, hex_val c, hex_val d) of
        (Some x, Some y, Some z, Some w) \<Rightarrow> Some (((x * 16 + y) * 16 + z) * 16 + w)
      | _ \<Rightarrow> None)"

fun json_body :: "string \<Rightarrow> (string \<times> string) option" where
  "json_body [] = None"
| "json_body (c # cs) =
     (if code c = 34 then Some ([], cs)
      else if code c = 92 then
        (case cs of
           [] \<Rightarrow> None
         | e # r \<Rightarrow>
             if e = CHR ''u'' then
               (case r of
                  h1 # h2 # h3 # h4 # r' \<Rightarrow>
                    (case hex4 h1 h2 h3 h4 of
                       None \<Rightarrow> None
                     | Some n \<Rightarrow> map_option (apfst (Cons (char_of n))) (json_body r'))
                | _ \<Rightarrow> None)
             else (case simple_escape e of
                     None \<Rightarrow> None
                   | Some d \<Rightarrow> map_option (apfst (Cons d)) (json_body r)))
      else if code c < 32 then None
      else map_option (apfst (Cons c)) (json_body cs))"

definition json_unquote :: "string \<Rightarrow> string option" where
  "json_unquote s =
     (case s of [] \<Rightarrow> None
      | q # r \<Rightarrow> if code q = 34 then (case json_body r of Some (t, []) \<Rightarrow> Some t | _ \<Rightarrow> None) else None)"

subsection \<open>Lemmas: objects and keys\<close>

lemma mergeObj_put_all:
  "mergeObj (JObj p1) (JObj p2) = JObj (props.put_all p2 (props.put_all p1 []))"
  by (simp add: mergeObj_def props.put_all_def)

lemma mergeObj_JObj: "\<exists>p. mergeObj a b = JObj p \<and> distinct (map fst p)"
  using props.invar_put_all [of "[]"] props.invar_put_all
  by (force simp: mergeObj_def props.put_all_def)

lemma map_of_mergeObj:
  "mergeObj (JObj p1) (JObj p2) = JObj p \<Longrightarrow> map_of p = map_of (rev p1) ++ map_of (rev p2)"
  using props.invar_put_all [of "[]" p1]
  by (auto simp: mergeObj_put_all props.lookup_put_all list_all_iff)

lemma str_lt_irrefl [simp]: "\<not> str_lt s s"
  by (induction s) auto

lemma str_lt_linear: "str_lt s t \<or> s = t \<or> str_lt t s"
proof (induction s t rule: str_lt.induct)
  case (1 xs)
  then show ?case by (cases xs) auto
next
  case (3 x xs y ys)
  then show ?case by (cases "code x = code y") auto
qed auto

lemma str_lt_trans: "str_lt s t \<Longrightarrow> str_lt t u \<Longrightarrow> str_lt s u"
proof (induction s t arbitrary: u rule: str_lt.induct)
  case (2 y ys)
  then show ?case by (cases u) auto
next
  case (3 x xs y ys)
  then show ?case by (cases u) (auto split: if_splits)
qed auto

definition str_le :: "string \<Rightarrow> string \<Rightarrow> bool" where
  "str_le s t = (\<not> str_lt t s)"

lemma str_le_antisym: "str_le s t \<Longrightarrow> str_le t s \<Longrightarrow> s = t"
  using str_lt_linear [of s t] by (auto simp: str_le_def)

lemma str_le_trans: "str_le s t \<Longrightarrow> str_le t u \<Longrightarrow> str_le s u"
  using str_lt_linear [of t u] str_lt_trans [of u s t] str_lt_linear [of s t]
  by (auto simp: str_le_def)

lemma mset_insert_str [simp]: "mset (insert_str x ys) = add_mset x (mset ys)"
  by (induction ys) auto

lemma sorted_insert_str: "sorted_wrt str_le ys \<Longrightarrow> sorted_wrt str_le (insert_str x ys)"
proof (induction ys)
  case (Cons y ys)
  show ?case
  proof (cases "str_lt y x")
    case True
    then have "str_le y x" using str_lt_trans [of x y x] by (auto simp: str_le_def)
    moreover have "set (insert_str x ys) = insert x (set ys)"
      by (metis mset_insert_str set_mset_add_mset_insert set_mset_mset)
    ultimately show ?thesis using True Cons by auto
  next
    case False
    then have "str_le x y" by (simp add: str_le_def)
    with False Cons show ?thesis by (auto intro: str_le_trans)
  qed
qed simp

lemma mset_sort_strs [simp]: "mset (sort_strs xs) = mset xs"
  by (induction xs) (auto simp: sort_strs_def)

lemma sorted_sort_strs: "sorted_wrt str_le (sort_strs xs)"
  by (induction xs) (auto simp: sort_strs_def sorted_insert_str)

lemma sorted_strs_unique:
  "sorted_wrt str_le xs \<Longrightarrow> sorted_wrt str_le ys \<Longrightarrow> mset xs = mset ys \<Longrightarrow> xs = ys"
proof (induction xs arbitrary: ys)
  case (Cons x xs)
  then obtain y ys' where ys: "ys = y # ys'" by (cases ys) auto
  have "y \<in> set (x # xs)" "x \<in> set (y # ys')"
    using Cons.prems(3) ys by (metis list.set_intros(1) mset_eq_setD)+
  then have "x = y" using Cons.prems(1,2) ys str_le_antisym by auto
  with Cons ys show ?case by auto
qed simp

lemma sort_strs_cong: "mset xs = mset ys \<Longrightarrow> sort_strs xs = sort_strs ys"
  by (rule sorted_strs_unique [OF sorted_sort_strs sorted_sort_strs]) simp

subsection \<open>Lemmas: unique elements\<close>

lemma gatherUniques_snoc:
  "gatherUniques (a @ [x]) = (if x \<in> set (gatherUniques a) then gatherUniques a else gatherUniques a @ [x])"
  by (auto simp: gatherUniques_def)

lemma gatherUniques_Nil [simp]: "gatherUniques [] = []"
  by (simp add: gatherUniques_def)

lemma set_gatherUniques [simp]: "set (gatherUniques a) = set a"
  by (induction a rule: rev_induct) (auto simp: gatherUniques_snoc)

lemma distinct_gatherUniques [simp]: "distinct (gatherUniques a)"
  by (induction a rule: rev_induct) (auto simp: gatherUniques_snoc)

lemma gatherUniques_distinct: "distinct a \<Longrightarrow> gatherUniques a = a"
  by (induction a rule: rev_induct) (auto simp: gatherUniques_snoc)

lemma gatherUniques_rev: "gatherUniques a = rev (remdups (rev a))"
  by (induction a rule: rev_induct) (auto simp: gatherUniques_snoc)

subsection \<open>Lemmas: the JSON printer\<close>

lemma hex_val_hex_lower: "n < 16 \<Longrightarrow> hex_val (hex_lower n) = Some n"
  by (auto simp: hex_lower_def)

lemma code_less_256: "code (c::char) < 256"
  by (metis of_char_mod_256 mod_less_divisor zero_less_numeral)

lemma hex4_escape: "hex4 (CHR ''0'') (CHR ''0'') (hex_lower (code c div 16)) (hex_lower (code (c::char) mod 16)) = Some (code c)"
proof -
  have "code c div 16 < 16" using code_less_256 [of c] by (intro less_mult_imp_div_less) simp
  then show ?thesis by (simp add: hex4_def hex_val_hex_lower del: hex_val.simps) simp
qed

lemma code_eq_char_of: "code c = n \<Longrightarrow> c = char_of n"
  by auto

lemma char_of_escaped:
  "char_of (92::nat) = CHR 0x5C" "char_of (34::nat) = CHR 0x22" "char_of (13::nat) = CHR 0x0D"
  "char_of (12::nat) = CHR 0x0C" "char_of (10::nat) = CHR 0x0A" "char_of (9::nat) = CHR 0x09"
  "char_of (8::nat) = CHR 0x08"
  by code_simp+

lemma json_body_escape:
  "json_body (json_escape_char c @ r) = map_option (apfst (Cons c)) (json_body r)"
  by (auto simp: json_escape_char_def simple_escape_def hex4_escape char_of_escaped dest!: code_eq_char_of)

lemma json_body_quoted:
  assumes "\<And>c. code c = 34 \<or> code c = 92 \<or> code c < 32 \<Longrightarrow> special c"
  shows "json_body (concat (map (\<lambda>c. if special c then json_escape_char c else [c]) s) @ CHR 0x22 # r)
           = Some (s, r)"
proof (induction s)
  case (Cons c s)
  show ?case
  proof (cases "special c")
    case True
    with Cons show ?thesis by (simp add: json_body_escape del: json_body.simps)
  next
    case False
    with assms [of c] Cons show ?thesis by auto
  qed
qed simp

lemma json_unquote_quote:
  "(\<And>c. code c = 34 \<or> code c = 92 \<or> code c < 32 \<Longrightarrow> special c) \<Longrightarrow>
   json_unquote (json_quote special s) = Some s"
  by (simp add: json_unquote_def json_quote_def json_body_quoted del: json_body.simps)

end
