(* ===== verification/Taffy.thy ===== *)
theory Taffy
  imports Taffy_Util
begin

section \<open>The TAFFY collection\<close>

text \<open>
  The collection object \<open>TAFFY(obj)\<close> returns: the rows \<open>TOb\<close>, the index array \<open>TIA\<close>, the
  configuration \<open>conf\<close>, the three callbacks and \<open>lastModifyDate\<close>. Every method is an operation on
  this state; one that can throw returns a sum with the error on the left.

  A test value may be data, a function or a regular expression. A function is given with its
  source text, which is what the comparison operators see of it. Rows hold data. The engine's
  \<open>new RegExp(p).test(s)\<close>, reached when a string is given to the \<open>regex\<close> test through MooTools'
  \<open>String.test\<close>, is the parameter \<open>rx\<close> of the state. An index is a natural number. A row that a
  callback changes is the value the callback gives back.
\<close>

subsection \<open>State\<close>

record taffy =
  TOb :: "jsval list"
  TIA :: "nat list"
  conf :: props
  lastModifyDate :: nat
  onInsert :: "(jsval \<Rightarrow> jsval) option"
  onUpdate :: "(jsval \<Rightarrow> jsval \<Rightarrow> jsval \<times> jsval) option"
  onRemove :: bool
  rx :: "string \<Rightarrow> string \<Rightarrow> bool"

datatype mval =
    MV jsval
  | MF string "jsval \<Rightarrow> nat \<Rightarrow> bool"
  | MR string "string \<Rightarrow> bool"

datatype mspec = Plain mval | Tests "(string \<times> mval) list"

datatype mobj = MatchFun "jsval \<Rightarrow> nat \<Rightarrow> bool" | MatchObj "(string \<times> mspec) list"

datatype dex = DNum nat | DArr "nat list" | DObj "(string \<times> mspec) list" | DOther

definition bTIA :: "taffy \<Rightarrow> taffy" where
  "bTIA st = st\<lparr>TIA := [0..<length (TOb st)]\<rparr>"

definition taffy_new :: "(string \<Rightarrow> string \<Rightarrow> bool) \<Rightarrow> nat \<Rightarrow> jsval list \<Rightarrow> taffy" where
  "taffy_new rx0 now rows =
     bTIA \<lparr>TOb = rows, TIA = [], conf = [(''template'', JNull)], lastModifyDate = now,
       onInsert = None, onUpdate = None, onRemove = False, rx = rx0\<rparr>"

text \<open>\<open>mergeTemp\<close>: the template is stored over the rows.\<close>

definition mergeTemp :: "nat list \<Rightarrow> jsval \<Rightarrow> taffy \<Rightarrow> taffy" where
  "mergeTemp rows tmpl st =
     (let tmpl = (if tmpl = JUndef then get_prop (conf st) ''template'' else tmpl)
      in if tmpl \<noteq> JNull
         then foldl (\<lambda>s i. s\<lparr>TOb := arr_put (TOb s) i (mergeObj (arr_get (TOb s) i) tmpl)\<rparr>) st rows
         else st)"

subsection \<open>The tests of a lookup\<close>

text \<open>\<open>pickTest\<close>: the name of the test and its mode, \<open>True\<close> unless the name starts with \<open>!\<close>.\<close>

definition pickTest :: "string \<Rightarrow> string \<times> bool" where
  "pickTest t0 =
     (let m = (index_of t0 ''!'' \<noteq> Some 0);
          t = (if m then t0 else drop 1 t0)
      in (if t = ''equal'' then ''is''
          else if t = ''notequal'' then ''not''
          else if t = ''startswith'' then ''starts''
          else if t = ''endswith'' then ''ends''
          else if t = ''greaterthan'' then ''gt''
          else if t = ''lessthan'' then ''lt''
          else if t = ''regexppass'' then ''regex''
          else t, m))"

definition js_indexOf :: "jsval \<Rightarrow> jsval \<Rightarrow> js_error + nat option" where
  "js_indexOf v t =
     (case v of
        JStr s \<Rightarrow> Inr (index_of s (to_string t))
      | JArr xs \<Rightarrow> Inr (arr_indexOf js_seq xs t)
      | _ \<Rightarrow> Inl TypeError)"

definition test_ends :: "jsval \<Rightarrow> jsval \<Rightarrow> js_error + bool" where
  "test_ends v t =
     (case v of
        JStr s \<Rightarrow>
          bindE (read_prop t ''length'') (\<lambda>n.
            let k = (case to_number n of None \<Rightarrow> 0 | Some r \<Rightarrow> nat \<lfloor>max 0 (of_nat (length s) - r)\<rfloor>)
            in Inr (js_eq (JStr (drop k s)) t))
      | _ \<Rightarrow> Inl TypeError)"

text \<open>The entries \<open>is...\<close> copied from the utilities; \<open>isSameArray\<close> and \<open>isSameObject\<close> are called
  with one argument.\<close>

definition isNumeric :: "jsval \<Rightarrow> js_error + bool" where
  "isNumeric v =
     (case v of
        JStr s \<Rightarrow> Inr (isNumeric_str s)
      | _ \<Rightarrow> bindE (read_prop v ''length'') (\<lambda>n.
               if js_lt (JNum 0) n then Inl TypeError else Inr True))"

definition isTAFFY :: "jsval \<Rightarrow> bool" where
  "isTAFFY v = (case v of JObj p \<Rightarrow> truthy (get_prop p ''TAFFY'') | _ \<Rightarrow> False)"

definition type_test :: "string \<Rightarrow> jsval \<Rightarrow> js_error + bool" where
  "type_test s v =
     (if s \<in> set [''isString'', ''isNumber'', ''isObject'', ''isArray'', ''isBoolean'', ''isNull'',
                  ''isFunction'', ''isUndefined'']
      then Inr (is_type (drop 2 s) v)
      else if s = ''isNumeric'' then isNumeric v
      else if s = ''isTAFFY'' then Inr (isTAFFY v)
      else if s = ''isSameArray'' then Inr (isSameArray v JUndef)
      else if s = ''isSameObject'' then Inr (isSameObject v JUndef)
      else Inl TypeError)"

text \<open>The length a value is tested for: its \<open>length\<close>, or \<open>0\<close> when it has none; a \<open>getLength\<close>
  that is data cannot be called.\<close>

definition value_length :: "jsval \<Rightarrow> js_error + jsval" where
  "value_length v =
     bindE (read_prop v ''length'') (\<lambda>n.
       if n \<noteq> JUndef then Inr n
       else bindE (read_prop v ''getLength'') (\<lambda>g. if g \<noteq> JUndef then Inl TypeError else Inr (JNum 0)))"

fun run_test :: "(string \<Rightarrow> string \<Rightarrow> bool) \<Rightarrow> string \<Rightarrow> jsval \<Rightarrow> jsval \<Rightarrow> bool \<Rightarrow> js_error + bool" where
  "run_test r s v t b =
     bindE
       (if s = ''regex'' then
          (case (t, v) of (JStr x, JStr p) \<Rightarrow> Inr (r p x) | _ \<Rightarrow> Inl TypeError)
        else if s = ''lt'' then Inr (js_lt v t)
        else if s = ''gt'' then Inr (js_gt v t)
        else if s = ''starts'' then bindE (js_indexOf v t) (\<lambda>i. Inr (i = Some 0))
        else if s = ''ends'' then test_ends v t
        else if s = ''like'' then bindE (js_indexOf v t) (\<lambda>i. Inr (i \<noteq> None))
        else if s = ''is'' then Inr (js_eq v t)
        else if s = ''has'' then Inr (has v t)
        else if s = ''hasAll'' then Inr (hasAll v t)
        else if s = ''length'' then
          bindE (value_length v) (\<lambda>n.
            case t of
              JObj ((kt, t') # _) \<Rightarrow> (case pickTest kt of (s', b') \<Rightarrow> run_test r s' n t' b')
            | _ \<Rightarrow> Inr (js_eq n t = b))
        else if s = ''pickTest'' then
          (case v of JStr x \<Rightarrow> Inr True
           | JArr xs \<Rightarrow> if arr_indexOf js_seq xs (JStr ''!'') = Some 0 then Inl TypeError else Inr True
           | _ \<Rightarrow> Inl TypeError)
        else bindE (type_test s v) (\<lambda>x. Inr (js_eq (JBool x) t)))
       (\<lambda>x. Inr (x = b))"

declare run_test.simps [simp del]

text \<open>A function, and a regular expression outside the \<open>regex\<close> test, seen as a value.\<close>

fun as_val :: "string \<Rightarrow> mval \<Rightarrow> jsval" where
  "as_val s (MV v) = v"
| "as_val s (MF src g) = JFun src"
| "as_val s (MR src g) = (if s \<in> set [''has'', ''hasAll'', ''length''] then JObj [] else JFun src)"

definition run :: "(string \<Rightarrow> string \<Rightarrow> bool) \<Rightarrow> string \<Rightarrow> jsval \<Rightarrow> mval \<Rightarrow> bool \<Rightarrow> js_error + bool" where
  "run r s v t b =
     (case t of
        MR src g \<Rightarrow> if s = ''regex'' then Inr (g (to_string v) = b) else run_test r s v (as_val s t) b
      | _ \<Rightarrow> run_test r s v (as_val s t) b)"

subsection \<open>Lookup\<close>

text \<open>The test, the mode and the value of one field of a match object: of a test object only the
  last entry counts, and an empty one (a bare regular expression is one) compares with the
  empty string.\<close>

definition spec_of :: "mspec \<Rightarrow> string \<times> bool \<times> mval" where
  "spec_of sp =
     (let tests = (\<lambda>ts. if ts = [] then (''is'', True, MV (JStr []))
                        else (case last ts of (fi, v) \<Rightarrow> (case pickTest fi of (t, m) \<Rightarrow> (t, m, v))))
      in case sp of
           Tests ts \<Rightarrow> tests ts
         | Plain (MV (JObj p)) \<Rightarrow> tests (map (\<lambda>(k, v). (k, MV v)) p)
         | Plain (MR src g) \<Rightarrow> tests []
         | Plain v \<Rightarrow> (''is'', True, v))"

definition cell :: "taffy \<Rightarrow> nat \<Rightarrow> string \<Rightarrow> js_error + jsval" where
  "cell st i fld = read_prop (arr_get (TOb st) i) fld"

text \<open>What one row adds to the matches of one criterion, with \<open>d\<close> its position among the
  candidates.\<close>

definition match_row :: "taffy \<Rightarrow> string \<Rightarrow> mspec \<Rightarrow> nat \<Rightarrow> nat \<Rightarrow> js_error + nat list" where
  "match_row st fld sp d i =
     (case spec_of sp of (mt, mode, mv) \<Rightarrow>
        let single = bindE (cell st i fld) (\<lambda>x. bindE (run (rx st) mt x mv mode)
                       (\<lambda>b. Inr (if b then [i] else [])))
        in case mv of
             MV (JArr vs) \<Rightarrow>
               if mt \<noteq> ''isSameArray'' \<and> mt \<noteq> ''hasAll''
               then foldE (\<lambda>acc v. bindE (cell st i fld) (\<lambda>x. bindE (run (rx st) mt x (MV v) mode)
                       (\<lambda>b. Inr (if b then acc @ [i] else acc)))) [] vs
               else single
           | MF src g \<Rightarrow> bindE (cell st i fld) (\<lambda>x. if g x d then Inr [i] else single)
           | _ \<Rightarrow> single)"

fun match_rows :: "taffy \<Rightarrow> string \<Rightarrow> mspec \<Rightarrow> nat \<Rightarrow> nat list \<Rightarrow> js_error + nat list" where
  "match_rows st fld sp d [] = Inr []"
| "match_rows st fld sp d (i # is) =
     bindE (match_row st fld sp d i) (\<lambda>m.
       bindE (match_rows st fld sp (Suc d) is) (\<lambda>ms. Inr (m @ ms)))"

text \<open>A function given as the match object is applied to the row at the position \<open>d\<close> in the loop,
  and decides about the candidate at that position.\<close>

definition taffy_find :: "taffy \<Rightarrow> mobj \<Rightarrow> nat list option \<Rightarrow> js_error + nat list" where
  "taffy_find st m findFilter =
     (let findMatches = (case findFilter of Some is \<Rightarrow> is | None \<Rightarrow> TIA st)
      in case m of
           MatchFun g \<Rightarrow>
             Inr (gatherUniques (map (\<lambda>d. findMatches ! d)
                    (filter (\<lambda>d. g (arr_get (TOb st) d) d) [0..<length findMatches])))
         | MatchObj specs \<Rightarrow>
             bindE (foldE (\<lambda>ms (fld, sp). match_rows st fld sp 0 ms) findMatches specs)
               (\<lambda>ms. Inr (gatherUniques ms)))"

definition bDexArray :: "taffy \<Rightarrow> dex \<Rightarrow> js_error + nat list" where
  "bDexArray st iA =
     (case iA of
        DNum n \<Rightarrow> Inr [n]
      | DArr is \<Rightarrow> Inr is
      | DObj specs \<Rightarrow> taffy_find st (MatchObj specs) None
      | DOther \<Rightarrow> Inr (TIA st))"

subsection \<open>Changing the collection\<close>

definition flagged :: "jsval \<Rightarrow> bool" where
  "flagged v = (v = JStr ''remove'')"

text \<open>The inner loop of \<open>remove\<close>: a splice at \<open>tdi\<close> moves the next row to \<open>tdi\<close>, and the loop
  goes on at \<open>tdi + 1\<close>, so that the row that moved is not looked at in this pass.\<close>

function sweep :: "nat \<Rightarrow> jsval list \<Rightarrow> jsval list" where
  "sweep tdi rows =
     (if tdi < length rows then
        (if flagged (rows ! tdi) then sweep (Suc tdi) (take tdi rows @ drop (Suc tdi) rows)
         else sweep (Suc tdi) rows)
      else rows)"
  by pat_completeness auto
termination
  by (relation "measure (\<lambda>(tdi, rows). length rows - tdi)") auto

declare sweep.simps [simp del]

text \<open>One pass over a suffix of the rows.\<close>

fun sweep_pass :: "jsval list \<Rightarrow> jsval list" where
  "sweep_pass [] = []"
| "sweep_pass [x] = (if flagged x then [] else [x])"
| "sweep_pass (x # y # ys) = (if flagged x then y # sweep_pass ys else x # sweep_pass (y # ys))"

lemma sweep_pass_Cons:
  "sweep_pass (x # xs) = (if flagged x then take 1 xs @ sweep_pass (drop 1 xs) else x # sweep_pass xs)"
  by (cases xs) auto

lemma sweep_eq: "sweep tdi rows = take tdi rows @ sweep_pass (drop tdi rows)"
proof (induction tdi rows rule: sweep.induct)
  case (1 tdi rows)
  show ?case
  proof (cases "tdi < length rows")
    case True
    then have d: "drop tdi rows = rows ! tdi # drop (Suc tdi) rows"
      by (simp add: Cons_nth_drop_Suc)
    show ?thesis
      using True "1.IH"
      by (subst sweep.simps) (auto simp: d sweep_pass_Cons take_Suc_conv_app_nth)
  qed (subst sweep.simps, simp)
qed

lemma sweep_pass_shorter:
  "length (sweep_pass rows) \<le> length rows \<and>
   (list_ex flagged rows \<longrightarrow> length (sweep_pass rows) < length rows)"
  by (induction rows rule: sweep_pass.induct) auto

function remove_flagged :: "jsval list \<Rightarrow> jsval list" where
  "remove_flagged rows = (if list_ex flagged rows then remove_flagged (sweep 0 rows) else rows)"
  by pat_completeness auto
termination
  by (relation "measure length") (auto simp: sweep_eq sweep_pass_shorter)

declare remove_flagged.simps [simp del]

text \<open>\<open>remove\<close>: the new state, the indexes, and the rows handed to \<open>onRemove\<close>.\<close>

definition flag_row :: "bool \<Rightarrow> jsval list \<times> jsval list \<Rightarrow> nat \<Rightarrow> jsval list \<times> jsval list" where
  "flag_row cb = (\<lambda>(rows, told) i.
     (arr_put rows i (JStr ''remove''), if cb then told @ [arr_get rows i] else told))"

definition taffy_remove :: "nat \<Rightarrow> dex \<Rightarrow> taffy \<Rightarrow> js_error + taffy \<times> nat list \<times> jsval list" where
  "taffy_remove now dex st =
     bindE (bDexArray st dex) (\<lambda>removeIndex.
       case foldl (flag_row (onRemove st)) (TOb st, []) removeIndex of (rows, told) \<Rightarrow>
         Inr (bTIA (st\<lparr>TOb := remove_flagged rows,
                       lastModifyDate := (if list_ex flagged rows then now else lastModifyDate st)\<rparr>),
              removeIndex, told))"

definition taffy_insert :: "nat \<Rightarrow> jsval \<Rightarrow> taffy \<Rightarrow> taffy \<times> nat list" where
  "taffy_insert now newRecordObj st =
     (let r = (case onInsert st of None \<Rightarrow> newRecordObj | Some cb \<Rightarrow> cb newRecordObj);
          tm = get_prop (conf st) ''template'';
          rows = TOb st @ [if tm = JNull then r else mergeObj tm r]
      in (st\<lparr>TOb := rows, lastModifyDate := now, TIA := TIA st @ [length rows - 1]\<rparr>,
          [length rows - 1]))"

definition update_row :: "(jsval \<Rightarrow> jsval \<Rightarrow> jsval \<times> jsval) option \<Rightarrow>
    jsval \<times> jsval list \<Rightarrow> nat \<Rightarrow> jsval \<times> jsval list" where
  "update_row cb = (\<lambda>(updateObj, rows) i.
     case (case cb of None \<Rightarrow> (updateObj, arr_get rows i) | Some g \<Rightarrow> g updateObj (arr_get rows i)) of
       (updateObj', row) \<Rightarrow> (updateObj', arr_put rows i (mergeObj row updateObj')))"

definition taffy_update :: "jsval \<Rightarrow> dex \<Rightarrow> taffy \<Rightarrow> js_error + taffy \<times> nat list" where
  "taffy_update updateObj dex st =
     bindE (bDexArray st dex) (\<lambda>updateIndex.
       Inr (st\<lparr>TOb := snd (foldl (update_row (onUpdate st)) (updateObj, TOb st) updateIndex)\<rparr>,
            updateIndex))"

subsection \<open>Reading the collection\<close>

definition getLength :: "taffy \<Rightarrow> nat" where
  "getLength st = length (TOb st)"

definition taffy_get :: "taffy \<Rightarrow> dex \<Rightarrow> js_error + jsval list" where
  "taffy_get st dex = bindE (bDexArray st dex) (\<lambda>is. Inr (map (arr_get (TOb st)) is))"

definition taffy_first :: "taffy \<Rightarrow> dex \<Rightarrow> js_error + jsval" where
  "taffy_first st dex =
     bindE (bDexArray st dex) (\<lambda>is. Inr (if is \<noteq> [] then arr_get (TOb st) (is ! 0) else JBool False))"

definition taffy_last :: "taffy \<Rightarrow> dex \<Rightarrow> js_error + jsval" where
  "taffy_last st dex =
     bindE (bDexArray st dex)
       (\<lambda>is. Inr (if is \<noteq> [] then arr_get (TOb st) (is ! (length is - 1)) else JBool False))"

definition taffy_stringify :: "taffy \<Rightarrow> dex \<Rightarrow> js_error + string" where
  "taffy_stringify st dex = bindE (taffy_get st dex) (\<lambda>rows. Inr (stringify None (JArr rows)))"

subsection \<open>Sorting\<close>

text \<open>\<open>toLogicalArray\<close>: the runs of digits and of other characters. The kind of the current run is
  \<open>None\<close> before the first character.\<close>

fun logical_runs :: "bool option \<Rightarrow> string list \<Rightarrow> string \<Rightarrow> string list" where
  "logical_runs ty runs [] = runs"
| "logical_runs ty runs (c # cs) =
     (let n = isNumeric_str [c]
      in if ty \<noteq> Some n then logical_runs (Some n) (runs @ [[c]]) cs
         else logical_runs ty (butlast runs @ [last runs @ [c]]) cs)"

definition logical_item :: "string \<Rightarrow> jsval" where
  "logical_item s =
     (if isNumeric_str s then (case parseFloat s of None \<Rightarrow> JNaN | Some r \<Rightarrow> JNum r) else JStr s)"

definition toLogicalArray :: "jsval \<Rightarrow> js_error + jsval list" where
  "toLogicalArray v =
     (case v of
        JUndef \<Rightarrow> Inr [JNum 0, JNull]
      | JNull \<Rightarrow> Inr [JNum 0, JNull]
      | JStr s \<Rightarrow> Inr (JNum 0 # map logical_item (logical_runs None [] s))
      | _ \<Rightarrow> bindE (read_prop v ''length'') (\<lambda>n.
               if js_lt (JNum 0) n then Inl TypeError else Inr [JNum 0]))"

primrec logical_scan :: "(jsval \<Rightarrow> jsval \<Rightarrow> bool) \<Rightarrow> nat \<Rightarrow> jsval list \<Rightarrow> jsval list \<Rightarrow> int" where
  "logical_scan lt n x [] = 0"
| "logical_scan lt n x (b # y) =
     (let a = arr_get x n
      in if lt a b \<and> n < length x then -1 else if lt b a then 1 else logical_scan lt (Suc n) x y)"

text \<open>The order of two values under one instruction.\<close>

definition cmp_default :: "jsval \<Rightarrow> jsval \<Rightarrow> int" where
  "cmp_default x y = (if nullish x \<or> js_lt x y then -1 else if nullish y \<or> js_gt x y then 1 else 0)"

definition cmp_desc :: "jsval \<Rightarrow> jsval \<Rightarrow> int" where
  "cmp_desc x y = (if nullish y \<or> js_lt y x then -1 else if nullish x \<or> js_lt x y then 1 else 0)"

definition cmp_logical :: "jsval \<Rightarrow> jsval \<Rightarrow> js_error + int" where
  "cmp_logical x y =
     bindE (toLogicalArray x) (\<lambda>a. bindE (toLogicalArray y) (\<lambda>b.
       let r = logical_scan js_lt 0 a b
       in Inr (if r \<noteq> 0 then r else if length a < length b then -1
               else if length a > length b then 1 else 0)))"

definition cmp_logicaldesc :: "jsval \<Rightarrow> jsval \<Rightarrow> js_error + int" where
  "cmp_logicaldesc x y =
     bindE (toLogicalArray x) (\<lambda>a. bindE (toLogicalArray y) (\<lambda>b.
       let r = logical_scan js_gt 0 a b
       in Inr (if r \<noteq> 0 then r else if length a < length b then 1
               else if length a > length b then -1 else 0)))"

record sort_instr =
  sortCol :: string
  sortDir :: jsval
  is_string_col :: bool

definition cmp_instr :: "sort_instr \<Rightarrow> jsval \<Rightarrow> jsval \<Rightarrow> js_error + int" where
  "cmp_instr c r1 r2 =
     bindE (read_prop r1 (sortCol c)) (\<lambda>x0. bindE (read_prop r2 (sortCol c)) (\<lambda>y0.
       let low = (\<lambda>v. case v of JStr s \<Rightarrow> if is_string_col c then JStr (to_lower s) else v | _ \<Rightarrow> v);
           x = low x0; y = low y0
       in if js_eq (sortDir c) (JStr ''desc'') then Inr (cmp_desc x y)
          else if js_eq (sortDir c) (JStr ''logical'') then cmp_logical x y
          else if js_eq (sortDir c) (JStr ''logicaldesc'') then cmp_logicaldesc x y
          else Inr (cmp_default x y)))"

fun cmp_rows :: "sort_instr list \<Rightarrow> jsval \<Rightarrow> jsval \<Rightarrow> js_error + int" where
  "cmp_rows [] a b = Inr 0"
| "cmp_rows (c # cs) a b = bindE (cmp_instr c a b) (\<lambda>r. if r = 0 then cmp_rows cs a b else Inr r)"

text \<open>The instructions of a sort object; the type of a column given in an object is looked up under
  the name in its property \<open>sortCol\<close>.\<close>

definition sort_instrs_of :: "jsval \<Rightarrow> jsval \<Rightarrow> js_error + sort_instr list" where
  "sort_instrs_of row0 o1 =
     (case o1 of
        JStr s \<Rightarrow> bindE (read_prop row0 s) (\<lambda>v.
          Inr [\<lparr>sortCol = s, sortDir = JStr ''asc'', is_string_col = isString v\<rparr>])
      | JObj p \<Rightarrow> mapE (\<lambda>(sc, dir). bindE (read_prop row0 (to_string (get_prop p ''sortCol''))) (\<lambda>v.
          Inr \<lparr>sortCol = sc, sortDir = dir, is_string_col = isString v\<rparr>)) p
      | _ \<Rightarrow> Inr [])"

definition buildSortFunction :: "taffy \<Rightarrow> jsval \<Rightarrow> js_error + sort_instr list" where
  "buildSortFunction st sortobj =
     (let localO = (case sortobj of JStr s \<Rightarrow> [JStr s] | JObj p \<Rightarrow> [JObj p] | JArr xs \<Rightarrow> xs | _ \<Rightarrow> [])
      in bindE (mapE (sort_instrs_of (arr_get (TOb st) 0)) localO) (\<lambda>cs. Inr (concat cs)))"

text \<open>\<open>Array.sort\<close> with a comparison function: \<open>undefined\<close> goes last without being compared; the
  order of the others is that of a stable insertion sort.\<close>

fun insort_js :: "('a \<Rightarrow> 'a \<Rightarrow> js_error + int) \<Rightarrow> 'a \<Rightarrow> 'a list \<Rightarrow> js_error + 'a list" where
  "insort_js cmp x [] = Inr [x]"
| "insort_js cmp x (y # ys) =
     bindE (cmp x y) (\<lambda>r. if r > 0 then bindE (insort_js cmp x ys) (\<lambda>zs. Inr (y # zs)) else Inr (x # y # ys))"

fun sort_js :: "('a \<Rightarrow> 'a \<Rightarrow> js_error + int) \<Rightarrow> 'a list \<Rightarrow> js_error + 'a list" where
  "sort_js cmp [] = Inr []"
| "sort_js cmp (x # xs) = bindE (sort_js cmp xs) (insort_js cmp x)"

definition orderBy :: "nat \<Rightarrow> jsval \<Rightarrow> taffy \<Rightarrow> js_error + taffy" where
  "orderBy now ob st =
     (if TOb st \<noteq> [] then
        bindE (buildSortFunction st ob) (\<lambda>cs.
          bindE (sort_js (cmp_rows cs) (filter (\<lambda>r. r \<noteq> JUndef) (TOb st))) (\<lambda>rows.
            Inr (st\<lparr>TOb := rows @ filter (\<lambda>r. r = JUndef) (TOb st), lastModifyDate := now\<rparr>)))
      else Inr st)"

subsection \<open>Iteration and configuration\<close>

text \<open>\<open>forEach\<close>: the function gives the row as it leaves it and its result. An object as the result
  updates the row, unless it is \<open>TAFFY.EXIT\<close>.\<close>

definition EXIT :: jsval where
  "EXIT = JObj [(''EXIT'', JBool True)]"

fun forEach_from :: "(jsval \<Rightarrow> nat \<Rightarrow> jsval \<times> jsval) \<Rightarrow> nat list \<Rightarrow> taffy \<Rightarrow> js_error + taffy" where
  "forEach_from func2call [] st = Inr st"
| "forEach_from func2call (i # is) st =
     (case func2call (arr_get (TOb st) i) i of (row, nr) \<Rightarrow>
        let st1 = (if i < length (TOb st) then st\<lparr>TOb := (TOb st)[i := row]\<rparr> else st)
        in if isObject nr then
             (if isSameObject nr EXIT then Inr st1
              else bindE (taffy_update nr (DNum i) st1) (\<lambda>(st2, _). forEach_from func2call is st2))
           else forEach_from func2call is st1)"

definition taffy_forEach :: "(jsval \<Rightarrow> nat \<Rightarrow> jsval \<times> jsval) \<Rightarrow> dex \<Rightarrow> taffy \<Rightarrow> js_error + taffy" where
  "taffy_forEach func2call dex st = bindE (bDexArray st dex) (\<lambda>is. forEach_from func2call is st)"

definition config_set :: "string \<Rightarrow> jsval \<Rightarrow> taffy \<Rightarrow> taffy" where
  "config_set n v st =
     (let st1 = st\<lparr>conf := AList.update n v (conf st)\<rparr>
      in if n = ''template'' \<and> v \<noteq> JNull then mergeTemp (TIA st1) v st1 else st1)"

definition config_get :: "string \<Rightarrow> taffy \<Rightarrow> jsval" where
  "config_get n st = get_prop (conf st) n"

definition applyTemplate :: "jsval \<Rightarrow> dex \<Rightarrow> taffy \<Rightarrow> js_error + taffy" where
  "applyTemplate tmp dex st = bindE (bDexArray st dex) (\<lambda>is. Inr (mergeTemp is tmp st))"

subsection \<open>Lemmas: removal\<close>

lemma filter_sweep_pass: "filter (\<lambda>r. \<not> flagged r) (sweep_pass rows) = filter (\<lambda>r. \<not> flagged r) rows"
  by (induction rows rule: sweep_pass.induct) auto

lemma remove_flagged_eq: "remove_flagged rows = filter (\<lambda>r. \<not> flagged r) rows"
proof (induction rows rule: remove_flagged.induct)
  case (1 rows)
  show ?case
  proof (cases "list_ex flagged rows")
    case True
    with 1 show ?thesis
      by (subst remove_flagged.simps) (simp add: sweep_eq filter_sweep_pass)
  next
    case False
    then have "filter (\<lambda>r. \<not> flagged r) rows = rows" by (simp add: list_ex_iff filter_id_conv)
    with False show ?thesis by (subst remove_flagged.simps) simp
  qed
qed

lemma flag_rows_eq:
  "\<forall>i\<in>set is. i < length rows \<Longrightarrow>
   fst (foldl (flag_row cb) (rows, told) is) =
     map (\<lambda>i. if i \<in> set is then JStr ''remove'' else rows ! i) [0..<length rows]"
proof (induction "is" arbitrary: rows told)
  case Nil
  then show ?case by (simp add: map_nth)
next
  case (Cons j js)
  then show ?case
    by (auto simp: flag_row_def nth_list_update intro!: map_cong)
qed

lemma nths_conv_map: "nths xs A = map (\<lambda>i. xs ! i) (filter (\<lambda>i. i \<in> A) [0..<length xs])"
proof -
  have "zip xs [0..<length xs] = map (\<lambda>i. (xs ! i, i)) [0..<length xs]"
    by (rule nth_equalityI) auto
  then show ?thesis
    by (simp add: nths_def filter_map comp_def)
qed

lemma filter_flag_rows:
  assumes "\<forall>r\<in>set rows. \<not> flagged r"
  shows "filter (\<lambda>r. \<not> flagged r) (map (\<lambda>i. if i \<in> I then JStr ''remove'' else rows ! i) [0..<length rows])
         = nths rows (- I)"
proof -
  have "filter (\<lambda>i. \<not> flagged (if i \<in> I then JStr ''remove'' else rows ! i)) [0..<length rows]
        = filter (\<lambda>i. i \<in> - I) [0..<length rows]"
    using assms by (auto simp: flagged_def intro!: filter_cong)
  then show ?thesis
    by (auto simp: nths_conv_map filter_map comp_def)
qed

lemma taffy_remove_rows:
  assumes "bDexArray st dex = Inr is" "\<forall>i\<in>set is. i < length (TOb st)"
    and "\<forall>r\<in>set (TOb st). \<not> flagged r"
    and "taffy_remove now dex st = Inr (st', js, told)"
  shows "js = is \<and> TOb st' = nths (TOb st) (- set is) \<and> TIA st' = [0..<length (TOb st')] \<and>
         conf st' = conf st"
  using assms flag_rows_eq [of "is" "TOb st" "onRemove st" "[]"] filter_flag_rows [of "TOb st" "set is"]
  by (auto simp: taffy_remove_def remove_flagged_eq bTIA_def split: prod.splits)

subsection \<open>Lemmas: lookup\<close>

lemma gatherUniques_append_replicate:
  "gatherUniques (xs @ replicate n x) =
     (if n = 0 \<or> x \<in> set xs then gatherUniques xs else gatherUniques xs @ [x])"
proof (induction n)
  case (Suc n)
  have "gatherUniques (xs @ replicate (Suc n) x) = gatherUniques ((xs @ replicate n x) @ [x])"
    by (simp add: replicate_append_same)
  with Suc show ?case by (auto simp: gatherUniques_snoc simp del: append_assoc)
qed simp

lemma gatherUniques_concat_replicate:
  "gatherUniques (concat (map (\<lambda>i. replicate (c i) i) ms)) = filter (\<lambda>i. 0 < c i) (gatherUniques ms)"
  by (induction ms rule: rev_induct)
    (auto simp: gatherUniques_append_replicate gatherUniques_snoc)

lemma match_rows_counts:
  "(\<And>d i. i \<in> set is \<Longrightarrow> match_row st fld sp d i = Inr (replicate (c i) i)) \<Longrightarrow>
   match_rows st fld sp d is = Inr (concat (map (\<lambda>i. replicate (c i) i) is))"
  by (induction "is" arbitrary: d) auto

lemma match_all_counts:
  assumes "\<And>fld sp d i. (fld, sp) \<in> set specs \<Longrightarrow> i \<in> set ms \<Longrightarrow>
             match_row st fld sp d i = Inr (replicate (c (fld, sp) i) i)"
  shows "\<exists>ms'. foldE (\<lambda>ms (fld, sp). match_rows st fld sp 0 ms) ms specs = Inr ms' \<and>
           gatherUniques ms' = filter (\<lambda>i. \<forall>x\<in>set specs. 0 < c x i) (gatherUniques ms)"
  using assms
proof (induction specs arbitrary: ms)
  case Nil
  then show ?case by simp
next
  case (Cons x specs)
  obtain fld sp where x: "x = (fld, sp)" by (cases x)
  let ?ms = "concat (map (\<lambda>i. replicate (c x i) i) ms)"
  have "match_rows st fld sp 0 ms = Inr ?ms"
    using Cons.prems x by (intro match_rows_counts) auto
  moreover obtain ms' where
    "foldE (\<lambda>ms (fld, sp). match_rows st fld sp 0 ms) ?ms specs = Inr ms'"
    "gatherUniques ms' = filter (\<lambda>i. \<forall>x\<in>set specs. 0 < c x i) (gatherUniques ?ms)"
    using Cons.IH [of ?ms] Cons.prems by fastforce
  ultimately show ?case
    using x by (auto simp: gatherUniques_concat_replicate intro: filter_cong)
qed

lemma taffy_find_counts:
  assumes "\<And>fld sp d i. (fld, sp) \<in> set specs \<Longrightarrow> i \<in> set (TIA st) \<Longrightarrow>
             match_row st fld sp d i = Inr (replicate (c (fld, sp) i) i)"
  shows "taffy_find st (MatchObj specs) None =
           Inr (filter (\<lambda>i. \<forall>x\<in>set specs. 0 < c x i) (gatherUniques (TIA st)))"
  using match_all_counts [of specs "TIA st" st c] assms by (auto simp: taffy_find_def)

lemma match_row_subset: "match_row st fld sp d i = Inr m \<Longrightarrow> set m \<subseteq> {i}"
proof -
  have "set ys \<subseteq> insert i (set xs)"
    if "foldE (\<lambda>acc v. bindE (cell st i fld) (\<lambda>x. bindE (run (rx st) mt x (MV v) mode)
            (\<lambda>b. Inr (if b then acc @ [i] else acc)))) xs vs = Inr ys" for xs ys vs mt mode
    using that
    by (induction vs arbitrary: xs) (fastforce simp: err_simps split: if_splits)+
  from this [of _ _ "[]"] show "match_row st fld sp d i = Inr m \<Longrightarrow> set m \<subseteq> {i}"
    by (fastforce simp: match_row_def Let_def err_simps split: prod.splits mval.splits jsval.splits if_splits)
qed

lemma match_rows_subset: "match_rows st fld sp d is = Inr ms \<Longrightarrow> set ms \<subseteq> set is"
  by (induction "is" arbitrary: d ms) (fastforce simp: err_simps dest: match_row_subset)+

lemma match_all_subset:
  "foldE (\<lambda>ms (fld, sp). match_rows st fld sp 0 ms) ms specs = Inr ms' \<Longrightarrow> set ms' \<subseteq> set ms"
  by (induction specs arbitrary: ms) (fastforce simp: err_simps dest: match_rows_subset)+

lemma taffy_find_sound:
  "taffy_find st m flt = Inr is \<Longrightarrow>
   distinct is \<and> set is \<subseteq> set (case flt of Some xs \<Rightarrow> xs | None \<Rightarrow> TIA st)"
  by (cases m; cases flt) (auto simp: taffy_find_def Let_def err_simps dest: match_all_subset [THEN subsetD])


text \<open>Criteria that compare with data: a scalar is compared with \<open>==\<close>, an array matches when one
  of its elements does.\<close>

definition eq_specs :: "props \<Rightarrow> (string \<times> mspec) list" where
  "eq_specs kvs = map (\<lambda>(k, v). (k, Plain (MV v))) kvs"

definition value_matches :: "jsval \<Rightarrow> jsval \<Rightarrow> bool" where
  "value_matches x v = (case v of JArr vs \<Rightarrow> list_ex (js_eq x) vs | _ \<Rightarrow> js_eq x v)"

definition row_matches :: "jsval \<Rightarrow> props \<Rightarrow> bool" where
  "row_matches row kvs = list_all (\<lambda>(k, v). value_matches (get_prop (own_props row) k) v) kvs"

definition all_objects :: "jsval list \<Rightarrow> bool" where
  "all_objects rows = list_all isObject rows"

lemma isObject_iff: "isObject v \<longleftrightarrow> (\<exists>p. v = JObj p)"
  by (cases v) auto

lemma run_is: "run r ''is'' x (MV v) True = Inr (js_eq x v)"
  by (simp add: run_def run_test.simps)

definition match_count :: "jsval \<Rightarrow> jsval \<Rightarrow> nat" where
  "match_count x v =
     (case v of JArr vs \<Rightarrow> length (filter (js_eq x) vs) | _ \<Rightarrow> (if js_eq x v then 1 else 0))"

lemma match_count_pos: "0 < match_count x v \<longleftrightarrow> value_matches x v"
  by (auto simp: match_count_def value_matches_def list_ex_iff filter_empty_conv split: jsval.splits)

lemma match_loop_counts:
  "foldE (\<lambda>acc v. bindE (Inr x) (\<lambda>x. bindE (run r ''is'' x (MV v) True)
            (\<lambda>b. Inr (if b then acc @ [i] else acc)))) acc vs
     = Inr (acc @ replicate (length (filter (js_eq x) vs)) i)"
  by (induction vs arbitrary: acc) (auto simp: run_is replicate_append_same [symmetric])

lemma match_row_plain:
  assumes "cell st i fld = Inr x" "\<not> isObject v"
  shows "match_row st fld (Plain (MV v)) d i = Inr (replicate (match_count x v) i)"
  using assms match_loop_counts [of x "rx st" i "[]"]
  by (cases v) (auto simp: match_row_def spec_of_def match_count_def run_is Let_def)

lemma taffy_find_values:
  assumes "TIA st = [0..<length (TOb st)]" "all_objects (TOb st)"
    and "list_all (\<lambda>(k, v). \<not> isObject v) kvs"
  shows "taffy_find st (MatchObj (eq_specs kvs)) None =
           Inr (filter (\<lambda>i. row_matches (TOb st ! i) kvs) [0..<length (TOb st)])"
proof -
  define c where "c = (\<lambda>(fld, sp) i. case sp of
      Plain (MV v) \<Rightarrow> match_count (get_prop (own_props (TOb st ! i)) fld) v | _ \<Rightarrow> 0)"
  have cell: "cell st i fld = Inr (get_prop (own_props (TOb st ! i)) fld)"
    if "i < length (TOb st)" for i fld
    using that assms(2) by (auto simp: cell_def all_objects_def list_all_length isObject_iff)
  have "match_row st fld sp d i = Inr (replicate (c (fld, sp) i) i)"
    if "(fld, sp) \<in> set (eq_specs kvs)" "i \<in> set (TIA st)" for fld sp d i
    using that assms cell [of i fld]
    by (auto simp: eq_specs_def c_def list_all_iff intro!: match_row_plain)
  from taffy_find_counts [of "eq_specs kvs" st c, OF this]
  have "taffy_find st (MatchObj (eq_specs kvs)) None =
      Inr (filter (\<lambda>i. \<forall>x\<in>set (eq_specs kvs). 0 < c x i) [0..<length (TOb st)])"
    using assms(1) by (simp add: gatherUniques_distinct)
  moreover have "(\<forall>x\<in>set (eq_specs kvs). 0 < c x i) \<longleftrightarrow> row_matches (TOb st ! i) kvs" for i
    by (auto simp: eq_specs_def c_def row_matches_def list_all_iff match_count_pos split: prod.splits)
  ultimately show ?thesis by simp
qed

subsection \<open>The invariant\<close>

text \<open>The index array lists the positions of the rows.\<close>

definition indexed :: "taffy \<Rightarrow> bool" where
  "indexed st = (TIA st = [0..<length (TOb st)])"

definition in_range :: "taffy \<Rightarrow> dex \<Rightarrow> bool" where
  "in_range st dex =
     (case dex of DNum n \<Rightarrow> n < length (TOb st) | DArr is \<Rightarrow> list_all (\<lambda>i. i < length (TOb st)) is | _ \<Rightarrow> True)"

lemma bDexArray_in_range:
  "indexed st \<Longrightarrow> in_range st dex \<Longrightarrow> bDexArray st dex = Inr is \<Longrightarrow> i \<in> set is \<Longrightarrow> i < length (TOb st)"
  by (auto simp: indexed_def in_range_def bDexArray_def list_all_iff dest!: taffy_find_sound split: dex.splits)

lemma update_rows_length:
  "\<forall>i\<in>set is. i < length rows \<Longrightarrow>
   length (snd (foldl (update_row cb) (u, rows) is)) = length rows"
  by (induction "is" arbitrary: u rows) (auto simp: update_row_def split: prod.splits)

lemma put_rows_keeps:
  "\<forall>i\<in>set rows. i < length (TOb st) \<Longrightarrow>
   length (TOb (foldl (\<lambda>s i. s\<lparr>TOb := arr_put (TOb s) i (g (arr_get (TOb s) i))\<rparr>) st rows)) = length (TOb st)
   \<and> TIA (foldl (\<lambda>s i. s\<lparr>TOb := arr_put (TOb s) i (g (arr_get (TOb s) i))\<rparr>) st rows) = TIA st"
  by (induction rows arbitrary: st) auto

lemma mergeTemp_keeps:
  "\<forall>i\<in>set rows. i < length (TOb st) \<Longrightarrow>
   length (TOb (mergeTemp rows t st)) = length (TOb st) \<and> TIA (mergeTemp rows t st) = TIA st"
  by (simp add: mergeTemp_def Let_def put_rows_keeps [where g = "\<lambda>r. mergeObj r _"])

lemma insort_js_mset: "insort_js cmp x xs = Inr ys \<Longrightarrow> mset ys = add_mset x (mset xs)"
  by (induction xs arbitrary: ys) (auto simp: err_simps split: if_splits)

lemma sort_js_mset: "sort_js cmp xs = Inr ys \<Longrightarrow> mset ys = mset xs"
  by (induction xs arbitrary: ys) (auto simp: err_simps dest: insort_js_mset)

lemma orderBy_mset: "orderBy now ob st = Inr st' \<Longrightarrow> mset (TOb st') = mset (TOb st) \<and> TIA st' = TIA st"
proof -
  have "mset (filter P xs) + mset (filter (\<lambda>x. \<not> P x) xs) = mset xs" for P and xs :: "jsval list"
    by (metis mset_filter multiset_partition)
  from this [of "\<lambda>r. r \<noteq> JUndef" "TOb st"]
  show "orderBy now ob st = Inr st' \<Longrightarrow> mset (TOb st') = mset (TOb st) \<and> TIA st' = TIA st"
    by (auto simp: orderBy_def err_simps dest!: sort_js_mset split: if_splits)
qed

lemma indexed_new: "indexed (taffy_new r now rows)"
  by (simp add: indexed_def taffy_new_def bTIA_def)

lemma indexed_insert: "indexed st \<Longrightarrow> indexed (fst (taffy_insert now r st))"
  by (simp add: indexed_def taffy_insert_def Let_def)

lemma indexed_remove: "taffy_remove now dex st = Inr (st', js, told) \<Longrightarrow> indexed st'"
  by (auto simp: indexed_def taffy_remove_def bTIA_def err_simps case_prod_beta)

lemma indexed_update:
  "indexed st \<Longrightarrow> in_range st dex \<Longrightarrow> taffy_update u dex st = Inr (st', js) \<Longrightarrow>
   indexed st' \<and> length (TOb st') = length (TOb st)"
  using bDexArray_in_range [of st dex]
  by (auto simp: taffy_update_def err_simps indexed_def update_rows_length)

lemma indexed_orderBy: "indexed st \<Longrightarrow> orderBy now ob st = Inr st' \<Longrightarrow> indexed st'"
  using orderBy_mset [of now ob st st'] mset_eq_length by (fastforce simp: indexed_def)

lemma indexed_config_set: "indexed st \<Longrightarrow> indexed (config_set n v st)"
  using mergeTemp_keeps [of "TIA st" "st\<lparr>conf := AList.update n v (conf st)\<rparr>" v]
  by (auto simp: config_set_def Let_def indexed_def)

lemma indexed_applyTemplate:
  "indexed st \<Longrightarrow> in_range st dex \<Longrightarrow> applyTemplate t dex st = Inr st' \<Longrightarrow> indexed st'"
  unfolding applyTemplate_def bindE_Inr_iff
  using bDexArray_in_range mergeTemp_keeps [of _ st t] by (fastforce simp: indexed_def)

lemma indexed_forEach_from:
  "indexed st \<Longrightarrow> \<forall>i\<in>set is. i < length (TOb st) \<Longrightarrow> forEach_from f is st = Inr st' \<Longrightarrow>
   indexed st' \<and> length (TOb st') = length (TOb st)"
proof (induction "is" arbitrary: st)
  case (Cons i "is")
  obtain row nr where f: "f (TOb st ! i) i = (row, nr)" by fastforce
  let ?st1 = "st\<lparr>TOb := (TOb st)[i := row]\<rparr>"
  have st1: "indexed ?st1" "in_range ?st1 (DNum i)" "length (TOb ?st1) = length (TOb st)"
    using Cons.prems by (auto simp: indexed_def in_range_def)
  consider "isObject nr" "isSameObject nr EXIT" | "isObject nr" "\<not> isSameObject nr EXIT" | "\<not> isObject nr"
    by blast
  then show ?case
  proof cases
    case 1
    with Cons.prems f st1 show ?thesis by auto
  next
    case 2
    with Cons.prems f obtain st2 js where
      st2: "taffy_update nr (DNum i) ?st1 = Inr (st2, js)" "forEach_from f is st2 = Inr st'"
      by (auto simp: err_simps)
    from indexed_update [OF st1(1,2) st2(1)] have "indexed st2" "length (TOb st2) = length (TOb st)"
      using st1(3) by auto
    with Cons.IH [OF _ _ st2(2)] Cons.prems(2) show ?thesis by auto
  next
    case 3
    with Cons.prems f have "forEach_from f is ?st1 = Inr st'" by simp
    with Cons.IH [OF st1(1)] Cons.prems(2) st1(3) show ?thesis by auto
  qed
qed simp

lemma indexed_forEach:
  "indexed st \<Longrightarrow> in_range st dex \<Longrightarrow> taffy_forEach f dex st = Inr st' \<Longrightarrow> indexed st'"
  unfolding taffy_forEach_def bindE_Inr_iff
  using bDexArray_in_range indexed_forEach_from by blast

subsection \<open>The collection as a row store\<close>

text \<open>What a client of the collection relies on: rows are added at the end, and a deletion keeps the
  other rows in their order.\<close>

locale row_store =
  fixes wf :: "'s \<Rightarrow> bool"
    and ok :: "'r \<Rightarrow> bool"
    and rows :: "'s \<Rightarrow> 'r list"
    and add :: "'r \<Rightarrow> 's \<Rightarrow> 's"
    and del :: "nat list \<Rightarrow> 's \<Rightarrow> 's"
  assumes wf_add: "wf s \<Longrightarrow> ok r \<Longrightarrow> wf (add r s)"
    and rows_add: "wf s \<Longrightarrow> ok r \<Longrightarrow> rows (add r s) = rows s @ [r]"
    and wf_del: "wf s \<Longrightarrow> \<forall>i\<in>set is. i < length (rows s) \<Longrightarrow> wf (del is s)"
    and rows_del: "wf s \<Longrightarrow> \<forall>i\<in>set is. i < length (rows s) \<Longrightarrow> rows (del is s) = nths (rows s) (- set is)"
begin

lemma rows_add_all: "wf s \<Longrightarrow> list_all ok rs \<Longrightarrow> rows (fold add rs s) = rows s @ rs \<and> wf (fold add rs s)"
  by (induction rs arbitrary: s) (auto simp: rows_add wf_add)

lemma del_added: "wf s \<Longrightarrow> ok r \<Longrightarrow> rows (del [length (rows s)] (add r s)) = rows s"
  by (simp add: rows_del wf_add rows_add nths_append nths_all)

lemma length_del:
  assumes "wf s" "\<forall>i\<in>set is. i < length (rows s)"
  shows "length (rows (del is s)) + card (set is) = length (rows s)"
proof -
  have "{i. i < length (rows s) \<and> i \<notin> set is} = {..<length (rows s)} - set is" by auto
  moreover have "card ({..<length (rows s)} - set is) = length (rows s) - card (set is)"
    using assms(2) by (subst card_Diff_subset) auto
  moreover have "card (set is) \<le> length (rows s)"
    using assms(2) card_mono [of "{..<length (rows s)}" "set is"] by auto
  ultimately show ?thesis
    using assms by (simp add: rows_del length_nths)
qed

end

text \<open>A collection with no template and no insert callback, none of whose rows is the string
  \<open>remove\<close>.\<close>

definition plain_store :: "taffy \<Rightarrow> bool" where
  "plain_store st =
     (indexed st \<and> list_all (\<lambda>r. \<not> flagged r) (TOb st) \<and> get_prop (conf st) ''template'' = JNull
      \<and> onInsert st = None)"

definition remove_rows :: "nat \<Rightarrow> nat list \<Rightarrow> taffy \<Rightarrow> taffy" where
  "remove_rows now is st =
     (case taffy_remove now (DArr is) st of Inr (st', _, _) \<Rightarrow> st' | Inl _ \<Rightarrow> st)"

lemma taffy_remove_total:
  "bDexArray st dex = Inr is \<Longrightarrow> \<exists>st' told. taffy_remove now dex st = Inr (st', is, told)"
  by (auto simp: taffy_remove_def case_prod_beta)

lemma remove_rows_eq:
  assumes "plain_store st" "\<forall>i\<in>set is. i < length (TOb st)"
  shows "TOb (remove_rows now is st) = nths (TOb st) (- set is) \<and> plain_store (remove_rows now is st)"
proof -
  obtain st' told where r: "taffy_remove now (DArr is) st = Inr (st', is, told)"
    using taffy_remove_total [of st "DArr is" "is" now] by (auto simp: bDexArray_def)
  have "onInsert st' = onInsert st"
    using r by (auto simp: taffy_remove_def bTIA_def err_simps case_prod_beta)
  then show ?thesis
    using assms r taffy_remove_rows [of st "DArr is" "is" now st' "is" told] set_nths_subset [of "TOb st"]
    by (auto simp: remove_rows_def plain_store_def indexed_def bDexArray_def list_all_iff)
qed

interpretation store: row_store plain_store "\<lambda>r. \<not> flagged r" TOb
  "\<lambda>r st. fst (taffy_insert now r st)" "remove_rows now" for now
  by unfold_locales
    (auto simp: remove_rows_eq, auto simp: plain_store_def taffy_insert_def Let_def indexed_def)

subsection \<open>Sequences of operations\<close>

text \<open>One call of a method that changes the collection, with indexes in range and no error.\<close>

inductive taffy_step :: "taffy \<Rightarrow> taffy \<Rightarrow> bool" where
  step_insert: "taffy_step st (fst (taffy_insert now r st))"
| step_remove: "taffy_remove now dex st = Inr (st', js, told) \<Longrightarrow> taffy_step st st'"
| step_update: "in_range st dex \<Longrightarrow> taffy_update u dex st = Inr (st', js) \<Longrightarrow> taffy_step st st'"
| step_orderBy: "orderBy now ob st = Inr st' \<Longrightarrow> taffy_step st st'"
| step_forEach: "in_range st dex \<Longrightarrow> taffy_forEach f dex st = Inr st' \<Longrightarrow> taffy_step st st'"
| step_config: "taffy_step st (config_set n v st)"
| step_template: "in_range st dex \<Longrightarrow> applyTemplate t dex st = Inr st' \<Longrightarrow> taffy_step st st'"

interpretation collection: machine "\<lambda>st. \<exists>r now rows. st = taffy_new r now rows" taffy_step indexed
proof
  fix s t
  show "indexed s \<Longrightarrow> taffy_step s t \<Longrightarrow> indexed t"
    by (erule taffy_step.cases)
      (auto simp: indexed_insert indexed_remove indexed_orderBy indexed_config_set
        dest: indexed_update indexed_forEach indexed_applyTemplate)
qed (auto simp: indexed_new)

subsection \<open>Lemmas: sorting by a numeric column\<close>

definition num_col :: "string \<Rightarrow> jsval \<Rightarrow> rat" where
  "num_col col row = (case get_prop (own_props row) col of JNum r \<Rightarrow> r | _ \<Rightarrow> 0)"

definition numeric_col :: "string \<Rightarrow> jsval list \<Rightarrow> bool" where
  "numeric_col col rows =
     list_all (\<lambda>row. isObject row \<and> (\<exists>r. get_prop (own_props row) col = JNum r)) rows"

lemma numeric_colD:
  assumes "numeric_col col rows" "x \<in> set rows"
  shows "\<exists>p a. x = JObj p \<and> get_prop p col = JNum a"
proof -
  have "isObject x \<and> (\<exists>r. get_prop (own_props x) col = JNum r)"
    using assms by (simp add: numeric_col_def list_all_iff)
  then show ?thesis by (cases x) auto
qed

lemma js_lt_num [simp]: "js_lt (JNum a) (JNum b) = (a < b)"
  by (simp add: js_lt_def to_prim_def to_number_def)

lemma insort_js_key:
  "(\<And>y. y \<in> set ys \<Longrightarrow> \<exists>r. cmp x y = Inr r \<and> (r > 0 \<longleftrightarrow> (f y :: 'b::linorder) < f x)) \<Longrightarrow>
   insort_js cmp x ys = Inr (insort_key f x ys)"
  by (induction ys) (fastforce simp: not_less not_le)+

lemma sort_js_key:
  assumes "\<And>x y. x \<in> set xs \<Longrightarrow> y \<in> set xs \<Longrightarrow>
             \<exists>r. cmp x y = Inr r \<and> (r > 0 \<longleftrightarrow> (f y :: 'b::linorder) < f x)"
  shows "sort_js cmp xs = Inr (sort_key f xs)"
  using assms
proof (induction xs)
  case (Cons x xs)
  then have "sort_js cmp xs = Inr (sort_key f xs)" by simp
  moreover have "insort_js cmp x (sort_key f xs) = Inr (insort_key f x (sort_key f xs))"
    using Cons.prems by (intro insort_js_key) auto
  ultimately show ?case by simp
qed simp

lemma sort_numeric_col:
  assumes "numeric_col col rows"
    and "f = (if js_eq (sortDir c) (JStr ''desc'') then \<lambda>r. - num_col col r else num_col col)"
    and "sortCol c = col" "\<not> js_eq (sortDir c) (JStr ''logical'')" "\<not> js_eq (sortDir c) (JStr ''logicaldesc'')"
  shows "sort_js (cmp_rows [c]) rows = Inr (sort_key f rows)"
proof (rule sort_js_key)
  fix x y assume "x \<in> set rows" "y \<in> set rows"
  then obtain p q a b where xy: "x = JObj p" "y = JObj q" "get_prop p col = JNum a" "get_prop q col = JNum b"
    using numeric_colD [OF assms(1)] by metis
  then have "num_col col x = a" "num_col col y = b" by (simp_all add: num_col_def)
  then show "\<exists>r. cmp_rows [c] x y = Inr r \<and> (r > 0 \<longleftrightarrow> f y < f x)"
    using assms(2-) xy
    by (auto simp: cmp_instr_def Let_def cmp_default_def cmp_desc_def js_gt_def)
qed

end
