(* ===== verification/Taffy_Props.thy ===== *)
theory Taffy_Props
  imports Taffy
begin

section \<open>Properties of the TAFFY collection\<close>

text \<open>
  What the lookup returns, what removal, update and insertion do to the rows, the invariant of the
  index array over any sequence of calls, sorting, and the JSON printer; then the places where the
  collection does something else than its documentation says.
\<close>

subsection \<open>A collection for the examples\<close>

definition three_rows :: taffy where
  "three_rows = taffy_new (\<lambda>_ _. False) 0
     [JObj [(''id'', JNum 1), (''st'', JStr ''NY'')], JObj [(''id'', JNum 2), (''st'', JStr ''NJ'')],
      JObj [(''id'', JNum 3), (''st'', JStr ''NY'')]]"

subsection \<open>Helper lemmas\<close>

text \<open>The indexes of the rows that satisfy a predicate, and the rows they select.\<close>

lemma nths_complement_filter:
  "nths xs (- set (filter (\<lambda>i. P (xs ! i)) [0..<length xs])) = filter (\<lambda>x. \<not> P x) xs"
proof -
  have "nths xs (- set (filter (\<lambda>i. P (xs ! i)) [0..<length xs]))
        = map ((!) xs) (filter (\<lambda>i. \<not> P (xs ! i)) [0..<length xs])"
    unfolding nths_conv_map by (rule arg_cong [where f = "map _"], rule filter_cong) auto
  also have "\<dots> = filter (\<lambda>x. \<not> P x) (map ((!) xs) [0..<length xs])"
    by (simp add: filter_map comp_def)
  finally show ?thesis by (simp add: map_nth)
qed

lemma update_rows_frame:
  "distinct is \<Longrightarrow> \<forall>i\<in>set is. i < length rows \<Longrightarrow>
   foldl (update_row None) (u, rows) is =
     (u, map (\<lambda>i. if i \<in> set is then mergeObj (rows ! i) u else rows ! i) [0..<length rows])"
proof (induction "is" arbitrary: rows)
  case Nil
  then show ?case by (simp add: map_nth)
next
  case (Cons j js)
  let ?rows = "rows[j := mergeObj (rows ! j) u]"
  have "foldl (update_row None) (u, rows) (j # js) = foldl (update_row None) (u, ?rows) js"
    using Cons.prems by (simp add: update_row_def)
  also have "\<dots> = (u, map (\<lambda>i. if i \<in> set js then mergeObj (?rows ! i) u else ?rows ! i) [0..<length ?rows])"
    using Cons.prems by (intro Cons.IH) auto
  finally show ?case
    using Cons.prems by (auto simp: nth_list_update)
qed

lemma map_filter_rows:
  "map (\<lambda>i. if i \<in> set (filter (\<lambda>i. P (xs ! i)) [0..<length xs]) then g (xs ! i) else xs ! i) [0..<length xs]
   = map (\<lambda>x. if P x then g x else x) xs"
  by (rule nth_equalityI) auto

text \<open>Removal, update and sorting as functions of the rows.\<close>

lemma taffy_remove_values:
  assumes "indexed st" "all_objects (TOb st)" "list_all (\<lambda>(k, v). \<not> isObject v) kvs"
  shows "\<exists>st' told. taffy_remove now (DObj (eq_specs kvs)) st =
             Inr (st', filter (\<lambda>i. row_matches (TOb st ! i) kvs) [0..<length (TOb st)], told) \<and>
           TOb st' = filter (\<lambda>r. \<not> row_matches r kvs) (TOb st) \<and> indexed st' \<and>
           conf st' = conf st \<and> onInsert st' = onInsert st \<and> onUpdate st' = onUpdate st"
proof -
  let ?is = "filter (\<lambda>i. row_matches (TOb st ! i) kvs) [0..<length (TOb st)]"
  have d: "bDexArray st (DObj (eq_specs kvs)) = Inr ?is"
    using assms taffy_find_values by (simp add: bDexArray_def indexed_def)
  then obtain st' told where r: "taffy_remove now (DObj (eq_specs kvs)) st = Inr (st', ?is, told)"
    using taffy_remove_total by blast
  have "\<forall>r\<in>set (TOb st). \<not> flagged r"
    using assms(2) by (auto simp: all_objects_def list_all_iff flagged_def)
  moreover have "\<forall>i\<in>set ?is. i < length (TOb st)" by simp
  ultimately have "TOb st' = nths (TOb st) (- set ?is)" "TIA st' = [0..<length (TOb st')]" "conf st' = conf st"
    using taffy_remove_rows [OF d _ _ r] by blast+
  moreover have "onInsert st' = onInsert st \<and> onUpdate st' = onUpdate st"
    using r by (auto simp: taffy_remove_def bTIA_def err_simps case_prod_beta)
  moreover have "nths (TOb st) (- set ?is) = filter (\<lambda>r. \<not> row_matches r kvs) (TOb st)"
    by (rule nths_complement_filter)
  ultimately show ?thesis
    using r by (metis indexed_def)
qed

lemma taffy_update_values:
  assumes "indexed st" "all_objects (TOb st)" "list_all (\<lambda>(k, v). \<not> isObject v) kvs" "onUpdate st = None"
  shows "taffy_update u (DObj (eq_specs kvs)) st =
           Inr (st\<lparr>TOb := map (\<lambda>r. if row_matches r kvs then mergeObj r u else r) (TOb st)\<rparr>,
                filter (\<lambda>i. row_matches (TOb st ! i) kvs) [0..<length (TOb st)])"
proof -
  let ?is = "filter (\<lambda>i. row_matches (TOb st ! i) kvs) [0..<length (TOb st)]"
  have "bDexArray st (DObj (eq_specs kvs)) = Inr ?is"
    using assms taffy_find_values by (simp add: bDexArray_def indexed_def)
  moreover have "foldl (update_row None) (u, TOb st) ?is =
      (u, map (\<lambda>i. if i \<in> set ?is then mergeObj (TOb st ! i) u else TOb st ! i) [0..<length (TOb st)])"
    by (rule update_rows_frame) auto
  ultimately show ?thesis
    using assms(4) map_filter_rows [where xs = "TOb st" and P = "\<lambda>r. row_matches r kvs" and g = "\<lambda>r. mergeObj r u"]
    by (simp add: taffy_update_def)
qed

lemma orderBy_numeric_col:
  assumes "TOb st \<noteq> []" "numeric_col col (TOb st)"
  shows "orderBy now (JStr col) st =
           Inr (st\<lparr>TOb := sort_key (num_col col) (TOb st), lastModifyDate := now\<rparr>) \<and>
         orderBy now (JObj [(col, JStr ''desc'')]) st =
           Inr (st\<lparr>TOb := sort_key (\<lambda>r. - num_col col r) (TOb st), lastModifyDate := now\<rparr>)"
proof -
  have "JUndef \<notin> set (TOb st)"
    using numeric_colD [OF assms(2), of JUndef] by auto
  then have u: "filter (\<lambda>r. r \<noteq> JUndef) (TOb st) = TOb st" "filter (\<lambda>r. r = JUndef) (TOb st) = []"
    by (auto simp: filter_id_conv filter_empty_conv)
  obtain p where row0: "TOb st ! 0 = JObj p"
    using numeric_colD [OF assms(2), of "TOb st ! 0"] assms(1) by auto
  have eqs: "js_eq (JStr ''desc'') (JStr ''desc'')" "\<not> js_eq (JStr ''asc'') (JStr ''desc'')"
    "\<not> js_eq (JStr ''asc'') (JStr ''logical'')" "\<not> js_eq (JStr ''asc'') (JStr ''logicaldesc'')"
    "\<not> js_eq (JStr ''desc'') (JStr ''logical'')" "\<not> js_eq (JStr ''desc'') (JStr ''logicaldesc'')"
    by (simp_all add: js_eq_def to_prim_def)
  show ?thesis
    using assms row0 eqs
    by (simp add: orderBy_def buildSortFunction_def sort_instrs_of_def u
        sort_numeric_col [OF assms(2) refl])
qed

subsection \<open>Lookup and the operations on what it finds\<close>

text \<open>Property C6. On a collection of objects, a lookup by field values never fails and returns
  exactly the indexes of the rows in which every field equals (\<open>==\<close>) the value asked for, or one
  of the values when an array is given; in ascending order, each once.\<close>

theorem find_by_value:
  assumes "indexed st" "all_objects (TOb st)" "list_all (\<lambda>(k, v). \<not> isObject v) kvs"
  shows "taffy_find st (MatchObj (eq_specs kvs)) None =
           Inr (filter (\<lambda>i. row_matches (TOb st ! i) kvs) [0..<length (TOb st)])"
  using assms taffy_find_values by (simp add: indexed_def)

lemma three_rows_facts:
  "indexed three_rows" "all_objects (TOb three_rows)" "list_all (\<lambda>r. \<not> flagged r) (TOb three_rows)"
  "length (TOb three_rows) = 3" "onUpdate three_rows = None" "onRemove three_rows = False"
  by (simp_all add: three_rows_def taffy_new_def indexed_def bTIA_def all_objects_def flagged_def)

lemma three_rows_ny:
  "filter (\<lambda>i. row_matches (TOb three_rows ! i) [(''st'', JStr ''NY'')]) [0..<length (TOb three_rows)] = [0, 2]"
  "filter (\<lambda>r. \<not> row_matches r [(''st'', JStr ''NY'')]) (TOb three_rows) =
     [JObj [(''id'', JNum 2), (''st'', JStr ''NJ'')]]"
  by (simp_all add: three_rows_def taffy_new_def bTIA_def row_matches_def value_matches_def get_prop_def
      js_eq_def to_prim_def upt_rec)

theorem find_by_value_witness:
  "taffy_find three_rows (MatchObj (eq_specs [(''st'', JStr ''NY'')])) None = Inr [0, 2]"
  using find_by_value [of three_rows "[(''st'', JStr ''NY'')]"]
  by (simp add: three_rows_facts(1,2) three_rows_ny)

text \<open>Property C7. Removing by field values deletes exactly the matching rows, keeps the others in
  their order, rebuilds the index array, and returns the indexes the deleted rows had; the loop that
  restarts while a flagged row remains terminates. (No row is the string \<open>remove\<close>.)\<close>

theorem remove_by_value:
  assumes "indexed st" "all_objects (TOb st)" "list_all (\<lambda>(k, v). \<not> isObject v) kvs"
  shows "\<exists>st' told. taffy_remove now (DObj (eq_specs kvs)) st =
             Inr (st', filter (\<lambda>i. row_matches (TOb st ! i) kvs) [0..<length (TOb st)], told) \<and>
           TOb st' = filter (\<lambda>r. \<not> row_matches r kvs) (TOb st) \<and> indexed st'"
  using taffy_remove_values [OF assms] by blast

theorem remove_by_value_witness:
  "\<exists>st' told. taffy_remove 7 (DObj (eq_specs [(''st'', JStr ''NY'')])) three_rows = Inr (st', [0, 2], told) \<and>
     TOb st' = [JObj [(''id'', JNum 2), (''st'', JStr ''NJ'')]] \<and> indexed st'"
  using remove_by_value [of three_rows "[(''st'', JStr ''NY'')]" 7]
  by (simp add: three_rows_facts(1,2) three_rows_ny)

text \<open>Property C8. Updating by field values merges the new values into exactly the matching rows and
  leaves every other row, the number of rows, the indexes and the modification date as they
  were.\<close>

theorem update_by_value:
  assumes "indexed st" "all_objects (TOb st)" "list_all (\<lambda>(k, v). \<not> isObject v) kvs" "onUpdate st = None"
  shows "taffy_update u (DObj (eq_specs kvs)) st =
           Inr (st\<lparr>TOb := map (\<lambda>r. if row_matches r kvs then mergeObj r u else r) (TOb st)\<rparr>,
                filter (\<lambda>i. row_matches (TOb st ! i) kvs) [0..<length (TOb st)])"
  by (rule taffy_update_values [OF assms])

theorem update_by_value_witness:
  "\<exists>st'. taffy_update (JObj [(''st'', JStr ''PA'')]) (DObj (eq_specs [(''st'', JStr ''NY'')])) three_rows =
     Inr (st', [0, 2]) \<and> length (TOb st') = 3"
  using update_by_value [of three_rows "[(''st'', JStr ''NY'')]" "JObj [(''st'', JStr ''PA'')]"]
  by (simp add: three_rows_facts three_rows_ny(1) [unfolded three_rows_facts(4)])

text \<open>What a row holds after an update: the fields given in the update, and its own
  value for every other field.\<close>

lemma mergeObj_fields:
  assumes "distinct (map fst p)" "distinct (map fst u)"
  shows "\<exists>q. mergeObj (JObj p) (JObj u) = JObj q \<and> distinct (map fst q) \<and>
           (\<forall>k. get_prop q k = (if k \<in> fst ` set u then get_prop u k else get_prop p k))"
proof -
  obtain q where q: "mergeObj (JObj p) (JObj u) = JObj q" "distinct (map fst q)"
    using mergeObj_JObj by blast
  then have "map_of q = map_of p ++ map_of u"
    using map_of_mergeObj [OF q(1)] assms by (simp add: map_of_rev_distinct)
  then have "get_prop q k = (if k \<in> fst ` set u then get_prop u k else get_prop p k)" for k
  proof -
    have "k \<in> fst ` set u \<longleftrightarrow> map_of u k \<noteq> None" by (simp add: map_of_eq_None_iff)
    with \<open>map_of q = _\<close> show ?thesis by (cases "map_of u k") (simp_all add: get_prop_def map_add_def)
  qed
  with q show ?thesis by auto
qed

subsection \<open>Insertion and sequences of calls\<close>

text \<open>The index \<open>insert\<close> returns is the index of the new row: reading it gives the record,
  completed by the template when there is one, and the record's own fields win over the template's.
  The rows that were there stay where they were.\<close>

lemma insert_get:
  assumes "taffy_insert now r st = (st', is)"
  shows "\<exists>row. taffy_get st' (DArr is) = Inr [row] \<and> TOb st' = TOb st @ [row] \<and>
           row = (let r' = (case onInsert st of None \<Rightarrow> r | Some cb \<Rightarrow> cb r);
                      t = config_get ''template'' st
                  in if t = JNull then r' else mergeObj t r') \<and>
           lastModifyDate st' = now"
  using assms
  by (auto simp: taffy_insert_def Let_def taffy_get_def bDexArray_def config_get_def)



text \<open>Deleting the row that was just inserted restores the rows, and a deletion shortens
  the collection by the number of different indexes given.\<close>

lemma remove_inverse_insert:
  assumes "plain_store st" "\<not> flagged r" "list_all (\<lambda>i. i < length (TOb st)) is"
  shows "TOb (remove_rows now [length (TOb st)] (fst (taffy_insert now r st))) = TOb st \<and>
         length (TOb (remove_rows now is st)) + card (set is) = length (TOb st)"
  using assms store.del_added [of st r now] store.length_del [of st "is" now] by (simp add: list_all_iff)

subsection \<open>Sorting\<close>

text \<open>Property C21. Sorting by a numeric column gives the rows in the order of that column, ascending by
  name alone and descending with \<open>desc\<close>; rows with equal values keep their order.\<close>

theorem orderBy_numeric:
  assumes "TOb st \<noteq> []" "numeric_col col (TOb st)"
  shows "orderBy now (JStr col) st =
           Inr (st\<lparr>TOb := sort_key (num_col col) (TOb st), lastModifyDate := now\<rparr>) \<and>
         orderBy now (JObj [(col, JStr ''desc'')]) st =
           Inr (st\<lparr>TOb := sort_key (\<lambda>r. - num_col col r) (TOb st), lastModifyDate := now\<rparr>)"
  by (rule conjI; rule orderBy_numeric_col [OF assms, THEN conjunct1] orderBy_numeric_col [OF assms, THEN conjunct2])

theorem orderBy_numeric_witness:
  "\<exists>st'. orderBy 9 (JObj [(''id'', JStr ''desc'')]) three_rows = Inr st' \<and>
     map (num_col ''id'') (TOb st') = [3, 2, 1]"
proof -
  have n: "TOb three_rows \<noteq> []" "numeric_col ''id'' (TOb three_rows)"
    by (auto simp: three_rows_def taffy_new_def bTIA_def numeric_col_def get_prop_def)
  show ?thesis
    using orderBy_numeric [OF n, of 9]
    by (simp add: three_rows_def taffy_new_def bTIA_def num_col_def get_prop_def)
qed

subsection \<open>The JSON printer\<close>

text \<open>A string printed by \<open>stringify\<close> is a JSON string literal that reads back as the same
  string, whatever characters it holds.\<close>

lemma stringify_string_roundtrip: "json_unquote (stringify w (JStr s)) = Some s"
  by (simp add: json_string_def, rule json_unquote_quote) (auto simp: json_special_def)

text \<open>Printing the rows of a collection gives a string literal that holds the JSON text,
  not the JSON text: MooTools gives arrays a \<open>toJSON\<close> method, whose result TAFFY prints once more.
  A reader has to decode twice.\<close>

lemma stringify_rows_twice:
  assumes "taffy_get st dex = Inr rows"
  shows "\<exists>s. taffy_stringify st dex = Inr s \<and> json_unquote s = json_encode (JArr rows)"
  using assms json_unquote_quote [of json_special] by (auto simp: taffy_stringify_def json_string_def json_special_def)

subsection \<open>Where the collection departs from its documentation\<close>

text \<open>A function given to \<open>find\<close> together with a list of candidate indexes is applied to
  the rows at the positions \<open>0, 1, ...\<close> of the collection, not to the candidates: with the
  candidate \<open>2\<close> alone, the verdict on row \<open>2\<close> is the function's verdict on row \<open>0\<close>.\<close>

lemma find_function_wrong_row:
  "taffy_find st (MatchFun g) (Some [i]) = Inr (if g (arr_get (TOb st) 0) 0 then [i] else [])"
  by (simp add: taffy_find_def gatherUniques_def)

text \<open>The negation of a length test is lost: \<open>!length\<close> against a number accepts exactly
  the values \<open>length\<close> accepts.\<close>

lemma negated_length_same:
  assumes "value_length v = Inr n" "\<not> isObject t"
  shows "run r ''length'' v (MV t) False = run r ''length'' v (MV t) True"
  using assms by (cases t) (auto simp: run_def run_test.simps)

text \<open>The documented test \<open>notequal\<close> does not exist: on a collection that has a row, a
  lookup with it throws, and of several tests on one field only the last is run.\<close>

lemma notequal_throws:
  assumes "indexed st" "all_objects (TOb st)" "TOb st \<noteq> []" "\<not> isArray v"
  shows "taffy_find st (MatchObj [(fld, Tests (ts @ [(''notequal'', MV v)]))]) None = Inl TypeError"
proof -
  have spec: "spec_of (Tests (ts @ [(''notequal'', MV v)])) = (''not'', True, MV v)"
    by (simp add: spec_of_def pickTest_def starts_at_def)
  obtain p where "TOb st ! 0 = JObj p"
    using assms(2,3) by (cases "TOb st") (auto simp: all_objects_def isObject_iff)
  then have "match_row st fld (Tests (ts @ [(''notequal'', MV v)])) 0 0 = Inl TypeError"
    using assms(3,4) spec
    by (cases v) (auto simp: match_row_def cell_def run_def run_test.simps type_test_def)
  with assms(1,3) show ?thesis
    by (cases "TOb st") (auto simp: taffy_find_def indexed_def upt_rec)
qed

text \<open>Removing one index past the end does not fail: it leaves the collection with
  undefined rows up to that index.\<close>

lemma remove_past_end:
  assumes "list_all (\<lambda>r. \<not> flagged r) (TOb st)" "length (TOb st) \<le> i"
  shows "\<exists>st' told. taffy_remove now (DNum i) st = Inr (st', [i], told) \<and>
           TOb st' = TOb st @ replicate (i - length (TOb st)) JUndef"
proof -
  have "filter (\<lambda>r. \<not> flagged r) (TOb st) = TOb st"
    using assms(1) by (simp add: list_all_iff filter_id_conv)
  then show ?thesis
    using assms(2)
    by (auto simp: taffy_remove_def bDexArray_def flag_row_def arr_put_def remove_flagged_eq flagged_def bTIA_def)
qed

end
