(* ===== verification/CI_Object.thy ===== *)
theory CI_Object
  imports Moo
begin

section \<open>The base of the CIP framework\<close>

text \<open>
  Utility functions (\<open>$S\<close>, \<open>toInteger\<close>, the entity encoding), the event names \<open>CIEvent\<close>, and
  \<open>CIObject\<close>, from which every component inherits: its numbering, its class names, the properties
  \<open>synthesize\<close> gives it, \<open>set\<close> with its two events, and \<open>interpretStyles\<close>.

  The fields of an object (its \<open>slots\<close>) are a list of properties. Handlers are known by name (\<open>JFun\<close>); what a call
  fires is given as the list of events with their arguments, in order. Handlers that change the
  object while it is being changed are not part of the model.
\<close>

subsection \<open>Utility functions\<close>

definition dollar_S :: "jsval \<Rightarrow> bool" where
  "dollar_S s = (\<not> nullish s \<and> length (to_string s) > 0)"

text \<open>\<open>toInteger\<close>: the comparison \<open>x == NaN\<close> is never true.\<close>

definition num_result :: "int option \<Rightarrow> jsval" where
  "num_result x = (case x of None \<Rightarrow> JNaN | Some i \<Rightarrow> JNum (of_int i))"

definition toInteger :: "string \<Rightarrow> jsval" where
  "toInteger this = (let x = num_result (parseInt this) in if js_eq x JNaN then JNull else x)"

definition Number_toInteger :: "rat \<Rightarrow> jsval" where
  "Number_toInteger this = toInteger (num_to_string this)"

definition withEntityCharsDecoded :: "string \<Rightarrow> string" where
  "withEntityCharsDecoded s =
     (if \<not> dollar_S (JStr s) then []
      else replace_all ''&quot;'' [CHR 0x22]
             (replace_all ''&gt;'' ''>''
               (replace_all ''&lt;'' ''<''
                 (replace_all ''&amp;'' ''&'' s))))"

definition withEntityCharsEncoded :: "string \<Rightarrow> string" where
  "withEntityCharsEncoded s =
     (if \<not> dollar_S (JStr s) then []
      else replace_all ''>'' ''&gt;''
             (replace_all ''<'' ''&lt;''
               (replace_all [CHR 0x22] ''&quot;''
                 (replace_all ''&'' ''&amp;'' s))))"

subsection \<open>Events\<close>

text \<open>\<open>CIEvent\<close>: the name of each constant and its value.\<close>

definition CIEvent :: "(string \<times> string) list" where
  "CIEvent =
     map (\<lambda>n. (n, n))
       [''RequestedData'', ''GotData'', ''PostedData'', ''DeletedData'', ''PutData'', ''RequestFailed'',
        ''Clicked'', ''DoubleClicked'', ''MousedOver'', ''MousedOut'', ''AddedToDom'', ''EnterPressed'',
        ''EscapePressed'', ''Shown'', ''Hiding'', ''Hidden'', ''PropertyChanging'', ''PropertyChanged'',
        ''Changed'', ''Selected'', ''Deselected'']
     @ [(''Unselected'', ''Deselected'')]
     @ map (\<lambda>n. (n, n))
       [''RemovingFromDom'', ''RemovedFromDom'', ''DragEntered'', ''DragStarted'', ''Rendered'',
        ''Unrendered'', ''Resized'']"

type_synonym fired = "string \<times> jsval list"

subsection \<open>CIObject\<close>

record ciobject =
  objectId :: nat
  className :: string
  cid :: string
  family :: "string list"
  properties :: "string list"
  slots :: props
  accessors :: "string list"
  listeners :: "string events"

text \<open>\<open>CIObject.nextId\<close>: the counter is incremented and returned.\<close>

definition nextId :: "nat \<Rightarrow> nat \<times> nat" where
  "nextId idCounter = (Suc idCounter, Suc idCounter)"

definition isA :: "string \<Rightarrow> ciobject \<Rightarrow> ciobject" where
  "isA ty ob =
     ob\<lparr>className := ty, cid := ty @ ''_'' @ nat_digits (objectId ob), family := family ob @ [ty]\<rparr>"

definition isOfClass :: "string \<Rightarrow> ciobject \<Rightarrow> bool" where
  "isOfClass ty ob = (className ob = ty)"

text \<open>The options that name an event and hold a function become handlers.\<close>

definition add_listener :: "string \<times> jsval \<Rightarrow> string events \<Rightarrow> string events" where
  "add_listener kv es =
     (case kv of (key, v) \<Rightarrow>
        (case v of
           JFun f \<Rightarrow> if map_of CIEvent key \<noteq> None then addEvent [] key f False es else es
         | _ \<Rightarrow> es))"

definition object_new :: "jsval \<Rightarrow> nat \<Rightarrow> ciobject \<times> nat" where
  "object_new options idCounter =
     (case nextId idCounter of (n, c) \<Rightarrow>
        let ob = isA ''CIObject'' \<lparr>objectId = n, className = [], cid = [], family = [''CIObject''],
                   properties = [], slots = [], accessors = [], listeners = no_events\<rparr>;
            opts = (case options of JObj p \<Rightarrow> p | _ \<Rightarrow> [])
        in (ob\<lparr>listeners := fold add_listener (hash_new opts) no_events\<rparr>, c))"

definition toObject :: "ciobject \<Rightarrow> props" where
  "toObject ob = fold (\<lambda>p acc. AList.update p (get_prop (slots ob) p) acc) (properties ob) []"

text \<open>\<open>synthesize\<close>: the properties are given as an array of names, with \<open>null\<close> as default, or as an
  object of defaults; a configured value that is neither \<open>null\<close> nor \<open>undefined\<close> replaces the
  default. An accessor is made unless the object has one of that name.\<close>

definition synth_defaults :: "jsval \<Rightarrow> props" where
  "synth_defaults theProperties =
     (case theProperties of
        JArr ps \<Rightarrow> fold (\<lambda>p h. hash_set (to_string p) JNull h) ps []
      | JObj p \<Rightarrow> hash_new p
      | _ \<Rightarrow> [])"

definition add_accessor :: "string \<Rightarrow> string list \<Rightarrow> string list" where
  "add_accessor a as = (if a \<in> set as then as else as @ [a])"

definition synthesize_one :: "props \<Rightarrow> string \<times> jsval \<Rightarrow> ciobject \<Rightarrow> ciobject" where
  "synthesize_one configuration kv ob =
     (case kv of (property, defaultValue) \<Rightarrow>
        let v = get_prop configuration property
        in ob\<lparr>properties := (if property \<in> set (properties ob) then properties ob
                             else properties ob @ [property]),
              slots := AList.update property (if nullish v then defaultValue else v) (slots ob),
              accessors := add_accessor (''get'' @ capitalize property)
                             (add_accessor (''set'' @ capitalize property) (accessors ob))\<rparr>)"

definition synthesize :: "jsval \<Rightarrow> props \<Rightarrow> ciobject \<Rightarrow> ciobject" where
  "synthesize theProperties configuration ob =
     fold (synthesize_one configuration) (synth_defaults theProperties) ob"

text \<open>\<open>set\<close>: the new object, the events fired, and whether the object is returned.\<close>

definition object_set :: "string \<Rightarrow> jsval \<Rightarrow> ciobject \<Rightarrow> ciobject \<times> fired list \<times> bool" where
  "object_set property newValue ob =
     (if js_eq (get_prop (slots ob) property) newValue then (ob, [], False)
      else let oldValue = get_prop (slots ob) property;
               ob' = ob\<lparr>slots := AList.update property newValue (slots ob)\<rparr>
           in (ob',
               [(''PropertyChanging'', [JStr property, newValue, oldValue]),
                (''PropertyChanged'', [JStr property, newValue, get_prop (slots ob') property])],
               True))"

definition hasIntegerProperty :: "string \<Rightarrow> ciobject \<Rightarrow> bool" where
  "hasIntegerProperty property ob =
     (let v = get_prop (slots ob) property
      in if nullish v then False else to_string v \<noteq> [] \<and> list_all is_digit (to_string v))"

text \<open>\<open>interpretStyles\<close>: the three special styles.\<close>

definition firm_style :: "string \<Rightarrow> string \<Rightarrow> props \<Rightarrow> props" where
  "firm_style special dimn styles =
     (let v = get_prop styles special
      in if truthy v
         then AList.update dimn v (AList.update (''max-'' @ dimn) v (AList.update (''min-'' @ dimn) v
                (AList.delete special styles)))
         else styles)"

definition interpretStyles :: "props \<Rightarrow> props" where
  "interpretStyles styles0 =
     (let styles = firm_style ''CIFirmHeight'' ''height'' (firm_style ''CIFirmWidth'' ''width'' styles0);
          h = get_prop styles ''CIScrollAtHeight''
      in if truthy h
         then AList.update ''overflow'' (JStr ''auto'')
                (AList.update ''max-height'' h (AList.delete ''CIScrollAtHeight'' styles))
         else styles)"

text \<open>Objects made one after the other, each of a class of its own.\<close>

fun make_objects :: "string list \<Rightarrow> nat \<Rightarrow> ciobject list \<times> nat" where
  "make_objects [] c = ([], c)"
| "make_objects (ty # tys) c =
     (case object_new JUndef c of (ob, c') \<Rightarrow>
        (case make_objects tys c' of (obs, c'') \<Rightarrow> (isA ty ob # obs, c'')))"

subsection \<open>Lemmas: identities\<close>

lemma objectId_isA [simp]: "objectId (isA ty ob) = objectId ob"
  by (simp add: isA_def)

lemma objectId_new: "object_new opts c = (ob, c') \<Longrightarrow> objectId ob = Suc c \<and> c' = Suc c"
  by (auto simp: object_new_def nextId_def Let_def)

lemma make_objects_ids:
  "make_objects tys c = (obs, c') \<Longrightarrow>
   map objectId obs = [Suc c..<Suc c + length tys] \<and> c' = c + length tys"
proof (induction tys arbitrary: c obs c')
  case (Cons ty tys)
  obtain ob where ob: "object_new JUndef c = (ob, Suc c)" "objectId ob = Suc c"
    using objectId_new by (metis surj_pair)
  obtain obs2 where m: "make_objects tys (Suc c) = (obs2, c')" "obs = isA ty ob # obs2"
    using Cons.prems ob(1) by (auto split: prod.splits)
  from Cons.IH [OF m(1)] have ih: "map objectId obs2 = [Suc (Suc c)..<Suc (Suc c) + length tys]"
    "c' = Suc c + length tys" by auto
  have "[Suc c..<Suc c + length (ty # tys)] = Suc c # [Suc (Suc c)..<Suc (Suc c) + length tys]"
    by (simp add: upt_conv_Cons del: upt_Suc)
  with ih m(2) ob(2) show ?case by (simp del: upt_Suc)
qed simp

lemma make_objects_cid:
  "make_objects tys c = (obs, c') \<Longrightarrow>
   list_all (\<lambda>ob. cid ob = className ob @ ''_'' @ nat_digits (objectId ob)) obs \<and> map className obs = tys"
  by (induction tys arbitrary: c obs c') (auto simp: isA_def split: prod.splits)

text \<open>The number at the end of an identifier can be read back.\<close>

lemma cid_number:
  assumes "a @ ''_'' @ nat_digits m = b @ ''_'' @ nat_digits n"
  shows "m = n"
proof -
  have digits: "list_all is_digit (rev (nat_digits k))" for k by (simp add: nat_digits_digits)
  have "takeWhile is_digit (rev (a @ ''_'' @ nat_digits k)) = rev (nat_digits k)" for a k
    using digits [of k] by (simp add: takeWhile_append list_all_iff is_digit_def)
  with assms show ?thesis by (metis nat_digits_inject rev_rev_ident)
qed

subsection \<open>Lemmas: the entity encoding\<close>

text \<open>The encoding as one pass: every character is replaced by its entity, if it has one.\<close>

definition entity_map :: "(char \<times> string) list" where
  "entity_map = [(CHR ''&'', ''&amp;''), (CHR ''<'', ''&lt;''), (CHR ''>'', ''&gt;''), (CHR 0x22, ''&quot;'')]"

definition enc :: "(char \<times> string) list \<Rightarrow> string \<Rightarrow> string" where
  "enc m s = concat (map (\<lambda>c. case map_of m c of Some e \<Rightarrow> e | None \<Rightarrow> [c]) s)"

lemma enc_simps [simp]:
  "enc m [] = []"
  "enc m (c # s) = (case map_of m c of Some e \<Rightarrow> e | None \<Rightarrow> [c]) @ enc m s"
  by (simp_all add: enc_def)

lemma encoded_eq: "withEntityCharsEncoded s = enc entity_map s"
proof (cases "s = []")
  case False
  then have "withEntityCharsEncoded s = replace_all ''>'' ''&gt;''
             (replace_all ''<'' ''&lt;'' (replace_all [CHR 0x22] ''&quot;'' (replace_all ''&'' ''&amp;'' s)))"
    by (simp add: withEntityCharsEncoded_def dollar_S_def)
  also have "\<dots> = enc entity_map s"
    unfolding replace_all_char by (induction s) (auto simp: entity_map_def)
  finally show ?thesis .
qed (simp add: withEntityCharsEncoded_def dollar_S_def)

lemma replace_all_skip:
  "CHR ''&'' \<notin> set u \<Longrightarrow> replace_all (CHR ''&'' # w) r (u @ v) = u @ replace_all (CHR ''&'' # w) r v"
  by (induction u) (auto simp: starts_at_def)

lemma replace_all_amp:
  "replace_all (CHR ''&'' # w) r (CHR ''&'' # v) =
     (if starts_at w v then r @ replace_all (CHR ''&'' # w) r (drop (length w) v)
      else CHR ''&'' # replace_all (CHR ''&'' # w) r v)"
  by (simp add: starts_at_def)

lemma decode_amp: "replace_all ''&amp;'' ''&'' (enc entity_map s) = enc (tl entity_map) s"
  by (induction s) (auto simp: entity_map_def starts_at_def)

text \<open>Encoding leaves the words of an entity where they were.\<close>

lemma starts_at_enc:
  assumes "\<And>c e. map_of m c = Some e \<Longrightarrow> \<exists>t. e = CHR ''&'' # t"
    and "CHR ''&'' \<notin> set w" "\<And>c. c \<in> set w \<Longrightarrow> map_of m c = None"
  shows "starts_at w (enc m s) \<longleftrightarrow> starts_at w s"
  using assms(2,3)
proof (induction w arbitrary: s)
  case (Cons d w)
  show ?case
  proof (cases s)
    case (Cons c t)
    show ?thesis
    proof (cases "map_of m c")
      case None
      then show ?thesis
        using Cons Cons.IH [of t] Cons.prems by (auto simp: starts_at_def)
    next
      case (Some e)
      with assms(1) obtain x where "e = CHR ''&'' # x" by blast
      with Some show ?thesis
        using Cons Cons.prems by (auto simp: starts_at_def)
    qed
  qed (auto simp: starts_at_def)
qed simp

lemma decode_entity:
  assumes entries: "\<And>c e. map_of m c = Some e \<Longrightarrow>
      \<exists>t. e = CHR ''&'' # t \<and> CHR ''&'' \<notin> set t \<and> (c \<noteq> a \<longrightarrow> (\<forall>r. \<not> starts_at w (t @ r)))"
    and a: "map_of m a = Some (CHR ''&'' # w)"
    and w: "\<And>c. c \<in> set w \<Longrightarrow> map_of m c = None" "CHR ''&'' \<notin> set w"
    and amp: "map_of m (CHR ''&'') = None" and m': "map_of m' = (map_of m)(a := None)"
    and absent: "index_of s (CHR ''&'' # w) = None"
  shows "replace_all (CHR ''&'' # w) [a] (enc m s) = enc m' s"
  using absent
proof (induction s)
  case (Cons c s)
  have no: "\<not> starts_at (CHR ''&'' # w) (c # s)" and tail: "index_of s (CHR ''&'' # w) = None"
    using Cons.prems by (auto split: if_splits)
  note ih = Cons.IH [OF tail]
  have enc_w: "starts_at w (enc m s) \<longleftrightarrow> starts_at w s"
    using entries w by (intro starts_at_enc) blast+
  show ?case
  proof (cases "map_of m c")
    case None
    with a have "c \<noteq> a" by auto
    with None m' have "map_of m' c = None" by simp
    moreover have "c = CHR ''&'' \<Longrightarrow> \<not> starts_at w (enc m s)"
      using no enc_w by (simp add: starts_at_def)
    ultimately show ?thesis
      using None ih by (cases "c = CHR ''&''") (auto simp: replace_all_amp starts_at_def)
  next
    case (Some e)
    show ?thesis
    proof (cases "c = a")
      case True
      with a m' ih show ?thesis by (simp add: starts_at_def)
    next
      case False
      from entries [OF Some] False obtain t where
        t: "e = CHR ''&'' # t" "CHR ''&'' \<notin> set t" "\<not> starts_at w (t @ enc m s)" by blast
      have "replace_all (CHR ''&'' # w) [a] (e @ enc m s) = e @ replace_all (CHR ''&'' # w) [a] (enc m s)"
        using t by (simp add: replace_all_amp replace_all_skip del: replace_all.simps)
      with Some False m' ih show ?thesis by simp
    qed
  qed
qed simp

lemma decode_encode_eq:
  assumes "index_of s ''&lt;'' = None" "index_of s ''&gt;'' = None" "index_of s ''&quot;'' = None"
  shows "withEntityCharsDecoded (withEntityCharsEncoded s) = s"
proof -
  have lt: "replace_all ''&lt;'' ''<'' (enc (tl entity_map) s) = enc (drop 2 entity_map) s"
    using assms(1) by (intro decode_entity) (auto simp: entity_map_def starts_at_def split: if_splits)
  have gt: "replace_all ''&gt;'' ''>'' (enc (drop 2 entity_map) s) = enc (drop 3 entity_map) s"
    using assms(2) by (intro decode_entity) (auto simp: entity_map_def starts_at_def split: if_splits)
  have quot: "replace_all ''&quot;'' [CHR 0x22] (enc (drop 3 entity_map) s) = enc [] s"
    using assms(3) by (intro decode_entity) (auto simp: entity_map_def starts_at_def split: if_splits)
  have "enc [] s = s" by (induction s) auto
  moreover have "enc entity_map s = [] \<longleftrightarrow> s = []"
    by (cases s) (auto simp: entity_map_def)
  ultimately show ?thesis
    by (simp add: withEntityCharsDecoded_def encoded_eq dollar_S_def decode_amp lt gt quot)
qed

lemma encoded_chars:
  "c \<in> set (withEntityCharsEncoded s) \<Longrightarrow> c \<notin> {CHR ''<'', CHR ''>'', CHR 0x22}"
  unfolding encoded_eq by (induction s) (auto simp: entity_map_def split: if_splits)

subsection \<open>Lemmas: configuration\<close>

lemma synthesize_one_slots:
  "get_prop (slots (synthesize_one conf0 (k, v) ob)) k' =
     (if k' = k then (if nullish (get_prop conf0 k) then v else get_prop conf0 k)
      else get_prop (slots ob) k')"
  by (simp add: synthesize_one_def Let_def)

lemma synthesize_slots:
  "distinct (map fst kvs) \<Longrightarrow>
   get_prop (slots (fold (synthesize_one conf0) kvs ob)) k =
     (case map_of kvs k of
        None \<Rightarrow> get_prop (slots ob) k
      | Some v \<Rightarrow> if nullish (get_prop conf0 k) then v else get_prop conf0 k)"
proof (induction kvs arbitrary: ob)
  case (Cons kv kvs)
  obtain k0 v0 where kv: "kv = (k0, v0)" by (cases kv)
  with Cons have "map_of kvs k0 = None" by (simp add: map_of_eq_None_iff)
  with Cons kv show ?case
    by (auto simp: synthesize_one_slots split: option.splits)
qed simp

lemma distinct_synth_defaults: "distinct (map fst (synth_defaults ps))"
proof -
  have "distinct (map fst (fold (\<lambda>p h. hash_set (to_string p) JNull h) xs h))"
    if "distinct (map fst h)" for xs and h :: props
    using that by (induction xs arbitrary: h) (auto intro: hash.invar_put)
  then show ?thesis
    by (auto simp: synth_defaults_def split: jsval.splits)
qed

lemma synthesize_get:
  "get_prop (slots (synthesize ps conf0 ob)) k =
     (case map_of (synth_defaults ps) k of
        None \<Rightarrow> get_prop (slots ob) k
      | Some v \<Rightarrow> if nullish (get_prop conf0 k) then v else get_prop conf0 k)"
  by (simp add: synthesize_def synthesize_slots distinct_synth_defaults)

lemma firm_style_get:
  "get_prop (firm_style sp dimn st) k =
     (if truthy (get_prop st sp)
      then (if k = dimn \<or> k = ''max-'' @ dimn \<or> k = ''min-'' @ dimn then get_prop st sp
            else if k = sp then JUndef else get_prop st k)
      else get_prop st k)"
  by (simp add: firm_style_def Let_def)

lemma fireEvent_addEvent_any:
  "fireEvent d (addEvent noop c b a es) =
     (if b \<noteq> noop \<and> removeOn d = removeOn c then arr_include (=) b (fireEvent d es) else fireEvent d es)"
  by (cases "b = noop") (simp_all add: fireEvent_addEvent, simp add: addEvent_def)

lemma fire_add_listener:
  assumes "removeOn key = key"
  shows "fireEvent key (add_listener (k, v) es) =
     (case v of
        JFun f \<Rightarrow> if map_of CIEvent k \<noteq> None \<and> f \<noteq> [] \<and> removeOn k = key
                  then arr_include (=) f (fireEvent key es) else fireEvent key es
      | _ \<Rightarrow> fireEvent key es)"
  using assms by (auto simp: add_listener_def fireEvent_addEvent_any split: jsval.splits)

lemma CIEvent_removeOn: "map_of CIEvent k \<noteq> None \<Longrightarrow> removeOn k = k"
  by (auto simp: CIEvent_def removeOn_def split: if_splits)

lemma fire_listeners:
  assumes "removeOn key = key"
  shows "set (fireEvent key (fold add_listener opts es)) =
     set (fireEvent key es) \<union> {f. (key, JFun f) \<in> set opts \<and> map_of CIEvent key \<noteq> None \<and> f \<noteq> []}"
proof (induction opts arbitrary: es)
  case (Cons kv opts)
  obtain k v where kv: "kv = (k, v)" by (cases kv)
  have "set (fireEvent key (add_listener (k, v) es)) =
      set (fireEvent key es) \<union> {f. (key, JFun f) = (k, v) \<and> map_of CIEvent key \<noteq> None \<and> f \<noteq> []}"
    using fire_add_listener [OF assms, of k v es] CIEvent_removeOn [of k] assms
    by (cases v) (auto split: if_splits)
  with Cons kv show ?case by auto
qed simp

subsection \<open>Properties\<close>

text \<open>Property C30. Objects made one after the other have different identifiers, whatever classes they
  name, also when class names end in digits: no two components share an element of the page.\<close>

theorem object_ids_unique:
  assumes "make_objects tys c = (obs, c')"
  shows "distinct (map cid obs) \<and> length obs = length tys"
proof -
  have ids: "map objectId obs = [Suc c..<Suc c + length tys]" using make_objects_ids [OF assms] by simp
  then have d: "distinct (map objectId obs)" by simp
  have c: "cid x = className x @ ''_'' @ nat_digits (objectId x)" if "x \<in> set obs" for x
    using make_objects_cid [OF assms] that by (auto simp: list_all_iff)
  have "objectId x = objectId y" if "x \<in> set obs" "y \<in> set obs" "cid x = cid y" for x y
    using cid_number [of "className x" "objectId x" "className y" "objectId y"] c that by presburger
  with d have "distinct (map cid obs)" unfolding distinct_map inj_on_def by blast
  moreover have "length (map objectId obs) = length tys" unfolding ids by (simp del: upt_Suc)
  ultimately show ?thesis by simp
qed

theorem object_ids_unique_witness:
  "distinct (map cid (fst (make_objects [''CIView'', ''CIView_1'', ''CIView''] 0)))"
  using object_ids_unique [of "[''CIView'', ''CIView_1'', ''CIView'']" 0
      "fst (make_objects [''CIView'', ''CIView_1'', ''CIView''] 0)"
      "snd (make_objects [''CIView'', ''CIView_1'', ''CIView''] 0)"]
  by simp

text \<open>After \<open>synthesize\<close> every property named has the configured value, or its default
  when none is configured (\<open>null\<close> counts as none), and the other fields are as they were.\<close>

lemma synthesize_values:
  "get_prop (slots (synthesize ps conf0 ob)) k =
     (case map_of (synth_defaults ps) k of
        None \<Rightarrow> get_prop (slots ob) k
      | Some v \<Rightarrow> if nullish (get_prop conf0 k) then v else get_prop conf0 k)"
  by (rule synthesize_get)

text \<open>\<open>set\<close> changes exactly the property named, and only when the new value differs
  (\<open>==\<close>) from the old one; then it fires two events, the first with the old value. The second is
  documented to carry the old value too, but carries the new value twice.\<close>

lemma object_set_events:
  assumes "object_set p v ob = (ob', evs, ret)"
  shows "if js_eq (get_prop (slots ob) p) v then ob' = ob \<and> evs = [] \<and> \<not> ret
         else ret \<and> (\<forall>k. get_prop (slots ob') k = (if k = p then v else get_prop (slots ob) k)) \<and>
              evs = [(''PropertyChanging'', [JStr p, v, get_prop (slots ob) p]),
                     (''PropertyChanged'', [JStr p, v, v])]"
  using assms by (auto simp: object_set_def Let_def split: if_splits)

text \<open>\<open>interpretStyles\<close> replaces \<open>CIFirmWidth\<close> and \<open>CIFirmHeight\<close> by the three
  dimensions each stands for and \<open>CIScrollAtHeight\<close> by a maximal height with a scroll bar; it leaves
  every other style alone, and the special names do not reach the page.\<close>

lemma interpretStyles_spec:
  "get_prop (interpretStyles st) k =
     (let w = get_prop st ''CIFirmWidth''; h = get_prop st ''CIFirmHeight''; s = get_prop st ''CIScrollAtHeight''
      in if truthy s \<and> k = ''overflow'' then JStr ''auto''
         else if truthy s \<and> k = ''max-height'' then s
         else if truthy h \<and> k \<in> {''height'', ''max-height'', ''min-height''} then h
         else if truthy w \<and> k \<in> {''width'', ''max-width'', ''min-width''} then w
         else if k \<in> {''CIFirmWidth'', ''CIFirmHeight'', ''CIScrollAtHeight''} \<and> truthy (get_prop st k) then JUndef
         else get_prop st k)"
  by (auto simp: interpretStyles_def Let_def firm_style_get)

text \<open>Property C38. Encoding entities leaves no character that opens a tag or closes an attribute, and
  decoding gives the text back, unless the text itself holds one of the entities for \<open><\<close>, \<open>>\<close> or
  the quote.\<close>

theorem entities_roundtrip:
  assumes "index_of s ''&lt;'' = None" "index_of s ''&gt;'' = None" "index_of s ''&quot;'' = None"
  shows "withEntityCharsDecoded (withEntityCharsEncoded s) = s \<and>
         set (withEntityCharsEncoded s) \<inter> {CHR ''<'', CHR ''>'', CHR 0x22} = {}"
  using decode_encode_eq [OF assms] encoded_chars by blast

theorem entities_roundtrip_witness:
  "withEntityCharsDecoded (withEntityCharsEncoded ''a < b &amp; c'') = ''a < b &amp; c''"
  using entities_roundtrip [of "''a < b &amp; c''"] by (simp add: starts_at_def)

text \<open>Decoding resolves \<open>&amp;\<close> first, so a text that holds an entity is decoded twice:
  an encoded \<open>&lt;\<close> comes back as \<open><\<close>.\<close>

lemma entities_decoded_twice:
  "withEntityCharsDecoded (withEntityCharsEncoded (''&lt;'' @ s)) =
   withEntityCharsDecoded (withEntityCharsEncoded (''<'' @ s))"
  by (simp add: withEntityCharsDecoded_def encoded_eq dollar_S_def entity_map_def starts_at_def)

text \<open>A handler configured under the name \<open>Unselected\<close> is never called: it is registered
  under that name, while the constant \<open>CIEvent.Unselected\<close> that components fire is
  \<open>Deselected\<close>.\<close>

lemma unselected_never_fires:
  assumes "object_new (JObj opts) c = (ob, c')" "distinct (map fst opts)" "(''Deselected'', JFun f) \<notin> set opts"
  shows "f \<notin> set (fireEvent (the (map_of CIEvent ''Unselected'')) (listeners ob))"
proof -
  have "(''Deselected'', JFun f) \<notin> set (hash_new opts)"
  proof
    assume "(''Deselected'', JFun f) \<in> set (hash_new opts)"
    then have "map_of (hash_new opts) ''Deselected'' = Some (JFun f)" by simp
    then have "map_of opts ''Deselected'' = Some (JFun f)"
      using assms(2) by (simp add: map_of_hash_new map_of_rev_distinct)
    with assms(3) show False by (auto dest: map_of_SomeD)
  qed
  moreover have "the (map_of CIEvent ''Unselected'') = ''Deselected''" by (simp add: CIEvent_def)
  moreover have "fireEvent ''Deselected'' no_events = ([]::string list)"
    by (simp add: fireEvent_def handlers_of_def no_events_def)
  moreover have "listeners ob = fold add_listener (hash_new opts) no_events"
    using assms(1) by (auto simp: object_new_def nextId_def Let_def)
  moreover have "removeOn ''Deselected'' = ''Deselected''" by (simp add: removeOn_def)
  ultimately show ?thesis
    using fire_listeners [of "''Deselected''" "hash_new opts" no_events] by simp
qed

end
