(* ===== verification/CI_View.thy ===== *)
theory CI_View
  imports CI_Object
begin

section \<open>Elements and views\<close>

text \<open>
  Elements as trees (tag, attributes, children) for the components that draw themselves, and the
  visibility of a view: \<open>CIView.show\<close>, \<open>hide\<close> and \<open>toggle\<close> work on the \<open>display\<close> style of the
  view's element and remember it in the element's storage.
\<close>

subsection \<open>Elements\<close>

datatype dom = Node string props "dom list"

fun dom_tag :: "dom \<Rightarrow> string" where
  "dom_tag (Node t as cs) = t"

fun dom_attrs :: "dom \<Rightarrow> props" where
  "dom_attrs (Node t as cs) = as"

fun dom_children :: "dom \<Rightarrow> dom list" where
  "dom_children (Node t as cs) = cs"

definition attr :: "string \<Rightarrow> dom \<Rightarrow> jsval" where
  "attr k e = get_prop (dom_attrs e) k"

text \<open>\<open>adopt\<close> appends a child; the nodes of a tree in document order.\<close>

fun adopt :: "dom \<Rightarrow> dom \<Rightarrow> dom" where
  "adopt (Node t as cs) c = Node t as (cs @ [c])"

fun dom_nodes :: "dom \<Rightarrow> dom list" where
  "dom_nodes (Node t as cs) = Node t as cs # concat (map dom_nodes cs)"

subsection \<open>Visibility of a view\<close>

text \<open>The \<open>display\<close> style of the element and what \<open>hide\<close> stored; a view that is not on the page has no
  element.\<close>

record visibility =
  display :: string
  stored :: "string option"

definition view_show :: "string option \<Rightarrow> visibility option \<Rightarrow> visibility option" where
  "view_show d elem =
     (case elem of
        None \<Rightarrow> None
      | Some e \<Rightarrow>
          let d1 = (case d of Some x \<Rightarrow> Some x | None \<Rightarrow> stored e)
          in Some (e\<lparr>display := (case d1 of None \<Rightarrow> ''block'' | Some x \<Rightarrow> if x = [] then ''block'' else x)\<rparr>))"

definition view_hide :: "visibility option \<Rightarrow> visibility option" where
  "view_hide elem =
     (case elem of None \<Rightarrow> None | Some e \<Rightarrow> Some (e\<lparr>stored := Some (display e), display := ''none''\<rparr>))"

definition view_toggle :: "visibility option \<Rightarrow> visibility option" where
  "view_toggle elem =
     (case elem of
        None \<Rightarrow> None
      | Some e \<Rightarrow> if display e = ''none'' then view_show None elem else view_hide elem)"

definition visible :: "visibility option \<Rightarrow> bool" where
  "visible elem = (case elem of None \<Rightarrow> False | Some e \<Rightarrow> display e \<noteq> ''none'')"

subsection \<open>CIElement and CIIndicator\<close>

text \<open>\<open>$E\<close>: an element with content, or without, so that an empty tag stays empty.\<close>

definition element_make :: "string \<Rightarrow> string option \<Rightarrow> string \<Rightarrow> dom" where
  "element_make tag html elem_id =
     Node tag (moo_extend [(''id'', JStr elem_id)]
       (case html of None \<Rightarrow> [] | Some h \<Rightarrow> if h = [] then [] else [(''html'', JStr h)])) []"

text \<open>The indicator is hidden when it is drawn.\<close>

definition indicator_element :: "string \<Rightarrow> string \<Rightarrow> props \<Rightarrow> jsval \<Rightarrow> string \<Rightarrow> dom" where
  "indicator_element elem_id cls styles img alt =
     Node ''div''
       [(''id'', JStr elem_id), (''class'', JStr (''CIIndicator '' @ cls)),
        (''styles'', JObj (AList.update ''display'' (JStr ''none'') styles))]
       [Node ''img'' [(''src'', img), (''alt'', JStr alt), (''title'', JStr alt)] []]"

definition indicator_drawn :: "visibility option" where
  "indicator_drawn = Some \<lparr>display = ''none'', stored = None\<rparr>"

subsection \<open>Lemmas\<close>

lemma hide_invisible [simp]: "\<not> visible (view_hide e)"
  by (simp add: visible_def view_hide_def split: option.splits)

text \<open>Hiding what is already hidden stores \<open>none\<close>; from then on nothing but an explicit mode shows the
  view.\<close>

definition stuck :: "visibility option \<Rightarrow> bool" where
  "stuck elem = (case elem of None \<Rightarrow> False | Some e \<Rightarrow> display e = ''none'' \<and> stored e = Some ''none'')"

lemma stuck_hide: "stuck e \<Longrightarrow> stuck (view_hide e)"
  by (auto simp: stuck_def view_hide_def split: option.splits)

lemma stuck_show: "stuck e \<Longrightarrow> stuck (view_show None e)"
  by (auto simp: stuck_def view_show_def split: option.splits)

lemma stuck_invisible: "stuck e \<Longrightarrow> \<not> visible e"
  by (auto simp: stuck_def visible_def split: option.splits)

lemma hide_hide_stuck: "e \<noteq> None \<Longrightarrow> stuck (view_hide (view_hide e))"
  by (auto simp: stuck_def view_hide_def)

lemma show_hide: "visible e \<Longrightarrow> display (the e) \<noteq> [] \<Longrightarrow> display (the (view_show None (view_hide e))) = display (the e)"
  by (auto simp: visible_def view_show_def view_hide_def split: option.splits)

end
