(* ===== verification/CI_Request.thy ===== *)
theory CI_Request
  imports CI_View "HOL-Library.Multiset"
begin

section \<open>Requests\<close>

text \<open>
  \<open>CIRequest\<close> wraps MooTools' \<open>Request.JSON\<close>; \<open>CIRequestable\<close> gives a component a request whose
  events it passes on. The model has the configuration of the methods, the parameters a request is
  sent with, what goes over the wire (\<open>Request.send\<close>), and what happens when the response arrives:
  the calls to the indicator and the events fired, in order. A response is its status and, when
  it is a success, the decoded body, or the error the decoder raised.

  Several requests may be in flight at once: the step relation \<open>traffic\<close> interleaves sending and
  completion.
\<close>

subsection \<open>Configuration\<close>

text \<open>\<open>$lambda\<close>: a function stays itself, any other value becomes a constant function. A configured
  entry is such a function of the arguments object, or absent.\<close>

type_synonym lazy = "(jsval \<Rightarrow> jsval) option"

record method_config =
  mc_urlFn :: lazy
  mc_url :: lazy
  mc_params :: lazy
  mc_paramsFn :: lazy

datatype request_config = UrlOnly string | Config method_config

record 'o cirequest =
  endpoints :: "(string \<times> ((jsval \<Rightarrow> jsval) \<times> (jsval \<Rightarrow> jsval))) list"
  forwarders :: "'o list"
  has_indicator :: bool

definition isValidHTTPMethod :: "string \<Rightarrow> bool" where
  "isValidHTTPMethod method = (method \<in> set [''get'', ''post'', ''put'', ''head'', ''delete''])"

definition first_of :: "lazy \<Rightarrow> lazy \<Rightarrow> jsval \<Rightarrow> jsval \<Rightarrow> jsval" where
  "first_of a b dflt = (case a of Some f \<Rightarrow> f | None \<Rightarrow> (case b of Some g \<Rightarrow> g | None \<Rightarrow> (\<lambda>_. dflt)))"

definition add_endpoint :: "string \<times> request_config \<Rightarrow>
    (string \<times> ((jsval \<Rightarrow> jsval) \<times> (jsval \<Rightarrow> jsval))) list \<Rightarrow>
    (string \<times> ((jsval \<Rightarrow> jsval) \<times> (jsval \<Rightarrow> jsval))) list" where
  "add_endpoint mc eps =
     (case mc of (m0, config) \<Rightarrow>
        let method = (if m0 = ''destroy'' then ''delete'' else m0);
            c = (case config of
                   UrlOnly u \<Rightarrow> \<lparr>mc_urlFn = None, mc_url = Some (\<lambda>_. JStr u), mc_params = Some (\<lambda>_. JObj []), mc_paramsFn = None\<rparr>
                 | Config c \<Rightarrow> c)
        in if \<not> isValidHTTPMethod method then eps
           else AList.update method
                  (first_of (mc_urlFn c) (mc_url c) JUndef, first_of (mc_params c) (mc_paramsFn c) (JObj [])) eps)"

definition request_new :: "(string \<times> request_config) list \<Rightarrow> 'o cirequest" where
  "request_new options =
     \<lparr>endpoints = fold add_endpoint (hash_new options) [], forwarders = [], has_indicator = False\<rparr>"

definition can :: "string \<Rightarrow> 'o cirequest \<Rightarrow> bool" where
  "can method r = (map_of (endpoints r) method \<noteq> None)"

definition bindToIndicator :: "'o cirequest \<Rightarrow> 'o cirequest" where
  "bindToIndicator r = r\<lparr>has_indicator := True\<rparr>"

definition forwardEventsTo :: "'o \<Rightarrow> 'o cirequest \<Rightarrow> 'o cirequest" where
  "forwardEventsTo tgt r =
     (if arr_contains (=) (forwarders r) tgt then r else r\<lparr>forwarders := forwarders r @ [tgt]\<rparr>)"

subsection \<open>The wire\<close>

record wire =
  w_verb :: string
  w_target :: string
  w_body :: "string option"
  w_form :: bool

text \<open>\<open>Request.send\<close> with the default options: \<open>put\<close> and \<open>delete\<close> travel as \<open>post\<close> with a
  \<open>_method\<close> parameter, and the data of a \<open>get\<close> goes into the address.\<close>

definition request_send :: "string \<Rightarrow> string \<Rightarrow> props \<Rightarrow> wire" where
  "request_send method url0 data =
     (let f0 = toQueryString data;
          emulate = (method \<in> set [''put'', ''delete'']);
          g = ''_method='' @ method;
          f1 = (if emulate then (if f0 \<noteq> [] then g @ ''&'' @ f0 else g) else f0);
          a = (if emulate then ''post'' else method);
          in_url = (f1 \<noteq> [] \<and> a = ''get'')
      in \<lparr>w_verb = map to_upper_char a,
          w_target = (if in_url then url0 @ (if str_contains url0 ''?'' then ''&'' else ''?'') @ f1 else url0),
          w_body = (if in_url then None else Some f1),
          w_form = (a = ''post'')\<rparr>)"

subsection \<open>Sending\<close>

datatype ('o) act =
    ShowIndicator
  | HideIndicator
  | Fire string
  | Forward 'o string

text \<open>The parameters: those of the call, then those of the method, then the application's; each
  group is stored over the one before, through \<open>Hash.set\<close>. A call parameter named like a method of
  the hash that is needed next hides it.\<close>

definition request_params :: "props \<Rightarrow> jsval \<Rightarrow> props \<Rightarrow> js_error + props" where
  "request_params moreParams own baseParams =
     (let p0 = hash_new moreParams;
          p1 = hash_extend p0 (case own of JObj p \<Rightarrow> p | _ \<Rightarrow> [])
      in if map_of p1 ''extend'' \<noteq> None \<or> map_of p1 ''getClean'' \<noteq> None then Inl TypeError
         else Inr (hash_extend p1 baseParams))"

text \<open>\<open>send\<close>: what goes over the wire and what is done before. Nothing is sent for a method that was
  not configured.\<close>

definition ci_send :: "props \<Rightarrow> string option \<Rightarrow> props \<Rightarrow> jsval \<Rightarrow> 'o cirequest \<Rightarrow>
    js_error + wire \<times> 'o act list" where
  "ci_send baseParams method0 moreParams argsObject r =
     (let method = (case method0 of None \<Rightarrow> ''get'' | Some [] \<Rightarrow> ''get'' | Some m \<Rightarrow> m)
      in case map_of (endpoints r) method of
           None \<Rightarrow> Inl TypeError
         | Some (uf, pf) \<Rightarrow>
             bindE (request_params moreParams (pf argsObject) baseParams) (\<lambda>ps.
               Inr (request_send method (to_string (uf argsObject)) ps,
                    if has_indicator r then [ShowIndicator] else [])))"

subsection \<open>The response\<close>

record response =
  r_status :: nat
  r_decoded :: "js_error + jsval"

definition isSuccess :: "nat \<Rightarrow> bool" where
  "isSuccess s = (200 \<le> s \<and> s < 300)"

definition fireAndForward :: "string \<Rightarrow> 'o cirequest \<Rightarrow> 'o act list" where
  "fireAndForward event r = Fire event # map (\<lambda>t. Forward t event) (forwarders r)"

definition hide_indicator :: "'o cirequest \<Rightarrow> 'o act list" where
  "hide_indicator r = (if has_indicator r then [HideIndicator] else [])"

definition onComplete :: "'o cirequest \<Rightarrow> 'o act list" where
  "onComplete r = hide_indicator r @ fireAndForward ''RequestedData'' r"

definition onSuccess :: "string \<Rightarrow> 'o cirequest \<Rightarrow> 'o act list" where
  "onSuccess method r =
     (if method = ''get'' then fireAndForward ''GotData'' r
      else if method = ''post'' then fireAndForward ''PostedData'' r
      else if method = ''delete'' then fireAndForward ''DeletedData'' r
      else if method = ''put'' then fireAndForward ''PutData'' r
      else [])"

definition onFailure :: "'o cirequest \<Rightarrow> 'o act list" where
  "onFailure r = hide_indicator r @ [Fire ''RequestFailed'']"

text \<open>\<open>onStateChange\<close> of the finished request: \<open>complete\<close> is fired before \<open>success\<close> or \<open>failure\<close>;
  when the decoder throws, nothing is fired.\<close>

definition onStateChange :: "string \<Rightarrow> response \<Rightarrow> 'o cirequest \<Rightarrow> js_error + 'o act list" where
  "onStateChange method resp r =
     (if isSuccess (r_status resp)
      then bindE (r_decoded resp) (\<lambda>_. Inr (onComplete r @ onSuccess method r))
      else Inr (onComplete r @ onFailure r))"

subsection \<open>CIRequestable\<close>

text \<open>The methods a component's configuration gives to its request, and the events of the request
  the component fires itself.\<close>

definition requestable_methods :: "string list \<Rightarrow> string list" where
  "requestable_methods allowed =
     (if allowed = [] then [''get'', ''post'', ''delete'', ''put'', ''destroy''] else allowed)"

definition makeRequestable :: "string list \<Rightarrow> (string \<times> request_config) list \<Rightarrow> 'o cirequest" where
  "makeRequestable allowed configuration =
     request_new (fold (\<lambda>m acc. case map_of configuration m of
        None \<Rightarrow> acc | Some c \<Rightarrow> AList.update m c acc) (requestable_methods allowed) [])"

definition passed_events :: "string list" where
  "passed_events = [''RequestedData'', ''RequestFailed'', ''GotData'', ''PostedData'', ''DeletedData'', ''PutData'']"

definition component_events :: "'o act list \<Rightarrow> string list" where
  "component_events acts = concat (map (\<lambda>a. case a of Fire e \<Rightarrow> if e \<in> set passed_events then [e] else [] | _ \<Rightarrow> []) acts)"

subsection \<open>Requests in flight\<close>

text \<open>The methods of the requests in flight, and the element of the shared indicator.\<close>

record network =
  net_pending :: "string multiset"
  net_indicator :: "visibility option"

definition indicator_act :: "visibility option \<Rightarrow> 'o act \<Rightarrow> visibility option" where
  "indicator_act e a = (case a of ShowIndicator \<Rightarrow> view_show None e | HideIndicator \<Rightarrow> view_hide e | _ \<Rightarrow> e)"

definition indicator_after :: "'o act list \<Rightarrow> visibility option \<Rightarrow> visibility option" where
  "indicator_after acts e = foldl indicator_act e acts"

inductive traffic :: "props \<Rightarrow> 'o cirequest \<Rightarrow> network \<Rightarrow> network \<Rightarrow> bool" for base r where
  t_send: "ci_send base (Some m) extra args r = Inr (w, acts) \<Longrightarrow>
     traffic base r net (net\<lparr>net_pending := add_mset m (net_pending net), net_indicator := indicator_after acts (net_indicator net)\<rparr>)"
| t_done: "m \<in># net_pending net \<Longrightarrow> onStateChange m resp r = Inr acts \<Longrightarrow>
     traffic base r net (net\<lparr>net_pending := net_pending net - {#m#}, net_indicator := indicator_after acts (net_indicator net)\<rparr>)"

subsection \<open>Lemmas\<close>

lemma indicator_after_append [simp]:
  "indicator_after (as @ bs) e = indicator_after bs (indicator_after as e)"
  by (simp add: indicator_after_def)

lemma indicator_after_fire [simp]: "indicator_after (fireAndForward ev r) e = e"
proof -
  have "foldl (\<lambda>b a. b) e xs = e" for e :: "visibility option" and xs :: "'c list" by (induction xs) auto
  then show ?thesis by (simp add: fireAndForward_def indicator_after_def indicator_act_def foldl_map)
qed

lemma indicator_after_hide [simp]:
  "indicator_after (hide_indicator r) e = (if has_indicator r then view_hide e else e)"
  by (simp add: hide_indicator_def indicator_after_def indicator_act_def)

lemma indicator_after_success [simp]: "indicator_after (onSuccess m r) e = e"
  by (simp add: onSuccess_def) (simp add: indicator_after_def)

lemma indicator_after_done:
  "onStateChange m resp r = Inr acts \<Longrightarrow>
   indicator_after acts e =
     (if has_indicator r then (if isSuccess (r_status resp) then view_hide e else view_hide (view_hide e)) else e)"
proof -
  have "indicator_after [Fire ''RequestFailed'' :: 'a act] e' = e'" for e'
    by (simp add: indicator_after_def indicator_act_def)
  then show "onStateChange m resp r = Inr acts \<Longrightarrow> ?thesis"
    by (auto simp: onStateChange_def onComplete_def onFailure_def err_simps split: if_splits)
qed

lemma distinct_hash_extend: "distinct (map fst h) \<Longrightarrow> distinct (map fst (hash_extend h a))"
  by (simp add: hash_extend_eq hash.invar_put_all)

lemma request_params_lookup:
  assumes "request_params extra own base = Inr ps" "distinct (map fst base)"
    and "list_all (\<lambda>(k, v). k \<notin> set hash_proto) base" "map_of base k = Some v"
  shows "map_of ps k = Some v"
proof -
  let ?p1 = "hash_extend (hash_new extra) (case own of JObj p \<Rightarrow> p | _ \<Rightarrow> [])"
  have "ps = hash_extend ?p1 base"
    using assms(1) by (auto simp: request_params_def Let_def split: if_splits)
  moreover have "distinct (map fst ?p1)" by (simp add: distinct_hash_extend)
  ultimately show ?thesis
    using assms(2-) by (simp add: map_of_hash_extend map_of_rev_distinct)
qed

lemma map_of_hash_extend_proto:
  "k \<in> set hash_proto \<Longrightarrow> map_of h k = None \<Longrightarrow> map_of (hash_extend h a) k = None"
proof (induction a arbitrary: h)
  case (Cons kv a)
  obtain k0 v0 where kv: "kv = (k0, v0)" by (cases kv)
  have "map_of (hash_set k0 v0 h) k = None"
    using Cons.prems by (auto simp: hash_set_def update_conv)
  with Cons kv show ?case by (simp add: hash_extend_def)
qed (simp add: hash_extend_def)

lemma component_events_append [simp]:
  "component_events (as @ bs) = component_events as @ component_events bs"
  by (simp add: component_events_def)

lemma component_events_hide [simp]: "component_events (hide_indicator r) = []"
  by (simp add: component_events_def hide_indicator_def)

lemma component_events_fire [simp]:
  "component_events (fireAndForward e r) = (if e \<in> set passed_events then [e] else [])"
  by (simp add: component_events_def fireAndForward_def comp_def)

lemma request_params_total:
  "map_of (hash_new extra) ''extend'' = None \<Longrightarrow> map_of (hash_new extra) ''getClean'' = None \<Longrightarrow>
   \<exists>ps. request_params extra own base = Inr ps"
  by (simp add: request_params_def Let_def map_of_hash_extend_proto hash_proto_def)

definition no_traffic :: network where
  "no_traffic = \<lparr>net_pending = {#}, net_indicator = indicator_drawn\<rparr>"

lemma indicator_after_send:
  "ci_send base m extra args r = Inr (w, acts) \<Longrightarrow>
   indicator_after acts e = (if has_indicator r then view_show None e else e)"
  by (auto simp: ci_send_def Let_def err_simps indicator_after_def indicator_act_def split: option.splits)

interpretation network: machine "\<lambda>net. net = no_traffic" "traffic base r"
  "\<lambda>net. (net_pending net = {#} \<longrightarrow> \<not> visible (net_indicator net)) \<and>
         (visible (net_indicator net) \<longrightarrow> has_indicator r)" for base r
proof
  fix s t :: network
  assume inv: "(net_pending s = {#} \<longrightarrow> \<not> visible (net_indicator s)) \<and> (visible (net_indicator s) \<longrightarrow> has_indicator r)"
  assume "traffic base r s t"
  then show "(net_pending t = {#} \<longrightarrow> \<not> visible (net_indicator t)) \<and> (visible (net_indicator t) \<longrightarrow> has_indicator r)"
    by cases (use inv in \<open>auto simp: indicator_after_done indicator_after_send split: if_splits\<close>)
qed (auto simp: no_traffic_def indicator_drawn_def visible_def)

text \<open>Traffic keeps an indicator that was hidden twice in a row out of sight.\<close>

lemma traffic_stuck:
  "(traffic base r)\<^sup>*\<^sup>* s t \<Longrightarrow> stuck (net_indicator s) \<Longrightarrow> stuck (net_indicator t)"
proof (induction rule: rtranclp_induct)
  case (step t u)
  from step.hyps(2) step.IH [OF step.prems] show ?case
    by cases (auto simp: indicator_after_done indicator_after_send stuck_hide stuck_show)
qed simp

subsection \<open>Properties\<close>

text \<open>Property C18. A request is sent with the call's parameters overridden by the method's, and these
  by the application's; so every request, whatever its caller passes, carries the application's
  parameters (the authenticity token), with the application's values.\<close>

theorem request_param_precedence:
  assumes "ci_send base (Some m) extra args r = Inr (w, acts)" "m \<noteq> []"
    and "map_of (endpoints r) m = Some (uf, pf)" "pf args = JObj own"
    and "distinct (map fst extra)" "distinct (map fst own)" "distinct (map fst base)"
    and "list_all (\<lambda>(k, v). k \<notin> set hash_proto) own" "list_all (\<lambda>(k, v). k \<notin> set hash_proto) base"
  shows "\<exists>ps. w = request_send m (to_string (uf args)) ps \<and>
           map_of ps = map_of extra ++ map_of own ++ map_of base"
proof -
  have "case_option ''get'' (case_list ''get'' (\<lambda>a l. m)) (Some m) = m"
    using assms(2) by (cases m) auto
  then obtain ps where ps: "request_params extra (JObj own) base = Inr ps"
      "w = request_send m (to_string (uf args)) ps"
    using assms(1-4) by (cases m) (auto simp: ci_send_def Let_def err_simps)
  then have "ps = hash_extend (hash_extend (hash_new extra) own) base"
    by (auto simp: request_params_def Let_def split: if_splits)
  with assms(5-) have "map_of ps = map_of extra ++ map_of own ++ map_of base"
    by (simp add: map_of_hash_extend distinct_hash_extend map_of_rev_distinct map_of_hash_new)
  with ps show ?thesis by blast
qed

definition sample_request :: "nat cirequest" where
  "sample_request = bindToIndicator (request_new
     [(''get'', UrlOnly ''/admin/list''),
      (''destroy'', Config \<lparr>mc_urlFn = Some (\<lambda>a. a), mc_url = None, mc_params = Some (\<lambda>_. JObj [(''id'', JNum 7)]),
                            mc_paramsFn = None\<rparr>)])"

lemma sample_endpoints:
  "map_of (endpoints sample_request) ''get'' = Some (\<lambda>_. JStr ''/admin/list'', \<lambda>_. JObj [])"
  "map_of (endpoints sample_request) ''delete'' = Some (\<lambda>a. a, \<lambda>_. JObj [(''id'', JNum 7)])"
  "map_of (endpoints sample_request) ''post'' = None" "has_indicator sample_request"
  by (simp_all add: sample_request_def bindToIndicator_def request_new_def hash_new_def add_endpoint_def
      isValidHTTPMethod_def first_of_def Let_def)

lemma sample_send:
  "ci_send [(''token'', JStr ''x'')] (Some ''delete'') [(''token'', JStr ''y'')] (JStr ''/d'') sample_request =
     Inr (request_send ''delete'' ''/d'' [(''token'', JStr ''x''), (''id'', JNum 7)], [ShowIndicator])"
  by (simp add: ci_send_def Let_def sample_endpoints request_params_def hash_extend_def hash_new_def
      hash_set_def hash_proto_def)

theorem request_param_precedence_witness:
  "\<exists>ps. request_send ''delete'' ''/d'' [(''token'', JStr ''x''), (''id'', JNum 7)] = request_send ''delete'' ''/d'' ps \<and>
     map_of ps ''token'' = Some (JStr ''x'')"
  using request_param_precedence [OF sample_send _ sample_endpoints(2)]
  by (fastforce simp: hash_proto_def)

text \<open>A method parameter whose name is also the name of a method of \<open>Hash\<close> (\<open>filter\<close>,
  \<open>map\<close>, \<open>get\<close>, ...) is dropped from the request without an error.\<close>

lemma proto_param_dropped:
  assumes "request_params extra own base = Inr ps" "k \<in> set hash_proto" "k \<notin> fst ` set extra"
  shows "map_of ps k = None"
proof -
  have "map_of (hash_new extra) k = None"
    using assms(3) by (simp add: map_of_hash_new map_of_eq_None_iff)
  then show ?thesis
    using assms(1,2) by (auto simp: request_params_def Let_def map_of_hash_extend_proto split: if_splits)
qed

text \<open>Property C19. What a component hears of a finished request: \<open>RequestedData\<close> first, then exactly
  one event that tells the outcome, by method for a success; the indicator is hidden before anything
  is fired.\<close>

theorem response_events:
  assumes "onStateChange m resp r = Inr acts" "m \<in> {''get'', ''post'', ''put'', ''delete''}"
  shows "component_events acts =
           [''RequestedData'',
            if isSuccess (r_status resp)
            then the (map_of [(''get'', ''GotData''), (''post'', ''PostedData''), (''put'', ''PutData''),
                              (''delete'', ''DeletedData'')] m)
            else ''RequestFailed''] \<and>
         (has_indicator r \<longrightarrow> hd acts = HideIndicator)"
proof -
  have "component_events [Fire ''RequestFailed'' :: 'a act] = [''RequestFailed'']"
    by (simp add: component_events_def passed_events_def)
  then show ?thesis
    using assms
    by (auto simp: onStateChange_def onComplete_def onSuccess_def onFailure_def passed_events_def
        err_simps split: if_splits) (auto simp: hide_indicator_def)
qed

theorem response_events_witness:
  "component_events (onComplete sample_request @ onFailure sample_request) = [''RequestedData'', ''RequestFailed'']"
  using response_events [of "''get''" "\<lparr>r_status = 500, r_decoded = Inl TypeError\<rparr>" sample_request
      "onComplete sample_request @ onFailure sample_request"]
  by (simp add: onStateChange_def isSuccess_def)



text \<open>The converse fails: with an indicator, two overlapping requests reach a state in
  which one is still in flight and the indicator is already hidden.\<close>

lemma indicator_hides_early:
  assumes "map_of (endpoints r) ''get'' = Some ep" "has_indicator r"
  shows "\<exists>net. (traffic base r)\<^sup>*\<^sup>* no_traffic net \<and> net_pending net = {#''get''#} \<and> \<not> visible (net_indicator net)"
proof -
  obtain uf pf where ep: "ep = (uf, pf)" by (cases ep)
  obtain ps where "request_params [] (pf JUndef) base = Inr ps"
    using request_params_total [of "[]" "pf JUndef" base] by (auto simp: hash_new_def)
  then have send: "ci_send base (Some ''get'') [] JUndef r =
      Inr (request_send ''get'' (to_string (uf JUndef)) ps, [ShowIndicator])"
    using assms ep by (simp add: ci_send_def)
  let ?resp = "\<lparr>r_status = 500, r_decoded = Inl TypeError\<rparr>"
  have fin: "onStateChange ''get'' ?resp r = Inr (onComplete r @ onFailure r)"
    by (simp add: onStateChange_def isSuccess_def)
  let ?e1 = "view_show None indicator_drawn"
  let ?n1 = "\<lparr>net_pending = {#''get''#}, net_indicator = ?e1\<rparr>"
  let ?n2 = "\<lparr>net_pending = {#''get'', ''get''#}, net_indicator = view_show None ?e1\<rparr>"
  let ?n3 = "\<lparr>net_pending = {#''get''#}, net_indicator = view_hide (view_hide (view_show None ?e1))\<rparr>"
  have "traffic base r no_traffic ?n1"
    using t_send [OF send, of no_traffic] assms(2) by (simp add: no_traffic_def indicator_after_send [OF send])
  moreover have "traffic base r ?n1 ?n2"
    using t_send [OF send, of ?n1] assms(2) by (simp add: indicator_after_send [OF send])
  moreover have "traffic base r ?n2 ?n3"
    using t_done [of "''get''" ?n2, OF _ fin] assms(2) by (simp add: indicator_after_done [OF fin] isSuccess_def del: indicator_after_append)
  ultimately have "(traffic base r)\<^sup>*\<^sup>* no_traffic ?n3"
    by (meson rtranclp.rtrancl_into_rtrancl rtranclp.rtrancl_refl)
  then show ?thesis by (intro exI [of _ ?n3]) simp
qed

text \<open>Property C34. After one failed request the indicator is never shown again, whatever is sent: on a
  failure it is hidden twice, the second time storing the display mode \<open>none\<close>, which every later
  \<open>show\<close> restores.\<close>

theorem failed_request_kills_indicator:
  assumes "has_indicator r" "m \<in># net_pending net" "net_indicator net \<noteq> None"
    and "\<not> isSuccess (r_status resp)" "onStateChange m resp r = Inr acts"
    and "(traffic base r)\<^sup>*\<^sup>*
      (net\<lparr>net_pending := net_pending net - {#m#}, net_indicator := indicator_after acts (net_indicator net)\<rparr>) net'"
  shows "\<not> visible (net_indicator net')"
proof -
  have "stuck (indicator_after acts (net_indicator net))"
    using assms(1,3-5) by (simp add: indicator_after_done hide_hide_stuck)
  then have "stuck (net_indicator net')" using traffic_stuck [OF assms(6)] by simp
  then show ?thesis by (rule stuck_invisible)
qed

theorem failed_request_kills_indicator_witness:
  "\<not> visible (indicator_after (onComplete sample_request @ onFailure sample_request) (view_show None indicator_drawn))"
  using failed_request_kills_indicator [of sample_request "''get''"
      "\<lparr>net_pending = {#''get''#}, net_indicator = view_show None indicator_drawn\<rparr>"
      "\<lparr>r_status = 500, r_decoded = Inl TypeError\<rparr>" "onComplete sample_request @ onFailure sample_request" "[]"
      "\<lparr>net_pending = {#}, net_indicator = indicator_after (onComplete sample_request @ onFailure sample_request) (view_show None indicator_drawn)\<rparr>"]
  by (simp add: sample_endpoints onStateChange_def isSuccess_def view_show_def indicator_drawn_def)

end
