(* ===== verification/CI_Paginator.thy ===== *)
theory CI_Paginator
  imports CI_Request
begin

section \<open>Pagination and filters\<close>

text \<open>
  \<open>CIPaginator\<close> asks its target for a page of rows and, when a response arrives, draws links to the
  pages; \<open>CIFilterSet\<close> holds the filters whose names go with every such request. Page numbers and
  item counts are integers. A link is drawn with its label and whether it is drawn as the current
  page.
\<close>

subsection \<open>State\<close>

record cifilter =
  filter_name :: string
  filter_src :: string
  filter_activeSrc :: string
  filter_active :: bool
  filter_drawn :: bool

record filterset =
  set_name :: string
  set_filters :: "cifilter list"

datatype page_kind = Numeric | Alpha

record paginator =
  itemsPerPage :: int
  page :: jsval
  itemCount :: "int option"
  pkind :: page_kind
  pfilters :: "filterset option"

definition paginator_new :: "int option \<Rightarrow> page_kind \<Rightarrow> filterset option \<Rightarrow> paginator" where
  "paginator_new perPage k fs =
     \<lparr>itemsPerPage = (case perPage of None \<Rightarrow> 30 | Some n \<Rightarrow> if n = 0 then 30 else n), page = JNum 1,
      itemCount = Some 0, pkind = k, pfilters = fs\<rparr>"

subsection \<open>Drawing the links\<close>

text \<open>The number the code calls \<open>pages\<close>: the whole part of the quotient, plus two when it is not
  exact.\<close>

definition pages_of :: "int \<Rightarrow> int \<Rightarrow> int" where
  "pages_of items per = sgn items * sgn per * (\<bar>items\<bar> div \<bar>per\<bar>) + (if items mod per = 0 then 0 else 2)"

lemma pages_of_pos: "0 < per \<Longrightarrow> pages_of (int n) per = int n div per + (if int n mod per = 0 then 0 else 2)"
  by (cases "n = 0") (simp_all add: pages_of_def)

datatype link = PageLink int bool | LetterLink string bool | Gap string

definition page_width :: "int \<Rightarrow> int" where
  "page_width pages = (if pages < 10 then pages * 30 else if pages \<le> 99 then 450 else if pages \<le> 999 then 550 else 650)"

definition few_links :: "int \<Rightarrow> int option \<Rightarrow> link list" where
  "few_links pages cur = map (\<lambda>i. PageLink i (cur = Some i)) (filter (\<lambda>i. i \<noteq> 0) [0..pages - 1])"

text \<open>A \<open>NaN\<close> (\<open>None\<close>) is neither exceeded nor reached in a comparison.\<close>

definition set_links :: "int option \<Rightarrow> int option \<Rightarrow> nat \<Rightarrow> int \<Rightarrow> int \<Rightarrow> link list" where
  "set_links pages cur setIndex start stop =
     map (\<lambda>i. PageLink i (setIndex = 1 \<and> cur = Some i))
       (filter (\<lambda>i. \<not> (i < 1 \<or> (case pages of None \<Rightarrow> False | Some p \<Rightarrow> i > p))) [start..stop])"

definition many_links :: "int option \<Rightarrow> int option \<Rightarrow> link list" where
  "many_links pages cur =
     set_links pages cur 0 1 3 @ [Gap ''&nbsp;&laquo;&nbsp;&nbsp;'']
     @ (case cur of None \<Rightarrow> [] | Some c \<Rightarrow> set_links pages cur 1 (c - 2) (c + 2)) @ [Gap ''&nbsp;&raquo;&nbsp;&nbsp;'']
     @ (case pages of None \<Rightarrow> [] | Some p \<Rightarrow> set_links pages cur 2 (p - 2) p)"

definition alphabet :: "string list" where
  "alphabet = ''#'' # map (\<lambda>n. [char_of n]) [97..<123::nat]"

definition alpha_links :: "string \<Rightarrow> link list" where
  "alpha_links cur = map (\<lambda>l. LetterLink (map to_upper_char l) (cur = l)) alphabet"

definition page_links :: "int option \<Rightarrow> int option \<Rightarrow> link list" where
  "page_links pages cur =
     (case pages of
        None \<Rightarrow> many_links None cur
      | Some p \<Rightarrow> if p < 10 then few_links p cur else many_links (Some p) cur)"

text \<open>\<open>_onGotData\<close>: the page and the item count of the response, read with \<open>toInt\<close>, which numbers and
  strings have; without a count that is an error. Nothing is done without a body.\<close>

definition int_field :: "jsval \<Rightarrow> js_error + int option" where
  "int_field v =
     (case v of
        JNum r \<Rightarrow> Inr (parseInt (num_to_string r))
      | JNaN \<Rightarrow> Inr None
      | JStr s \<Rightarrow> Inr (parseInt s)
      | _ \<Rightarrow> Inl TypeError)"

definition paginator_onGotData :: "props \<Rightarrow> bool \<Rightarrow> paginator \<Rightarrow> js_error + paginator \<times> link list option" where
  "paginator_onGotData response json pg =
     (if \<not> json then Inr (pg, None)
      else case pkind pg of
        Numeric \<Rightarrow>
          bindE (int_field (js_or (get_prop response ''CIPaginatorPage'') (JNum 1))) (\<lambda>cur.
          bindE (int_field (get_prop response ''CIPaginatorItemCount'')) (\<lambda>items.
            Inr (pg\<lparr>page := num_result cur, itemCount := items\<rparr>,
                 Some (page_links (map_option (\<lambda>n. pages_of n (itemsPerPage pg)) items) cur))))
      | Alpha \<Rightarrow>
          (let cur = js_or (get_prop response ''CIPaginatorPage'') (JStr ''A'')
           in Inr (pg\<lparr>page := cur\<rparr>, Some (alpha_links (to_string cur)))))"

subsection \<open>Filters\<close>

text \<open>The address of the picture of an active filter: the name before the extension is given a suffix.
  An address without an extension of three or four characters is an error.\<close>

definition split_ext :: "string \<Rightarrow> (string \<times> string) option" where
  "split_ext src =
     (let ext = rev (takeWhile (\<lambda>c. c \<noteq> CHR ''.'') (rev src));
          base = rev (drop 1 (dropWhile (\<lambda>c. c \<noteq> CHR ''.'') (rev src)))
      in if CHR ''.'' \<in> set src \<and> base \<noteq> [] \<and> 3 \<le> length ext \<and> length ext \<le> 4 \<and> list_all is_word_char ext
         then Some (base, ext) else None)"

definition filter_setSrc :: "string \<Rightarrow> cifilter \<Rightarrow> js_error + cifilter" where
  "filter_setSrc newSrc f =
     (case split_ext newSrc of
        None \<Rightarrow> Inl TypeError
      | Some (base, ext) \<Rightarrow> Inr (f\<lparr>filter_src := newSrc, filter_activeSrc := base @ ''_active.'' @ ext\<rparr>))"

definition defaultToParam :: "filterset \<Rightarrow> string" where
  "defaultToParam fs = join '','' (map filter_name (filter filter_active (set_filters fs)))"

definition selectPage :: "jsval \<Rightarrow> paginator \<Rightarrow> props" where
  "selectPage pg_no pg =
     (let p = [(''CIPaginatorItemsPerPage'', JNum (of_int (itemsPerPage pg))), (''CIPaginatorPage'', pg_no)]
      in case pfilters pg of
           None \<Rightarrow> p
         | Some fs \<Rightarrow> AList.update (set_name fs) (JStr (defaultToParam fs)) p)"

definition reloadPage :: "paginator \<Rightarrow> props" where
  "reloadPage pg = selectPage (page pg) pg"

text \<open>\<open>setActive\<close> of the filter at a position: once it is drawn, its picture is exchanged and the page is
  loaded again, with the parameters given.\<close>

definition filter_setActive :: "nat \<Rightarrow> bool \<Rightarrow> paginator \<Rightarrow> paginator \<times> string option \<times> props option" where
  "filter_setActive i b pg =
     (case pfilters pg of
        None \<Rightarrow> (pg, None, None)
      | Some fs \<Rightarrow>
          if i < length (set_filters fs) then
            (let f = (set_filters fs ! i)\<lparr>filter_active := b\<rparr>;
                 pg' = pg\<lparr>pfilters := Some (fs\<lparr>set_filters := (set_filters fs)[i := f]\<rparr>)\<rparr>
             in if filter_drawn f
                then (pg', Some (if b then filter_activeSrc f else filter_src f), Some (reloadPage pg'))
                else (pg', None, None))
          else (pg, None, None))"

definition toggleActive :: "nat \<Rightarrow> paginator \<Rightarrow> paginator \<times> string option \<times> props option" where
  "toggleActive i pg =
     (case pfilters pg of
        None \<Rightarrow> (pg, None, None)
      | Some fs \<Rightarrow> filter_setActive i (\<not> filter_active (set_filters fs ! i)) pg)"

subsection \<open>Lemmas\<close>

text \<open>The number of pages the items need.\<close>

definition needed_pages :: "int \<Rightarrow> int \<Rightarrow> int" where
  "needed_pages items per = (items + per - 1) div per"

fun link_page :: "link \<Rightarrow> int option" where
  "link_page (PageLink i _) = Some i"
| "link_page _ = None"

definition linked :: "link list \<Rightarrow> int set" where
  "linked ls = {i. Some i \<in> set (map link_page ls)}"

lemma needed_pages_eq:
  assumes "0 < per"
  shows "needed_pages items per = items div per + (if items mod per = 0 then 0 else 1)"
proof (cases "items mod per = 0")
  case True
  then obtain q where "items = per * q" by auto
  moreover have "(per * q + (per - 1)) div per = q"
    using assms by (subst div_mult_self4) auto
  ultimately show ?thesis using assms by (simp add: needed_pages_def algebra_simps)
next
  case False
  let ?r = "items mod per"
  have "0 \<le> ?r" "?r < per" using assms by simp_all
  with False have r: "0 < ?r" "?r < per" by linarith+
  have "items + per - 1 = (?r - 1) + per * (items div per + 1)"
    using div_mult_mod_eq [of items per] by (simp add: algebra_simps)
  then have "needed_pages items per = ((?r - 1) + per * (items div per + 1)) div per"
    unfolding needed_pages_def by (rule arg_cong)
  also have "\<dots> = (items div per + 1) + (?r - 1) div per"
    using assms by (intro div_mult_self2) simp
  finally show ?thesis using r False by simp
qed

lemma linked_few: "linked (few_links pages cur) = {1..pages - 1}"
  by (auto simp: linked_def few_links_def image_iff)

lemma linked_set: "linked (set_links (Some pages) cur k a b) = {max 1 a..min pages b}"
  by (auto simp: linked_def set_links_def image_iff)

lemma linked_append [simp]: "linked (as @ bs) = linked as \<union> linked bs"
  by (auto simp: linked_def)

lemma linked_gap [simp]: "linked (Gap s # ls) = linked ls" "linked [] = {}"
  by (auto simp: linked_def)

lemma linked_many:
  "linked (many_links (Some pages) (Some cur)) =
     {1..min pages 3} \<union> {max 1 (cur - 2)..min pages (cur + 2)} \<union> {max 1 (pages - 2)..pages}"
  by (auto simp: many_links_def linked_set)

lemma int_field_num [simp]: "int_field (JNum (of_nat n)) = Inr (Some (int n))"
  by (simp add: int_field_def num_to_string_def)

lemma linked_bound:
  assumes "10 \<le> p" "1 \<le> cur" "cur \<le> p"
  shows "linked (many_links (Some p) (Some cur)) \<subseteq> {1..p} \<and> p \<in> linked (many_links (Some p) (Some cur))
         \<and> cur \<in> linked (many_links (Some p) (Some cur))"
  using assms by (auto simp: linked_many)

subsection \<open>Properties\<close>

text \<open>Property C32. The links drawn for a response. With fewer than ten pages they are the pages from one
  on, up to the last page of items when the last page is not full, but only up to the page before
  when all pages are full. With more, the last link is the last page of items when all pages are
  full, and otherwise one page more than there are; the current page is among the links.\<close>

theorem paginator_last_link:
  assumes "pkind pg = Numeric" "0 < itemsPerPage pg"
    and "get_prop resp ''CIPaginatorPage'' = JNum (of_nat cur)" "1 \<le> cur" "int cur \<le> pages_of (int n) (itemsPerPage pg)"
    and "get_prop resp ''CIPaginatorItemCount'' = JNum (of_nat n)"
  shows "\<exists>ls. paginator_onGotData resp True pg =
             Inr (pg\<lparr>page := JNum (of_nat cur), itemCount := Some (int n)\<rparr>, Some ls) \<and>
           (let needed = needed_pages (int n) (itemsPerPage pg); full = (int n mod itemsPerPage pg = 0)
            in if pages_of (int n) (itemsPerPage pg) < 10
               then linked ls = {1..if full then needed - 1 else needed}
               else linked ls \<subseteq> {1..if full then needed else needed + 1} \<and>
                    (if full then needed else needed + 1) \<in> linked ls \<and> int cur \<in> linked ls)"
proof -
  let ?p = "pages_of (int n) (itemsPerPage pg)"
  let ?full = "int n mod itemsPerPage pg = 0"
  have p: "?p = needed_pages (int n) (itemsPerPage pg) + (if ?full then 0 else 1)"
    using assms(2) by (simp add: pages_of_pos needed_pages_eq)
  have "truthy (JNum (of_nat cur))" using assms(4) by simp
  then have "paginator_onGotData resp True pg =
      Inr (pg\<lparr>page := JNum (of_nat cur), itemCount := Some (int n)\<rparr>, Some (page_links (Some ?p) (Some (int cur))))"
    using assms(1,3,6) by (simp add: paginator_onGotData_def js_or_def num_result_def)
  moreover have "linked (page_links (Some ?p) (Some (int cur))) = {1..?p - 1}" if "?p < 10"
    using that by (simp add: page_links_def linked_few)
  moreover have "page_links (Some ?p) (Some (int cur)) = many_links (Some ?p) (Some (int cur))" if "\<not> ?p < 10"
    using that by (simp add: page_links_def)
  ultimately show ?thesis
    using linked_bound [of ?p "int cur"] assms(4,5) p
    by (cases "?p < 10"; cases ?full) (simp_all add: Let_def)
qed

theorem paginator_last_link_witness:
  "\<exists>ls. paginator_onGotData [(''CIPaginatorPage'', JNum (of_nat 1)), (''CIPaginatorItemCount'', JNum (of_nat 60))] True
       (paginator_new None Numeric None) =
       Inr ((paginator_new None Numeric None)\<lparr>page := JNum (of_nat 1), itemCount := Some (int 60)\<rparr>, Some ls) \<and>
     linked ls = {1..1}"
  using paginator_last_link [of "paginator_new None Numeric None"
      "[(''CIPaginatorPage'', JNum (of_nat 1)), (''CIPaginatorItemCount'', JNum (of_nat 60))]" 1 60]
  by (simp add: paginator_new_def get_prop_def pages_of_def needed_pages_def)

text \<open>Switching a drawn filter exchanges its picture and loads the current page again, with
  the names of exactly the active filters, in their order, under the name of the set.\<close>

lemma toggle_filter_reloads:
  assumes "pfilters pg = Some fs" "i < length (set_filters fs)" "filter_drawn (set_filters fs ! i)"
    and "set_name fs \<notin> {''CIPaginatorItemsPerPage'', ''CIPaginatorPage''}"
  shows "\<exists>pg' ps. toggleActive i pg =
             (pg', Some (if filter_active (set_filters fs ! i) then filter_src (set_filters fs ! i)
                         else filter_activeSrc (set_filters fs ! i)), Some ps) \<and>
           get_prop ps ''CIPaginatorPage'' = page pg \<and>
           get_prop ps ''CIPaginatorItemsPerPage'' = JNum (of_int (itemsPerPage pg)) \<and>
           get_prop ps (set_name fs) =
             JStr (join '','' (map filter_name (filter filter_active
               ((set_filters fs)[i := (set_filters fs ! i)\<lparr>filter_active := \<not> filter_active (set_filters fs ! i)\<rparr>]))))"
  using assms
  by (auto simp: toggleActive_def filter_setActive_def Let_def reloadPage_def selectPage_def defaultToParam_def)
    (auto simp: get_prop_def)

end
