(* ===== verification/CI_Autocomplete.thy ===== *)
theory CI_Autocomplete
  imports CI_Request
begin

section \<open>Autocompletion\<close>

text \<open>
  \<open>CIAutocomplete\<close> filters a collection of records by the text of a target field and draws one element
  for each match, with the matching part highlighted. The target's value is a string, as that of a
  text field is. A drawn match is its class, its content and the record stored with it; the overlay
  is the list of the matches, or absent when it is not in the document.
\<close>

subsection \<open>State\<close>

record ac_match =
  m_class :: string
  m_html :: string
  m_record :: jsval

record 'o autocomplete =
  ac_property :: string
  ac_collection :: "jsval list"
  ac_caseSensitive :: bool
  ac_target :: "'o option"
  ac_selected :: jsval
  ac_overlay :: "ac_match list option"
  ac_request :: "'o cirequest"

definition autocomplete_new :: "jsval \<Rightarrow> jsval \<Rightarrow> bool \<Rightarrow> (string \<times> request_config) list \<Rightarrow> 'o autocomplete" where
  "autocomplete_new property collection caseSensitive methods =
     \<lparr>ac_property = to_string (js_or property (JStr ''label'')), ac_collection = splat collection,
      ac_caseSensitive = caseSensitive, ac_target = None, ac_selected = JUndef, ac_overlay = None,
      ac_request = makeRequestable [] methods\<rparr>"

subsection \<open>Filtering\<close>

definition ac_fold :: "bool \<Rightarrow> string \<Rightarrow> string" where
  "ac_fold caseSensitive s = (if caseSensitive then s else to_lower s)"

definition ac_label :: "string \<Rightarrow> jsval \<Rightarrow> js_error + string" where
  "ac_label property item =
     bindE (read_prop item property) (\<lambda>s. Inr (if truthy s then to_string s else []))"

definition highlight_open :: string where
  "highlight_open = ''<span class='' @ [CHR 0x22] @ ''CIAutoCompleteHighlight'' @ [CHR 0x22] @ ''>''"

definition highlight :: "string \<Rightarrow> nat \<Rightarrow> nat \<Rightarrow> string" where
  "highlight s index len =
     take index s @ highlight_open
       @ take len (drop index s) @ ''</span>'' @ drop (index + len) s"

text \<open>The loop from position \<open>i\<close> on; a record that is \<open>null\<close> or \<open>undefined\<close> ends it with an error.\<close>

fun ac_matches :: "bool \<Rightarrow> string \<Rightarrow> string \<Rightarrow> nat \<Rightarrow> jsval list \<Rightarrow> ac_match list \<times> js_error option" where
  "ac_matches cs property query i [] = ([], None)"
| "ac_matches cs property query i (item # items) =
     (case ac_label property item of
        Inl e \<Rightarrow> ([], Some e)
      | Inr s \<Rightarrow>
          (case ac_matches cs property query (Suc i) items of (ms, err) \<Rightarrow>
             (case index_of (ac_fold cs s) query of
                None \<Rightarrow> ms
              | Some index \<Rightarrow>
                  \<lparr>m_class = ''CIAutocompleteResult CIHoverableSkin '' @ (if i mod 2 = 0 then ''CIEvenSkin'' else ''CIOddSkin''),
                   m_html = highlight s index (length query), m_record = item\<rparr> # ms, err)))"

text \<open>\<open>_autocomplete\<close>, run whenever the target changes: the overlay is emptied, or made, and filled.\<close>

definition autocomplete_run :: "string \<Rightarrow> 'o autocomplete \<Rightarrow> 'o autocomplete \<times> js_error option" where
  "autocomplete_run target_value a =
     (case ac_matches (ac_caseSensitive a) (ac_property a) (ac_fold (ac_caseSensitive a) target_value) 0 (ac_collection a) of
        (ms, err) \<Rightarrow> (a\<lparr>ac_overlay := Some ms\<rparr>, err))"

subsection \<open>Requests and clicks\<close>

definition autocomplete_getData :: "props \<Rightarrow> props \<Rightarrow> 'o autocomplete \<Rightarrow> js_error + wire \<times> 'o act list" where
  "autocomplete_getData base moreParams a = ci_send base (Some ''get'') moreParams JUndef (ac_request a)"

definition autocomplete_bindTo :: "props \<Rightarrow> 'o \<Rightarrow> 'o autocomplete \<Rightarrow> js_error + 'o autocomplete \<times> wire \<times> 'o act list" where
  "autocomplete_bindTo base target a =
     bindE (autocomplete_getData base [] a) (\<lambda>(w, acts). Inr (a\<lparr>ac_target := Some target\<rparr>, w, acts))"

definition autocomplete_gotData :: "jsval \<Rightarrow> 'o autocomplete \<Rightarrow> 'o autocomplete" where
  "autocomplete_gotData collection a = a\<lparr>ac_collection := splat collection\<rparr>"

text \<open>\<open>postData\<close>, the handler of \<open>Selected\<close>: the selected record is the argument of the parameters.\<close>

definition autocomplete_postData :: "props \<Rightarrow> 'o autocomplete \<Rightarrow> (js_error + wire \<times> 'o act list) option" where
  "autocomplete_postData base a =
     (if can ''post'' (ac_request a) then Some (ci_send base (Some ''post'') [] (ac_selected a) (ac_request a))
      else None)"

text \<open>The click on the match at position \<open>k\<close>. The handlers made in the loop share one variable \<open>div\<close>, which
  after the loop holds the element made last.\<close>

definition ac_click :: "props \<Rightarrow> nat \<Rightarrow> 'o autocomplete \<Rightarrow>
    'o autocomplete \<times> fired list \<times> (js_error + wire \<times> 'o act list) option" where
  "ac_click base k a =
     (case ac_overlay a of
        None \<Rightarrow> (a, [], None)
      | Some ms \<Rightarrow>
          if k < length ms then
            (let sel = m_record (last ms); a' = a\<lparr>ac_selected := sel\<rparr>
             in (a', [(''Clicked'', []), (''Changed'', [sel]), (''Selected'', [])], autocomplete_postData base a'))
          else (a, [], None))"

text \<open>\<open>hide\<close>, at the end of its animation; \<open>PostedData\<close> hides the overlay too.\<close>

definition autocomplete_hide :: "'o autocomplete \<Rightarrow> 'o autocomplete \<times> string list" where
  "autocomplete_hide a =
     (case ac_overlay a of
        None \<Rightarrow> (a, [])
      | Some _ \<Rightarrow> (a\<lparr>ac_overlay := None\<rparr>, [''Hiding'', ''RemovingFromDom'', ''RemovedFromDom'', ''Hidden'']))"

text \<open>The overlay is placed below the target.\<close>

definition autocomplete_element :: "string \<Rightarrow> rat \<Rightarrow> rat \<Rightarrow> rat \<Rightarrow> rat \<Rightarrow> props" where
  "autocomplete_element elem_id x y width height =
     [(''class'', JStr ''CIAutocomplete''), (''id'', JStr elem_id),
      (''styles'', JObj [(''width'', JNum width), (''top'', JNum (y + height)), (''left'', JNum x)])]"

subsection \<open>Lemmas\<close>

definition label_of :: "string \<Rightarrow> jsval \<Rightarrow> string" where
  "label_of property item = (case ac_label property item of Inl e \<Rightarrow> [] | Inr s \<Rightarrow> s)"

lemma ac_label_total: "\<not> nullish item \<Longrightarrow> ac_label property item = Inr (label_of property item)"
  by (cases item) (auto simp: ac_label_def label_of_def)

lemma length_ac_fold [simp]: "length (ac_fold cs s) = length s"
  by (simp add: ac_fold_def to_lower_def)

lemma ac_fold_append: "ac_fold cs (a @ b) = ac_fold cs a @ ac_fold cs b"
  by (simp add: ac_fold_def to_lower_def)

lemma ac_fold_take_drop: "ac_fold cs (take n (drop m s)) = take n (drop m (ac_fold cs s))"
  by (simp add: ac_fold_def to_lower_def take_map drop_map)

definition occurs :: "string \<Rightarrow> string \<Rightarrow> bool" where
  "occurs q s = (\<exists>a b. s = a @ q @ b)"

lemma occurs_index: "occurs q s \<longleftrightarrow> index_of s q \<noteq> None"
  unfolding occurs_def index_of_None by blast

text \<open>What a drawn match says of its record.\<close>

definition shows_match :: "bool \<Rightarrow> string \<Rightarrow> string \<Rightarrow> ac_match \<Rightarrow> bool" where
  "shows_match cs property query m =
     (\<exists>pre mid post. label_of property (m_record m) = pre @ mid @ post \<and> ac_fold cs mid = query \<and>
        m_html m = pre @ highlight_open @ mid @ ''</span>'' @ post)"

lemma highlight_shows:
  assumes "index_of (ac_fold cs s) query = Some index"
  shows "s = take index s @ take (length query) (drop index s) @ drop (index + length query) s"
    and "ac_fold cs (take (length query) (drop index s)) = query"
proof -
  have "ac_fold cs s = take index (ac_fold cs s) @ query @ drop (index + length query) (ac_fold cs s)"
       "index + length query \<le> length s"
    using index_of_Some [OF assms] by simp_all
  then show "ac_fold cs (take (length query) (drop index s)) = query"
    unfolding ac_fold_take_drop
    by (metis append_eq_conv_conj length_ac_fold length_take min.absorb2 add_leD1)
  show "s = take index s @ take (length query) (drop index s) @ drop (index + length query) s"
    by (metis add.commute append_take_drop_id drop_drop)
qed

lemma ac_matches_spec:
  assumes "\<forall>x \<in> set items. \<not> nullish x"
  shows "\<exists>ms. ac_matches cs property query i items = (ms, None) \<and>
           map m_record ms = filter (\<lambda>x. occurs query (ac_fold cs (label_of property x))) items \<and>
           list_all (shows_match cs property query) ms"
  using assms
proof (induction items arbitrary: i)
  case (Cons x items)
  obtain ms where ms: "ac_matches cs property query (Suc i) items = (ms, None)"
      "map m_record ms = filter (\<lambda>x. occurs query (ac_fold cs (label_of property x))) items"
      "list_all (shows_match cs property query) ms"
    using Cons.IH [of "Suc i"] Cons.prems by auto
  have x: "ac_label property x = Inr (label_of property x)" using Cons.prems by (intro ac_label_total) auto
  show ?case
  proof (cases "index_of (ac_fold cs (label_of property x)) query")
    case None
    then show ?thesis using ms x by (auto simp: occurs_index)
  next
    case (Some index)
    then have "shows_match cs property query
        \<lparr>m_class = c, m_html = highlight (label_of property x) index (length query), m_record = x\<rparr>" for c
      using highlight_shows [OF Some] by (auto simp: shows_match_def highlight_def)
    with Some ms x show ?thesis by (simp add: occurs_index)
  qed
qed simp

subsection \<open>Properties\<close>

text \<open>Property C31. The overlay lists exactly the records whose label holds the text of the target, in
  the order of the collection, whatever the case of the letters unless that was asked for; each is
  drawn as its label with the matching part, and nothing else, highlighted.\<close>

theorem autocomplete_matches:
  assumes "\<forall>x \<in> set (ac_collection a). \<not> nullish x"
  shows "\<exists>ms. autocomplete_run text a = (a\<lparr>ac_overlay := Some ms\<rparr>, None) \<and>
           map m_record ms =
             filter (\<lambda>x. occurs (ac_fold (ac_caseSensitive a) text) (ac_fold (ac_caseSensitive a) (label_of (ac_property a) x)))
               (ac_collection a) \<and>
           list_all (\<lambda>m. \<exists>pre mid post. label_of (ac_property a) (m_record m) = pre @ mid @ post \<and>
               ac_fold (ac_caseSensitive a) mid = ac_fold (ac_caseSensitive a) text \<and>
               m_html m = pre @ highlight_open @ mid @ ''</span>'' @ post) ms"
proof -
  obtain ms where ms: "ac_matches (ac_caseSensitive a) (ac_property a) (ac_fold (ac_caseSensitive a) text) 0 (ac_collection a) = (ms, None)"
      "map m_record ms = filter (\<lambda>x. occurs (ac_fold (ac_caseSensitive a) text)
         (ac_fold (ac_caseSensitive a) (label_of (ac_property a) x))) (ac_collection a)"
      "list_all (shows_match (ac_caseSensitive a) (ac_property a) (ac_fold (ac_caseSensitive a) text)) ms"
    using ac_matches_spec [OF assms] by blast
  show ?thesis
    by (rule exI [of _ ms]) (use ms in \<open>simp add: autocomplete_run_def shows_match_def [abs_def]\<close>)
qed

theorem autocomplete_matches_witness:
  "\<exists>ms. autocomplete_run ''o'' (autocomplete_new JUndef (JArr [JObj [(''label'', JStr ''Ohio'')], JObj [(''label'', JStr ''Utah'')]]) False [] :: nat autocomplete) =
       ((autocomplete_new JUndef (JArr [JObj [(''label'', JStr ''Ohio'')], JObj [(''label'', JStr ''Utah'')]]) False [])\<lparr>ac_overlay := Some ms\<rparr>, None)"
  using autocomplete_matches [of "autocomplete_new JUndef (JArr [JObj [(''label'', JStr ''Ohio'')], JObj [(''label'', JStr ''Utah'')]]) False [] :: nat autocomplete" "''o''"]
  by (auto simp: autocomplete_new_def splat_def)

text \<open>Whichever match is clicked, the record selected, announced and posted is that of the
  last match.\<close>

lemma autocomplete_click_selects_last:
  assumes "autocomplete_run text a = (a', None)" "ac_overlay a' = Some ms" "k < length ms"
    and "can ''post'' (ac_request a)"
  shows "ac_click base k a' =
           (a'\<lparr>ac_selected := m_record (last ms)\<rparr>,
            [(''Clicked'', []), (''Changed'', [m_record (last ms)]), (''Selected'', [])],
            Some (ci_send base (Some ''post'') [] (m_record (last ms)) (ac_request a)))"
proof -
  have "ac_request a' = ac_request a"
    using assms(1) by (auto simp: autocomplete_run_def split: prod.splits)
  then show ?thesis using assms(2-) by (simp add: ac_click_def autocomplete_postData_def Let_def)
qed

definition sample_autocomplete :: "nat autocomplete" where
  "sample_autocomplete =
     autocomplete_new JUndef (JArr [JObj [(''label'', JStr ''ohio'')], JObj [(''label'', JStr ''oregon'')]]) False
       [(''post'', UrlOnly ''/pick'')]"

end
