(* ===== verification/CI_Style.thy ===== *)
theory CI_Style
  imports CI_Object "HOL-Library.Word"
begin

section \<open>Geometry and styles\<close>

text \<open>
  \<open>CIRect\<close>, \<open>CIResizeBehavior\<close>, \<open>CIOffsettable\<close>, \<open>CIStyle\<close> with its border and corner masks, and
  \<open>CISelectionStyle\<close>. The style attributes of an element are a list of properties; what a call does
  to an element is the new list. The masks are 32-bit integers, as the operator \<open>&\<close> of the language
  makes them. The classes of an element are the list of their names, without repetition.
\<close>

unbundle bit_operations_syntax

subsection \<open>Arithmetic of the language\<close>

text \<open>\<open>a + b\<close> and \<open>a - b\<close>: a string operand makes \<open>+\<close> a concatenation.\<close>

fun is_str :: "jsval \<Rightarrow> bool" where
  "is_str (JStr _) = True"
| "is_str _ = False"

definition num_val :: "rat option \<Rightarrow> jsval" where
  "num_val x = (case x of None \<Rightarrow> JNaN | Some r \<Rightarrow> JNum r)"

definition js_plus :: "jsval \<Rightarrow> jsval \<Rightarrow> jsval" where
  "js_plus a b =
     (if is_str (to_prim a) \<or> is_str (to_prim b) then JStr (to_string a @ to_string b)
      else case (to_number a, to_number b) of (Some x, Some y) \<Rightarrow> JNum (x + y) | _ \<Rightarrow> JNaN)"

definition js_minus :: "jsval \<Rightarrow> jsval \<Rightarrow> jsval" where
  "js_minus a b = (case (to_number a, to_number b) of (Some x, Some y) \<Rightarrow> JNum (x - y) | _ \<Rightarrow> JNaN)"

text \<open>\<open>ToInt32\<close>: the integer part, modulo \<open>2 ^ 32\<close>; \<open>NaN\<close> gives \<open>0\<close>.\<close>

definition to_int32 :: "jsval \<Rightarrow> 32 word" where
  "to_int32 v =
     (case to_number v of
        None \<Rightarrow> 0
      | Some r \<Rightarrow> if r < 0 then word_of_int (- \<lfloor>- r\<rfloor>) else word_of_int \<lfloor>r\<rfloor>)"

text \<open>\<open>toInt()\<close> of a number or a string.\<close>

definition toInt :: "jsval \<Rightarrow> jsval" where
  "toInt v = num_result (parseInt (to_string v))"

subsection \<open>CIResizeBehavior\<close>

text \<open>The value of the target's action, if there is a target, and the amounts added and subtracted.\<close>

record resize =
  rb_target :: "jsval option"
  additions :: "jsval list"
  subtractions :: "jsval list"
  willReceiveView :: bool

definition resize_plus :: "jsval \<Rightarrow> resize \<Rightarrow> resize" where
  "resize_plus x rb = rb\<lparr>additions := additions rb @ [x]\<rparr>"

definition resize_minus :: "jsval \<Rightarrow> resize \<Rightarrow> resize" where
  "resize_minus x rb = rb\<lparr>subtractions := subtractions rb @ [x]\<rparr>"

definition targetValue :: "resize \<Rightarrow> jsval" where
  "targetValue rb = (case rb_target rb of None \<Rightarrow> JNull | Some v \<Rightarrow> v)"

definition resize_toInteger :: "jsval option \<Rightarrow> resize \<Rightarrow> jsval \<times> resize" where
  "resize_toInteger view rb =
     (let rb' = (if willReceiveView rb \<and> view \<noteq> None then rb\<lparr>rb_target := view\<rparr> else rb);
          x = targetValue rb'
      in (if nullish x then JNull
          else foldl (\<lambda>x s. js_minus x (toInt s))
                 (foldl (\<lambda>x a. js_plus x (toInt a)) x (additions rb')) (subtractions rb'), rb'))"

subsection \<open>CIRect\<close>

datatype dimension = NoDim | Fixed jsval | Elastic resize

record cirect =
  rect_width :: dimension
  rect_height :: dimension
  rect_x :: jsval
  rect_y :: jsval
  rect_clip :: jsval

text \<open>The size a dimension has in a superview, given what the superview reports for the action.\<close>

definition dim_toInteger :: "jsval option \<Rightarrow> dimension \<Rightarrow> jsval" where
  "dim_toInteger view d =
     (case d of NoDim \<Rightarrow> JNull | Fixed v \<Rightarrow> toInteger (to_string v) | Elastic rb \<Rightarrow> fst (resize_toInteger view rb))"

definition ClipBehaviors :: "string list" where
  "ClipBehaviors = [''auto'', ''hidden'', ''scroll'', ''visible'']"

definition hasOrigin :: "cirect \<Rightarrow> bool" where
  "hasOrigin r = (\<not> nullish (rect_x r) \<and> \<not> nullish (rect_y r))"

definition isEmptySize :: "cirect \<Rightarrow> bool" where
  "isEmptySize r = (rect_width r = NoDim \<and> rect_height r = NoDim)"

definition isEmptyPoint :: "cirect \<Rightarrow> bool" where
  "isEmptyPoint r = (nullish (rect_x r) \<and> nullish (rect_y r))"

definition rect_isEmpty :: "cirect \<Rightarrow> bool" where
  "rect_isEmpty r = (isEmptySize r \<and> isEmptyPoint r)"

definition put_size :: "string \<Rightarrow> jsval \<Rightarrow> props \<Rightarrow> props" where
  "put_size d v styles =
     AList.update (''min-'' @ d) v (AList.update (''max-'' @ d) v (AList.update d v styles))"

definition toCssStylesObject :: "props \<Rightarrow> jsval option \<Rightarrow> jsval option \<Rightarrow> cirect \<Rightarrow> props" where
  "toCssStylesObject css view_w view_h r =
     (let s1 = (if rect_width r \<noteq> NoDim then put_size ''width'' (dim_toInteger view_w (rect_width r)) css else css);
          s2 = (if rect_height r \<noteq> NoDim then put_size ''height'' (dim_toInteger view_h (rect_height r)) s1 else s1);
          s3 = (if rect_clip r \<in> JStr ` set ClipBehaviors then AList.update ''overflow'' (rect_clip r) s2 else s2)
      in if hasOrigin r
         then AList.update ''left'' (rect_x r) (AList.update ''top'' (rect_y r)
                (AList.update ''position'' (JStr ''absolute'') s3))
         else s3)"

subsection \<open>CIOffsettable\<close>

definition makeOffsettable :: "props option \<Rightarrow> (jsval \<Rightarrow> rat \<times> rat) \<Rightarrow> props" where
  "makeOffsettable offset position =
     (let base = [(''dx'', JNum 20), (''dy'', JNum 20), (''left'', JNum 0), (''top'', JNum 0)]
      in case offset of
           None \<Rightarrow> base
         | Some o1 \<Rightarrow>
             let s = moo_extend base o1
             in if truthy (get_prop o1 ''from'')
                then (case position (get_prop o1 ''from'') of (x, y) \<Rightarrow>
                        AList.update ''top'' (JNum y) (AList.update ''left'' (JNum x) s))
                else s)"

subsection \<open>CIStyle\<close>

definition style_override :: "props \<Rightarrow> props \<Rightarrow> props" where
  "style_override style newStyleObject =
     hash_extend (fold (\<lambda>(k, v). hash_set k v) style []) newStyleObject"

definition getInt :: "string \<Rightarrow> props \<Rightarrow> jsval" where
  "getInt key style = (let v = hash_get style key in if truthy v then toInt v else JNum 0)"

text \<open>The sides and the corners are bits of a mask.\<close>

definition SideNames :: "(string \<times> 32 word) list" where
  "SideNames = [(''top'', 1), (''left'', push_bit 1 1), (''right'', push_bit 2 1), (''bottom'', push_bit 3 1)]"

definition AllSides :: "32 word" where
  "AllSides = 1 OR push_bit 2 1 OR push_bit 3 1 OR push_bit 1 1"

definition CornerNames :: "(string \<times> 32 word) list" where
  "CornerNames =
     [(''top-left'', 1), (''top-right'', push_bit 1 1), (''bottom-left'', push_bit 2 1), (''bottom-right'', push_bit 3 1)]"

definition interpolateBorderStyleMaskOntoElement :: "props \<Rightarrow> string \<Rightarrow> props \<Rightarrow> props" where
  "interpolateBorderStyleMaskOntoElement style borderStyle el =
     (let mask = to_int32 (hash_get style (borderStyle @ ''Borders''))
      in fold (\<lambda>(side, bt) el. if mask AND bt \<noteq> 0
                 then AList.update (''border-'' @ side @ ''-style'') (JStr borderStyle) el else el) SideNames el)"

definition applyBordersOntoElement :: "props \<Rightarrow> string \<Rightarrow> props \<Rightarrow> props" where
  "applyBordersOntoElement style borderStyle el =
     interpolateBorderStyleMaskOntoElement style borderStyle
       (AList.update ''border-color'' (js_or (hash_get style ''borderColor'') (JStr ''#CCCCCC''))
         (AList.update ''border-width'' (js_or (hash_get style ''borderSize'') (JNum 0)) el))"

definition strokeElementSide :: "props \<Rightarrow> string \<Rightarrow> string \<times> 32 word \<Rightarrow> props \<Rightarrow> props" where
  "strokeElementSide style st side el =
     (case side of (sideName, bt) \<Rightarrow>
        if to_int32 (hash_get style (st @ ''Borders'')) AND bt \<noteq> 0
        then AList.update (''border-'' @ sideName @ ''-color'') (hash_get style ''borderColor'')
               (AList.update (''border-'' @ sideName @ ''-width'') (getInt ''borderSize'' style)
                 (AList.update (''border-'' @ sideName @ ''-style'') (JStr st) el))
        else el)"

text \<open>A rounded corner sets the two vendor properties; the statement for the standard property is an
  expression without effect.\<close>

definition round_corner :: "string \<Rightarrow> string \<Rightarrow> props \<Rightarrow> props" where
  "round_corner cornerName radius el =
     AList.update (''-moz-border-radius-'' @ filter (\<lambda>c. c \<noteq> CHR ''-'') cornerName) (JStr radius)
       (AList.update (''-webkit-border-'' @ cornerName @ ''-radius'') (JStr radius) el)"

definition radius_of :: "props \<Rightarrow> string" where
  "radius_of style = to_string (getInt ''roundedCornerRadius'' style) @ ''px''"

definition roundElementCorner :: "props \<Rightarrow> string \<times> 32 word \<Rightarrow> props \<Rightarrow> props" where
  "roundElementCorner style corner el =
     (case corner of (cornerName, bt) \<Rightarrow>
        if to_int32 (hash_get style ''roundedCorners'') AND bt \<noteq> 0
        then round_corner cornerName (radius_of style) el else el)"

definition interpolateRoundedCornerMaskOntoElement :: "props \<Rightarrow> props \<Rightarrow> props" where
  "interpolateRoundedCornerMaskOntoElement style el = fold (roundElementCorner style) CornerNames el"

subsection \<open>CISelectionStyle\<close>

record cell_elem =
  classes :: "string list"
  store :: props
  elem_height :: rat

definition addClass :: "string \<Rightarrow> cell_elem \<Rightarrow> cell_elem" where
  "addClass c e = e\<lparr>classes := arr_include (=) c (classes e)\<rparr>"

definition removeClass :: "string \<Rightarrow> cell_elem \<Rightarrow> cell_elem" where
  "removeClass c e = e\<lparr>classes := filter (\<lambda>x. x \<noteq> c) (classes e)\<rparr>"

definition determineBackgroundHeight :: "rat \<Rightarrow> nat" where
  "determineBackgroundHeight h =
     (if h > 19 \<and> h \<le> 22 then 22 else if h > 22 \<and> h \<le> 25 then 25
      else if h > 25 \<and> h \<le> 35 then 35 else 150)"

definition select_style :: "bool \<Rightarrow> cell_elem option \<Rightarrow> js_error + cell_elem" where
  "select_style inverted element =
     (case element of
        None \<Rightarrow> Inl (Thrown ''CISelectionStyle could not select non-existent element'')
      | Some e \<Rightarrow>
          let cls = ''CISelectedSkin_'' @ nat_digits (determineBackgroundHeight (elem_height e))
                      @ (if inverted then ''_inverse'' else [])
          in Inr (addClass cls
               ((addClass ''CISelected'' e)\<lparr>store := AList.update ''CISelectionStyle_selectedClass'' (JStr cls) (store e)\<rparr>)))"

definition unselect_style :: "cell_elem option \<Rightarrow> js_error + cell_elem" where
  "unselect_style element =
     (case element of
        None \<Rightarrow> Inl (Thrown ''CISelectionStyle could not unselect non-existent element'')
      | Some e \<Rightarrow>
          Inr (removeClass (to_string (hash_get (store e) ''CISelectionStyle_selectedClass''))
                 (removeClass ''CISelected'' e)))"

definition stashAndAddClasses :: "string \<Rightarrow> string \<Rightarrow> cell_elem \<Rightarrow> cell_elem" where
  "stashAndAddClasses cssClass auxClass e =
     addClass cssClass ((addClass auxClass e)\<lparr>store := AList.update ''CISelectionStyleCssClass'' (JStr cssClass) (store e)\<rparr>)"

definition unstashAndRemoveClasses :: "string \<Rightarrow> cell_elem \<Rightarrow> cell_elem" where
  "unstashAndRemoveClasses auxClass e =
     removeClass (to_string (hash_get (store e) ''CISelectionStyleCssClass'')) (removeClass auxClass e)"

definition aux_class :: "string \<Rightarrow> string" where
  "aux_class style = ''CI'' @ camelCase (capitalize style)"

definition set_style :: "string \<Rightarrow> cell_elem \<Rightarrow> cell_elem" where
  "set_style style e =
     stashAndAddClasses (aux_class style @ ''Skin_'' @ nat_digits (determineBackgroundHeight (elem_height e)))
       (aux_class style) e"

definition unset_style :: "string \<Rightarrow> cell_elem \<Rightarrow> cell_elem" where
  "unset_style style e = unstashAndRemoveClasses (aux_class style) e"

subsection \<open>Lemmas\<close>

lemma mask_bits:
  "w AND 1 = (0 :: 32 word) \<longleftrightarrow> \<not> bit w 0" "w AND 2 = (0 :: 32 word) \<longleftrightarrow> \<not> bit w 1"
  "w AND 4 = (0 :: 32 word) \<longleftrightarrow> \<not> bit w 2" "w AND 8 = (0 :: 32 word) \<longleftrightarrow> \<not> bit w 3"
  using bit_iff_and_push_bit_not_eq_0 [of w 0] bit_iff_and_push_bit_not_eq_0 [of w 1]
    bit_iff_and_push_bit_not_eq_0 [of w 2] bit_iff_and_push_bit_not_eq_0 [of w 3]
  by simp_all

lemma AllSides_eq: "AllSides = 15"
  by (simp add: AllSides_def)

text \<open>The bit of the mask that stands for a border style.\<close>

definition border_bit :: "string \<Rightarrow> nat option" where
  "border_bit k =
     map_of [(''border-top-style'', 0), (''border-left-style'', 1), (''border-right-style'', 2),
             (''border-bottom-style'', 3)] k"

definition bit_set :: "32 word \<Rightarrow> nat option \<Rightarrow> bool" where
  "bit_set w n = (case n of None \<Rightarrow> False | Some i \<Rightarrow> bit w i)"

lemma borders_get:
  "get_prop (interpolateBorderStyleMaskOntoElement style st el) k =
     (if bit_set (to_int32 (hash_get style (st @ ''Borders''))) (border_bit k) then JStr st else get_prop el k)"
  unfolding interpolateBorderStyleMaskOntoElement_def Let_def SideNames_def
  by (simp add: mask_bits border_bit_def bit_set_def)

lemma add_remove_class: "c \<notin> set (classes e) \<Longrightarrow> filter (\<lambda>x. x \<noteq> c) (classes (addClass c e)) = classes e"
  by (auto simp: addClass_def arr_include_def filter_id_conv)

text \<open>Taking the selection from an element selected once restores its classes.\<close>

lemma unselect_after_select:
  assumes "''CISelected'' \<notin> set (classes e)" "list_all (\<lambda>c. \<not> starts_at ''CISelectedSkin_'' c) (classes e)"
  shows "\<exists>e1 e2. select_style inverted (Some e) = Inr e1 \<and> unselect_style (Some e1) = Inr e2 \<and>
           classes e2 = classes e \<and> elem_height e2 = elem_height e"
proof -
  let ?cls = "''CISelectedSkin_'' @ nat_digits (determineBackgroundHeight (elem_height e))
      @ (if inverted then ''_inverse'' else [])"
  have "?cls \<notin> set (classes e)"
    using assms(2) by (auto simp: list_all_iff starts_at_append)
  then show ?thesis
    using assms(1)
    by (simp add: select_style_def unselect_style_def Let_def addClass_def removeClass_def arr_include_def
        hash_get_def update_conv filter_id_conv) (auto simp: filter_id_conv)
qed

subsection \<open>Properties\<close>

text \<open>A border mask styles exactly the sides whose bits are set in its 32-bit value, and no
  other style of the element.\<close>

lemma border_mask_spec:
  "get_prop (applyBordersOntoElement style st el) k =
     (if bit_set (to_int32 (hash_get style (st @ ''Borders''))) (border_bit k) then JStr st
      else if k = ''border-color'' then js_or (hash_get style ''borderColor'') (JStr ''#CCCCCC'')
      else if k = ''border-width'' then js_or (hash_get style ''borderSize'') (JNum 0)
      else get_prop el k)"
  by (simp add: applyBordersOntoElement_def borders_get)

text \<open>Unselecting an element that was selected once gives it back the classes it had.\<close>

lemma unselect_select:
  assumes "''CISelected'' \<notin> set (classes e)" "list_all (\<lambda>c. \<not> starts_at ''CISelectedSkin_'' c) (classes e)"
  shows "\<exists>e1 e2. select_style inverted (Some e) = Inr e1 \<and> unselect_style (Some e1) = Inr e2 \<and>
           classes e2 = classes e \<and> elem_height e2 = elem_height e"
  using assms by (rule unselect_after_select)

text \<open>Rounding corners never sets the standard property \<open>border-...-radius\<close>: the statement
  meant to set it has no effect.\<close>

lemma standard_radius_unset:
  assumes "(corner, b) \<in> set CornerNames"
  shows "get_prop (interpolateRoundedCornerMaskOntoElement style el) (''border-'' @ corner @ ''-radius'') =
           get_prop el (''border-'' @ corner @ ''-radius'')"
  using assms
  by (auto simp: interpolateRoundedCornerMaskOntoElement_def CornerNames_def roundElementCorner_def round_corner_def)

end
