(* ===== verification/CI_Tabs.thy ===== *)
theory CI_Tabs
  imports CI_View CI_Style
begin

section \<open>Tab panels\<close>

text \<open>
  \<open>CITabPanel\<close> and \<open>CIVerticalTabPanel\<close>: a row or column of tabs and one view for each, of which the
  one that belongs to the selected tab is displayed. The elements of the tabs are class lists, as in
  \<open>CISelectionStyle\<close>; the elements of the views have a display mode and the mode \<open>Element.hide\<close>
  stored. The field \<open>selectedSubviewElement\<close> of the code refers to an element; here it is the position
  of the view the element belongs to, or \<open>Gone\<close> once a new rendering has destroyed that element.
\<close>

subsection \<open>Displaying elements\<close>

record shown =
  el_display :: string
  el_original :: "string option"

definition element_isDisplayed :: "shown \<Rightarrow> bool" where
  "element_isDisplayed e = (el_display e \<noteq> ''none'')"

definition element_hide :: "shown \<Rightarrow> shown" where
  "element_hide e =
     e\<lparr>el_original := Some (if el_display e = ''none'' \<or> el_display e = [] then ''block'' else el_display e),
       el_display := ''none''\<rparr>"

definition element_show :: "string option \<Rightarrow> shown \<Rightarrow> shown" where
  "element_show a e =
     e\<lparr>el_display :=
         (case a of
            Some (c # cs) \<Rightarrow> c # cs
          | _ \<Rightarrow> (case el_original e of Some (c # cs) \<Rightarrow> c # cs | _ \<Rightarrow> ''block''))\<rparr>"

definition element_toggle :: "shown \<Rightarrow> shown" where
  "element_toggle e = (if element_isDisplayed e then element_hide e else element_show None e)"

subsection \<open>CITabPanel\<close>

datatype sub_ref = NoSub | Live nat | Gone

datatype tab_event =
    TabClicked
  | TabChanging string
  | TabChanged string
  | TabSelected nat nat
  | TabUnrendered
  | TabRendered

record tab_panel =
  tp_views :: "(string \<times> shown) list"
  tp_cells :: "cell_elem list"
  tp_index :: "nat option"
  tp_shown :: sub_ref

text \<open>What a tab looks like: its label, its width in percent and the two lines between tabs.\<close>

record tab_cell =
  tab_label :: string
  tab_width :: rat
  tab_left :: bool
  tab_right :: bool

definition setSubviews :: "(string \<times> shown) list \<Rightarrow> (string \<times> shown) list" where
  "setSubviews tabs = hash_new tabs"

definition tab_cells :: "(string \<times> shown) list \<Rightarrow> tab_cell list" where
  "tab_cells views =
     (let n = hash_getLength views
      in map (\<lambda>(i, v). \<lparr>tab_label = fst v, tab_width = 100 / of_nat n, tab_left = (i > 0),
                         tab_right = (i + 1 < n)\<rparr>) (enumerate 0 views))"

text \<open>\<open>unrender\<close> empties the rows, which destroys the elements; \<open>render\<close> draws a tab for each view, and the
  view hidden. The views' own display mode and the height of a tab are those the browser gives them.\<close>

definition tab_unrender :: "tab_panel \<Rightarrow> tab_panel \<times> tab_event list" where
  "tab_unrender p =
     (p\<lparr>tp_cells := [], tp_shown := (case tp_shown p of NoSub \<Rightarrow> NoSub | _ \<Rightarrow> Gone)\<rparr>, [TabUnrendered])"

definition tab_render :: "(string \<Rightarrow> string) \<Rightarrow> (string \<Rightarrow> rat) \<Rightarrow> tab_panel \<Rightarrow> tab_panel \<times> tab_event list" where
  "tab_render mode height p =
     (case tab_unrender p of (p1, ev) \<Rightarrow>
        (p1\<lparr>tp_views := map (\<lambda>(l, v). (l, element_hide \<lparr>el_display = mode l, el_original = None\<rparr>)) (tp_views p1),
            tp_cells := map (\<lambda>(l, v). \<lparr>classes = [''CITabPanelTab''], store = [], elem_height = height l\<rparr>) (tp_views p1)\<rparr>,
         ev @ [TabRendered]))"

definition selectedTabElement :: "tab_panel \<Rightarrow> cell_elem option" where
  "selectedTabElement p =
     (case tp_index p of None \<Rightarrow> None | Some i \<Rightarrow> if i < length (tp_cells p) then Some (tp_cells p ! i) else None)"

definition put_cell :: "nat option \<Rightarrow> cell_elem \<Rightarrow> tab_panel \<Rightarrow> tab_panel" where
  "put_cell i c p = (case i of None \<Rightarrow> p | Some k \<Rightarrow> p\<lparr>tp_cells := (tp_cells p)[k := c]\<rparr>)"

definition subviewForIndex :: "nat \<Rightarrow> tab_panel \<Rightarrow> shown option" where
  "subviewForIndex i p =
     (let ks = hash_getKeys (tp_views p)
      in if i < length ks then map_of (tp_views p) (ks ! i) else None)"

definition put_view :: "nat \<Rightarrow> (shown \<Rightarrow> shown) \<Rightarrow> tab_panel \<Rightarrow> tab_panel" where
  "put_view i f p =
     (if i < length (tp_views p)
      then p\<lparr>tp_views := (tp_views p)[i := (fst (tp_views p ! i), f (snd (tp_views p ! i)))]\<rparr> else p)"

text \<open>The setters made by \<open>synthesize\<close> fire two events when the value differs.\<close>

definition set_events :: "string \<Rightarrow> bool \<Rightarrow> tab_event list" where
  "set_events property differs = (if differs then [TabChanging property, TabChanged property] else [])"

text \<open>\<open>_tabClicked\<close>: the state afterwards, the events fired, and the error thrown, if any. A step that
  throws keeps what was changed before.\<close>

definition tab_leave :: "tab_panel \<Rightarrow> tab_panel \<times> js_error option" where
  "tab_leave p =
     (case tp_shown p of
        NoSub \<Rightarrow> (p, None)
      | r \<Rightarrow>
          (case unselect_style (selectedTabElement p) of
             Inl e \<Rightarrow> (p, Some e)
           | Inr c \<Rightarrow>
               (let p1 = put_cell (tp_index p) c p
                in (case r of Live i \<Rightarrow> put_view i element_hide p1 | _ \<Rightarrow> p1, None))))"

definition tab_enter :: "nat \<Rightarrow> tab_panel \<Rightarrow> tab_panel \<times> tab_event list \<times> js_error option" where
  "tab_enter index p =
     (let ev1 = set_events ''selectedIndex'' (tp_index p \<noteq> Some index);
          p1 = p\<lparr>tp_index := Some index\<rparr>
      in case select_style True (selectedTabElement p1) of
           Inl e \<Rightarrow> (p1, ev1, Some e)
         | Inr c \<Rightarrow>
             (let p2 = put_cell (Some index) c p1
              in case subviewForIndex index p2 of
                   None \<Rightarrow> (p2, ev1, Some TypeError)
                 | Some v \<Rightarrow>
                     (let ev2 = set_events ''selectedSubviewElement'' (tp_shown p2 \<noteq> Live index)
                      in (put_view index (element_show None) (p2\<lparr>tp_shown := Live index\<rparr>),
                          ev1 @ ev2 @ [TabSelected index index], None))))"

definition tabClicked :: "nat \<Rightarrow> tab_panel \<Rightarrow> tab_panel \<times> tab_event list \<times> js_error option" where
  "tabClicked index p =
     (case tab_leave p of
        (p1, Some e) \<Rightarrow> (p1, [TabClicked], Some e)
      | (p1, None) \<Rightarrow>
          (case tab_enter index p1 of (p2, ev, err) \<Rightarrow> (p2, TabClicked # ev, err)))"

definition selectTab :: "nat \<Rightarrow> tab_panel \<Rightarrow> tab_panel \<times> tab_event list \<times> js_error option" where
  "selectTab index p = tabClicked index p"

definition tab_new :: "(string \<times> shown) list \<Rightarrow> tab_panel" where
  "tab_new tabs = \<lparr>tp_views = setSubviews tabs, tp_cells = [], tp_index = None, tp_shown = NoSub\<rparr>"

text \<open>Drawing the panel: \<open>_makeElement\<close> renders it, and the handler of \<open>AddedToDom\<close> selects the tab the
  configuration names.\<close>

definition tab_draw :: "(string \<Rightarrow> string) \<Rightarrow> (string \<Rightarrow> rat) \<Rightarrow> nat option \<Rightarrow> tab_panel \<Rightarrow>
    tab_panel \<times> tab_event list \<times> js_error option" where
  "tab_draw mode height sel p =
     (case tab_render mode height p of (p1, ev) \<Rightarrow>
        (case sel of
           None \<Rightarrow> (p1, ev, None)
         | Some i \<Rightarrow> (case selectTab i p1 of (p2, ev2, err) \<Rightarrow> (p2, ev @ ev2, err))))"

text \<open>\<open>applyStyle\<close> of one tab: the outer corners are rounded and the outer sides drawn.\<close>

definition tab_applyStyle :: "props \<Rightarrow> nat \<Rightarrow> nat \<Rightarrow> props \<Rightarrow> props" where
  "tab_applyStyle style n index td =
     (if index = 0 then
        roundElementCorner style (''bottom-left'', 4) (roundElementCorner style (''top-left'', 1)
          (strokeElementSide style ''solid'' (''bottom'', 8) (strokeElementSide style ''solid'' (''left'', 2)
             (strokeElementSide style ''solid'' (''top'', 1) td))))
      else if index = n - 1 then
        roundElementCorner style (''bottom-right'', 8) (roundElementCorner style (''top-right'', 2)
          (strokeElementSide style ''solid'' (''bottom'', 8) (strokeElementSide style ''solid'' (''right'', 4)
             (strokeElementSide style ''solid'' (''top'', 1) td))))
      else strokeElementSide style ''solid'' (''bottom'', 8) (strokeElementSide style ''solid'' (''top'', 1) td))"

text \<open>The element of the panel, before it is rendered; the frame gives the styles.\<close>

definition tab_panel_element :: "string \<Rightarrow> cirect \<Rightarrow> dom" where
  "tab_panel_element elem_id frame =
     (let styles = JObj (toCssStylesObject [] None None frame)
      in Node ''div'' [(''id'', JStr elem_id), (''class'', JStr ''CITabPanel''), (''styles'', styles)]
           [Node ''table''
              [(''id'', JStr (elem_id @ ''_TableElement'')), (''cellspacing'', JNum 0), (''cellpadding'', JNum 0),
               (''border'', JNum 0), (''class'', JStr ''CITabPanelTableElement''), (''styles'', styles)]
              [Node ''tr'' [(''id'', JStr (elem_id @ ''_TabRowElement''))] [],
               Node ''tr'' [(''id'', JStr (elem_id @ ''_SubviewsRowElement''))] []]])"

subsection \<open>CIVerticalTabPanel\<close>

text \<open>The tabs are views of their own; \<open>_tabClicked\<close> finds the index in the container of the tab.\<close>

record vtab_panel =
  vt_tabs :: "cell_elem list"
  vt_content :: "shown list"
  vt_index :: "nat option"
  vt_shown :: sub_ref

definition vtab_new :: "cell_elem list \<Rightarrow> shown list \<Rightarrow> vtab_panel" where
  "vtab_new tabs content = \<lparr>vt_tabs = tabs, vt_content = content, vt_index = None, vt_shown = NoSub\<rparr>"

definition vtab_render :: "cell_elem list \<Rightarrow> shown list \<Rightarrow> vtab_panel \<Rightarrow> vtab_panel \<times> tab_event list" where
  "vtab_render drawn_tabs drawn_content p =
     (p\<lparr>vt_tabs := drawn_tabs, vt_content := map element_hide drawn_content,
        vt_shown := (case vt_shown p of NoSub \<Rightarrow> NoSub | _ \<Rightarrow> Gone)\<rparr>, [TabUnrendered, TabRendered])"

definition nth_opt :: "'a list \<Rightarrow> nat \<Rightarrow> 'a option" where
  "nth_opt xs i = (if i < length xs then Some (xs ! i) else None)"

definition vtab_leave :: "vtab_panel \<Rightarrow> vtab_panel \<times> js_error option" where
  "vtab_leave p =
     (case vt_shown p of
        NoSub \<Rightarrow> (p, None)
      | r \<Rightarrow>
          (case vt_index p of
             None \<Rightarrow> (p, Some TypeError)
           | Some k \<Rightarrow>
               (case nth_opt (vt_tabs p) k of
                  None \<Rightarrow> (p, Some TypeError)
                | Some t \<Rightarrow>
                    (case unselect_style (Some t) of
                       Inl e \<Rightarrow> (p, Some e)
                     | Inr c \<Rightarrow>
                         (let p1 = p\<lparr>vt_tabs := (vt_tabs p)[k := c]\<rparr>
                          in (case r of
                                Live i \<Rightarrow> p1\<lparr>vt_content := (vt_content p1)[i := element_hide (vt_content p1 ! i)]\<rparr>
                              | _ \<Rightarrow> p1, None))))))"

definition vtab_enter :: "nat \<Rightarrow> vtab_panel \<Rightarrow> vtab_panel \<times> tab_event list \<times> js_error option" where
  "vtab_enter index p =
     (let ev1 = set_events ''selectedIndex'' (vt_index p \<noteq> Some index);
          p1 = p\<lparr>vt_index := Some index\<rparr>
      in case nth_opt (vt_tabs p1) index of
           None \<Rightarrow> (p1, ev1, Some TypeError)
         | Some t \<Rightarrow>
             (case select_style False (Some t) of
                Inl e \<Rightarrow> (p1, ev1, Some e)
              | Inr c \<Rightarrow>
                  (let p2 = p1\<lparr>vt_tabs := (vt_tabs p1)[index := c]\<rparr>
                   in case nth_opt (vt_content p2) index of
                        None \<Rightarrow> (p2, ev1, Some TypeError)
                      | Some v \<Rightarrow>
                          (p2\<lparr>vt_shown := Live index, vt_content := (vt_content p2)[index := element_show None v]\<rparr>,
                           ev1 @ set_events ''selectedContentElement'' (vt_shown p2 \<noteq> Live index) @ [TabSelected index index],
                           None))))"

definition vtabClicked :: "nat \<Rightarrow> vtab_panel \<Rightarrow> vtab_panel \<times> tab_event list \<times> js_error option" where
  "vtabClicked index p =
     (case vtab_leave p of
        (p1, Some e) \<Rightarrow> (p1, [TabClicked], Some e)
      | (p1, None) \<Rightarrow>
          (case vtab_enter index p1 of (p2, ev, err) \<Rightarrow> (p2, TabClicked # ev, err)))"

text \<open>\<open>selectTab\<close> needs the tab to be there before the click is simulated.\<close>

definition vtab_selectTab :: "nat \<Rightarrow> vtab_panel \<Rightarrow> vtab_panel \<times> tab_event list \<times> js_error option" where
  "vtab_selectTab index p =
     (if index < length (vt_tabs p) then vtabClicked index p else (p, [], Some TypeError))"

definition vtab_applyStyle :: "props \<Rightarrow> props \<times> props list \<times> props \<Rightarrow> props \<times> props list \<times> props" where
  "vtab_applyStyle style els =
     (case els of (tabColumn, tabs, contentColumn) \<Rightarrow>
        (AList.update ''background-color'' (hash_get style ''tabColumnBackgroundColor'') tabColumn,
         map (AList.update ''cursor'' (JStr ''pointer'')) tabs,
         AList.update ''border-left-color'' (hash_get style ''dividerColor'')
           (AList.update ''border-left-width'' (hash_get style ''dividerWidth'')
             (AList.update ''border-left-style'' (JStr ''solid'')
               (AList.update ''background-color'' (hash_get style ''contentColumnBackgroundColor'') contentColumn)))))"

definition vtab_panel_element :: "string \<Rightarrow> dom" where
  "vtab_panel_element elem_id =
     (let column = (\<lambda>name. Node ''td''
            [(''id'', JStr (elem_id @ ''_'' @ name @ ''Column'')), (''class'', JStr (''CIVerticalTabPanel'' @ name @ ''Column'')),
             (''valign'', JStr ''top''), (''styles'', JObj [(''vertical-align'', JStr ''top'')])] [])
      in Node ''div'' [(''id'', JStr elem_id), (''class'', JStr ''CIVerticalTabPanel'')]
           [Node ''table''
              [(''id'', JStr (elem_id @ ''_TableElement'')), (''cellpadding'', JNum 0), (''cellspacing'', JNum 0), (''border'', JNum 0)]
              [Node ''tr'' [] [column ''Tab'', column ''Content'']]])"

subsection \<open>The contract of a tab panel\<close>

text \<open>A sequence of clicks, up to the first that throws.\<close>

fun click_all :: "(nat \<Rightarrow> 's \<Rightarrow> 's \<times> tab_event list \<times> js_error option) \<Rightarrow> nat list \<Rightarrow> 's \<Rightarrow> 's \<times> js_error option" where
  "click_all click [] p = (p, None)"
| "click_all click (i # is) p =
     (case click i p of
        (p', ev, None) \<Rightarrow> click_all click is p'
      | (p', ev, Some e) \<Rightarrow> (p', Some e))"

text \<open>A panel that is in order takes a click on any of its tabs without an error and is then in order
  again, with that tab selected and that view on display, and no other.\<close>

locale tab_view =
  fixes size_of :: "'s \<Rightarrow> nat"
    and ok :: "'s \<Rightarrow> bool"
    and tab_on :: "nat \<Rightarrow> 's \<Rightarrow> bool"
    and view_on :: "nat \<Rightarrow> 's \<Rightarrow> bool"
    and sel :: "'s \<Rightarrow> nat option"
    and click :: "nat \<Rightarrow> 's \<Rightarrow> 's \<times> tab_event list \<times> js_error option"
  assumes click_ok: "ok s \<Longrightarrow> i < size_of s \<Longrightarrow>
      \<exists>s' ev. click i s = (s', ev, None) \<and> ok s' \<and> size_of s' = size_of s \<and> sel s' = Some i \<and> last ev = TabSelected i i \<and>
        (\<forall>j < size_of s. (tab_on j s' \<longleftrightarrow> j = i) \<and> (view_on j s' \<longleftrightarrow> j = i))"
begin

lemma clicks_ok:
  "ok s \<Longrightarrow> (\<forall>i \<in> set is. i < size_of s) \<Longrightarrow>
   \<exists>s'. click_all click is s = (s', None) \<and> ok s' \<and> size_of s' = size_of s"
proof (induction "is" arbitrary: s)
  case (Cons i "is")
  then obtain s1 ev where "click i s = (s1, ev, None)" "ok s1" "size_of s1 = size_of s"
    using click_ok [of s i] by auto
  with Cons.IH [of s1] Cons.prems show ?case by auto
qed simp

lemma click_all_snoc:
  "click_all click is s = (s1, None) \<Longrightarrow>
   click_all click (is @ [i]) s = (case click i s1 of (s2, ev, err) \<Rightarrow> (s2, err))"
  by (induction "is" arbitrary: s) (auto split: prod.splits option.splits)

lemma last_click_shown:
  assumes "ok s" "\<forall>i \<in> set is. i < size_of s" "is \<noteq> []"
  shows "\<exists>s'. click_all click is s = (s', None) \<and> size_of s' = size_of s \<and> sel s' = Some (last is) \<and>
           (\<forall>j < size_of s. (tab_on j s' \<longleftrightarrow> j = last is) \<and> (view_on j s' \<longleftrightarrow> j = last is))"
proof -
  have split: "is = butlast is @ [last is]" using assms(3) by simp
  obtain s1 where s1: "click_all click (butlast is) s = (s1, None)" "ok s1" "size_of s1 = size_of s"
    using clicks_ok [of s "butlast is"] assms by (meson in_set_butlastD)
  moreover have "last is < size_of s1" using assms s1(3) by simp
  ultimately show ?thesis
    using click_ok [of s1 "last is"] click_all_snoc [of "butlast is" s s1 "last is"] split by fastforce
qed

end

subsection \<open>Lemmas\<close>

definition unpicked :: "cell_elem \<Rightarrow> bool" where
  "unpicked c = (''CISelected'' \<notin> set (classes c) \<and> list_all (\<lambda>x. \<not> starts_at ''CISelectedSkin_'' x) (classes c))"

definition picked :: "bool \<Rightarrow> cell_elem \<Rightarrow> bool" where
  "picked inverted c = (\<exists>c0. unpicked c0 \<and> select_style inverted (Some c0) = Inr c)"

definition hidden_ok :: "shown \<Rightarrow> bool" where
  "hidden_ok e = (el_display e = ''none'' \<and> (\<exists>m. el_original e = Some m \<and> m \<noteq> [] \<and> m \<noteq> ''none''))"

lemma unselect_picked: "picked inverted c \<Longrightarrow> \<exists>c'. unselect_style (Some c) = Inr c' \<and> unpicked c'"
proof -
  assume "picked inverted c"
  then obtain c0 where "unpicked c0" "select_style inverted (Some c0) = Inr c" by (auto simp: picked_def)
  with unselect_after_select [of c0 inverted] show ?thesis by (auto simp: unpicked_def)
qed

lemma unselect_unpicked: "unpicked c \<Longrightarrow> \<exists>c'. unselect_style (Some c) = Inr c' \<and> unpicked c'"
  by (auto simp: unselect_style_def unpicked_def removeClass_def list_all_iff)

lemma select_unpicked:
  "unpicked c \<Longrightarrow> \<exists>c'. select_style inverted (Some c) = Inr c' \<and> picked inverted c'"
  by (auto simp: picked_def select_style_def Let_def)

lemma picked_selected: "picked inverted c \<Longrightarrow> ''CISelected'' \<in> set (classes c)"
  by (auto simp: picked_def select_style_def Let_def addClass_def arr_include_def)

lemma unpicked_not_selected: "unpicked c \<Longrightarrow> ''CISelected'' \<notin> set (classes c)"
  by (simp add: unpicked_def)

lemma hidden_ok_hide [simp]: "hidden_ok (element_hide e)"
  by (auto simp: hidden_ok_def element_hide_def)

lemma hidden_not_displayed: "hidden_ok e \<Longrightarrow> \<not> element_isDisplayed e"
  by (simp add: hidden_ok_def element_isDisplayed_def)

lemma show_displayed: "hidden_ok e \<Longrightarrow> element_isDisplayed (element_show None e)"
  by (auto simp: hidden_ok_def element_isDisplayed_def element_show_def split: list.splits)

lemmas tab_marks = picked_selected unpicked_not_selected hidden_not_displayed show_displayed

text \<open>A panel with no tab selected and no view on display; and a panel in order.\<close>

definition all_off :: "tab_panel \<Rightarrow> bool" where
  "all_off p =
     (distinct (map fst (tp_views p)) \<and> length (tp_cells p) = length (tp_views p) \<and>
      (\<forall>c \<in> set (tp_cells p). unpicked c) \<and> (\<forall>v \<in> set (tp_views p). hidden_ok (snd v)))"

definition tabs_ok :: "tab_panel \<Rightarrow> bool" where
  "tabs_ok p =
     (case tp_shown p of
        NoSub \<Rightarrow> all_off p
      | Gone \<Rightarrow> all_off p \<and> (\<exists>i < length (tp_views p). tp_index p = Some i)
      | Live i \<Rightarrow>
          distinct (map fst (tp_views p)) \<and> length (tp_cells p) = length (tp_views p) \<and>
          tp_index p = Some i \<and> i < length (tp_views p) \<and> picked True (tp_cells p ! i) \<and>
          element_isDisplayed (snd (tp_views p ! i)) \<and>
          (\<forall>j < length (tp_views p). j \<noteq> i \<longrightarrow> unpicked (tp_cells p ! j) \<and> hidden_ok (snd (tp_views p ! j))))"

lemma map_fst_put [simp]:
  "i < length vs \<Longrightarrow> map fst (vs[i := (fst (vs ! i), x)]) = map fst vs"
  by (simp add: map_update list_update_same_conv)

lemma all_offI:
  "distinct (map fst (tp_views p)) \<Longrightarrow> length (tp_cells p) = length (tp_views p) \<Longrightarrow>
   (\<And>j. j < length (tp_views p) \<Longrightarrow> unpicked (tp_cells p ! j) \<and> hidden_ok (snd (tp_views p ! j))) \<Longrightarrow> all_off p"
  by (force simp: all_off_def in_set_conv_nth)

lemma tab_leave_ok:
  assumes "tabs_ok p"
  shows "\<exists>p1. tab_leave p = (p1, None) \<and> all_off p1 \<and> length (tp_views p1) = length (tp_views p)"
proof (cases "tp_shown p")
  case NoSub
  then show ?thesis using assms by (simp add: tab_leave_def tabs_ok_def)
next
  case (Live i)
  obtain c where "unselect_style (Some (tp_cells p ! i)) = Inr c" "unpicked c"
    using unselect_picked [of True "tp_cells p ! i"] assms Live by (auto simp: tabs_ok_def)
  then show ?thesis
    using assms Live
    by (auto simp: tabs_ok_def tab_leave_def selectedTabElement_def put_cell_def put_view_def Let_def
        nth_list_update intro!: all_offI)
next
  case Gone
  then obtain i where i: "tp_index p = Some i" "i < length (tp_views p)" "all_off p"
    using assms by (auto simp: tabs_ok_def)
  then obtain c where "unselect_style (Some (tp_cells p ! i)) = Inr c" "unpicked c"
    using unselect_unpicked [of "tp_cells p ! i"] by (auto simp: all_off_def)
  then show ?thesis
    using Gone i
    by (auto simp: all_off_def tab_leave_def selectedTabElement_def put_cell_def Let_def
        dest: set_update_subset_insert [THEN subsetD])
qed

lemma tab_enter_ok:
  assumes "all_off p" "i < length (tp_views p)"
  shows "\<exists>p1 ev. tab_enter i p = (p1, ev @ [TabSelected i i], None) \<and> tabs_ok p1 \<and> tp_shown p1 = Live i \<and>
           length (tp_views p1) = length (tp_views p)"
proof -
  have off: "unpicked (tp_cells p ! j)" "hidden_ok (snd (tp_views p ! j))" if "j < length (tp_views p)" for j
    using assms(1) that by (auto simp: all_off_def)
  obtain c where c: "select_style True (Some (tp_cells p ! i)) = Inr c" "picked True c"
    using select_unpicked [OF off(1) [OF assms(2)]] by blast
  let ?p = "put_view i (element_show None) (p\<lparr>tp_index := Some i, tp_cells := (tp_cells p)[i := c], tp_shown := Live i\<rparr>)"
  have "subviewForIndex i (p\<lparr>tp_index := Some i, tp_cells := (tp_cells p)[i := c]\<rparr>) = Some (snd (tp_views p ! i))"
    using assms by (simp add: all_off_def subviewForIndex_def hash_getKeys_def)
  then have "\<exists>ev. tab_enter i p = (?p, ev @ [TabSelected i i], None)"
    using assms c(1) by (simp add: all_off_def tab_enter_def selectedTabElement_def put_cell_def Let_def)
  moreover have "tabs_ok ?p" "tp_shown ?p = Live i" "length (tp_views ?p) = length (tp_views p)"
    using assms c(2) off by (simp_all add: all_off_def tabs_ok_def put_view_def show_displayed)
  ultimately show ?thesis by blast
qed

interpretation htabs: tab_view "\<lambda>p. length (tp_views p)" tabs_ok
  "\<lambda>j p. ''CISelected'' \<in> set (classes (tp_cells p ! j))"
  "\<lambda>j p. element_isDisplayed (snd (tp_views p ! j))" tp_index tabClicked
proof
  fix p :: tab_panel and i
  assume "tabs_ok p" and i: "i < length (tp_views p)"
  then obtain p1 where p1: "tab_leave p = (p1, None)" "all_off p1" "length (tp_views p1) = length (tp_views p)"
    using tab_leave_ok by blast
  with i obtain p2 ev where p2: "tab_enter i p1 = (p2, ev @ [TabSelected i i], None)" "tabs_ok p2"
      "tp_shown p2 = Live i" "length (tp_views p2) = length (tp_views p)"
    using tab_enter_ok [of p1 i] by auto
  have "(''CISelected'' \<in> set (classes (tp_cells p2 ! j)) \<longleftrightarrow> j = i) \<and>
        (element_isDisplayed (snd (tp_views p2 ! j)) \<longleftrightarrow> j = i)" if "j < length (tp_views p)" for j
    using p2 that by (cases "j = i") (auto simp: tabs_ok_def dest: tab_marks)
  moreover have "tp_index p2 = Some i" using p2 by (simp add: tabs_ok_def)
  ultimately show "\<exists>s' ev. tabClicked i p = (s', ev, None) \<and> tabs_ok s' \<and> length (tp_views s') = length (tp_views p) \<and>
      tp_index s' = Some i \<and> last ev = TabSelected i i \<and>
      (\<forall>j < length (tp_views p). (''CISelected'' \<in> set (classes (tp_cells s' ! j)) \<longleftrightarrow> j = i) \<and>
         (element_isDisplayed (snd (tp_views s' ! j)) \<longleftrightarrow> j = i))"
    using p1 p2 by (simp add: tabClicked_def)
qed

text \<open>The same for the vertical panel, which has as many views as tabs when it is in order.\<close>

definition vall_off :: "vtab_panel \<Rightarrow> bool" where
  "vall_off p =
     (length (vt_tabs p) = length (vt_content p) \<and>
      (\<forall>c \<in> set (vt_tabs p). unpicked c) \<and> (\<forall>v \<in> set (vt_content p). hidden_ok v))"

definition vtabs_ok :: "vtab_panel \<Rightarrow> bool" where
  "vtabs_ok p =
     (case vt_shown p of
        NoSub \<Rightarrow> vall_off p
      | Gone \<Rightarrow> vall_off p \<and> (\<exists>i < length (vt_content p). vt_index p = Some i)
      | Live i \<Rightarrow>
          length (vt_tabs p) = length (vt_content p) \<and> vt_index p = Some i \<and> i < length (vt_content p) \<and>
          picked False (vt_tabs p ! i) \<and> element_isDisplayed (vt_content p ! i) \<and>
          (\<forall>j < length (vt_content p). j \<noteq> i \<longrightarrow> unpicked (vt_tabs p ! j) \<and> hidden_ok (vt_content p ! j)))"

lemma vall_offI:
  "length (vt_tabs p) = length (vt_content p) \<Longrightarrow>
   (\<And>j. j < length (vt_content p) \<Longrightarrow> unpicked (vt_tabs p ! j) \<and> hidden_ok (vt_content p ! j)) \<Longrightarrow> vall_off p"
  by (force simp: vall_off_def in_set_conv_nth)

lemma vtab_leave_ok:
  assumes "vtabs_ok p"
  shows "\<exists>p1. vtab_leave p = (p1, None) \<and> vall_off p1 \<and> length (vt_content p1) = length (vt_content p)"
proof (cases "vt_shown p")
  case NoSub
  then show ?thesis using assms by (simp add: vtab_leave_def vtabs_ok_def)
next
  case (Live i)
  obtain c where "unselect_style (Some (vt_tabs p ! i)) = Inr c" "unpicked c"
    using unselect_picked [of False "vt_tabs p ! i"] assms Live by (auto simp: vtabs_ok_def)
  then show ?thesis
    using assms Live
    by (auto simp: vtabs_ok_def vtab_leave_def nth_opt_def Let_def nth_list_update intro!: vall_offI)
next
  case Gone
  then obtain i where i: "vt_index p = Some i" "i < length (vt_content p)" "vall_off p"
    using assms by (auto simp: vtabs_ok_def)
  then obtain c where "unselect_style (Some (vt_tabs p ! i)) = Inr c" "unpicked c"
    using unselect_unpicked [of "vt_tabs p ! i"] by (auto simp: vall_off_def)
  then show ?thesis
    using Gone i
    by (auto simp: vall_off_def vtab_leave_def nth_opt_def Let_def dest: set_update_subset_insert [THEN subsetD])
qed

lemma vtab_enter_ok:
  assumes "vall_off p" "i < length (vt_content p)"
  shows "\<exists>p1 ev. vtab_enter i p = (p1, ev @ [TabSelected i i], None) \<and> vtabs_ok p1 \<and> vt_shown p1 = Live i \<and>
           length (vt_content p1) = length (vt_content p)"
proof -
  have off: "unpicked (vt_tabs p ! j)" "hidden_ok (vt_content p ! j)" if "j < length (vt_content p)" for j
    using assms(1) that by (auto simp: vall_off_def)
  obtain c where c: "select_style False (Some (vt_tabs p ! i)) = Inr c" "picked False c"
    using select_unpicked [OF off(1) [OF assms(2)]] by blast
  then show ?thesis
    using assms off
    by (simp add: vall_off_def vtabs_ok_def vtab_enter_def nth_opt_def Let_def show_displayed)
qed

interpretation vtabs: tab_view "\<lambda>p. length (vt_content p)" vtabs_ok
  "\<lambda>j p. ''CISelected'' \<in> set (classes (vt_tabs p ! j))"
  "\<lambda>j p. element_isDisplayed (vt_content p ! j)" vt_index vtabClicked
proof
  fix p :: vtab_panel and i
  assume "vtabs_ok p" and i: "i < length (vt_content p)"
  then obtain p1 where p1: "vtab_leave p = (p1, None)" "vall_off p1" "length (vt_content p1) = length (vt_content p)"
    using vtab_leave_ok by blast
  with i obtain p2 ev where p2: "vtab_enter i p1 = (p2, ev @ [TabSelected i i], None)" "vtabs_ok p2"
      "vt_shown p2 = Live i" "length (vt_content p2) = length (vt_content p)"
    using vtab_enter_ok [of p1 i] by auto
  have "(''CISelected'' \<in> set (classes (vt_tabs p2 ! j)) \<longleftrightarrow> j = i) \<and>
        (element_isDisplayed (vt_content p2 ! j) \<longleftrightarrow> j = i)" if "j < length (vt_content p)" for j
    using p2 that by (cases "j = i") (auto simp: vtabs_ok_def dest: tab_marks)
  moreover have "vt_index p2 = Some i" using p2 by (simp add: vtabs_ok_def)
  ultimately show "\<exists>s' ev. vtabClicked i p = (s', ev, None) \<and> vtabs_ok s' \<and> length (vt_content s') = length (vt_content p) \<and>
      vt_index s' = Some i \<and> last ev = TabSelected i i \<and>
      (\<forall>j < length (vt_content p). (''CISelected'' \<in> set (classes (vt_tabs s' ! j)) \<longleftrightarrow> j = i) \<and>
         (element_isDisplayed (vt_content s' ! j) \<longleftrightarrow> j = i))"
    using p1 p2 by (simp add: vtabClicked_def)
qed

lemma tab_render_ok:
  assumes "distinct (map fst (tp_views p))"
    and "tp_shown p = NoSub \<or> (\<exists>i < length (tp_views p). tp_index p = Some i)"
  shows "tabs_ok (fst (tab_render mode height p)) \<and>
         length (tp_views (fst (tab_render mode height p))) = length (tp_views p)"
proof -
  let ?q = "fst (tab_render mode height p)"
  have "unpicked \<lparr>classes = [''CITabPanelTab''], store = [], elem_height = h\<rparr>" for h
    by (simp add: unpicked_def starts_at_def)
  moreover have "fst \<circ> (\<lambda>(l, v :: shown). (l, g l)) = fst" for g :: "string \<Rightarrow> shown"
    by (auto simp: fun_eq_iff)
  ultimately have "all_off ?q" "length (tp_views ?q) = length (tp_views p)" "tp_index ?q = tp_index p"
      "tp_shown ?q = (case tp_shown p of NoSub \<Rightarrow> NoSub | _ \<Rightarrow> Gone)"
    using assms(1) by (auto simp: tab_render_def tab_unrender_def all_off_def)
  with assms(2) show ?thesis by (auto simp: tabs_ok_def split: sub_ref.splits)
qed




subsection \<open>Properties\<close>

text \<open>Property C13. However the tabs of a drawn panel are clicked, exactly the tab clicked last carries
  the mark of the selection, exactly its view is displayed, and no click throws.\<close>

theorem tab_panel_exclusive:
  assumes "is \<noteq> []" "\<forall>i \<in> set is. i < length (hash_new tabs)"
  shows "\<exists>p. click_all tabClicked is (fst (tab_render mode height (tab_new tabs))) = (p, None) \<and>
           tp_index p = Some (last is) \<and>
           (\<forall>j < length (hash_new tabs).
              (''CISelected'' \<in> set (classes (tp_cells p ! j)) \<longleftrightarrow> j = last is) \<and>
              (element_isDisplayed (snd (tp_views p ! j)) \<longleftrightarrow> j = last is))"
proof -
  let ?p = "fst (tab_render mode height (tab_new tabs))"
  have "tabs_ok ?p" "length (tp_views ?p) = length (hash_new tabs)"
    using tab_render_ok [of "tab_new tabs" mode height] by (simp_all add: tab_new_def setSubviews_def)
  then show ?thesis using htabs.last_click_shown [of ?p "is"] assms by auto
qed

theorem tab_panel_exclusive_witness:
  "\<exists>p. click_all tabClicked [1, 0] (fst (tab_render (\<lambda>_. ''block'') (\<lambda>_. 20)
       (tab_new [(''A'', \<lparr>el_display = [], el_original = None\<rparr>), (''B'', \<lparr>el_display = [], el_original = None\<rparr>)]))) = (p, None) \<and>
     tp_index p = Some 0 \<and> \<not> element_isDisplayed (snd (tp_views p ! 1))"
  using tab_panel_exclusive [of "[1, 0]" "[(''A'', \<lparr>el_display = [], el_original = None\<rparr>),
      (''B'', \<lparr>el_display = [], el_original = None\<rparr>)]" "\<lambda>_. ''block''" "\<lambda>_. 20"]
  by (auto simp: hash_new_def)

text \<open>The same holds of the vertical panel, for tabs drawn without the marks of a selection
  and as many views as tabs.\<close>

lemma vertical_tabs_exclusive:
  assumes "is \<noteq> []" "\<forall>i \<in> set is. i < length content" "length tabs = length content"
    and "\<forall>c \<in> set tabs. ''CISelected'' \<notin> set (classes c) \<and> list_all (\<lambda>x. \<not> starts_at ''CISelectedSkin_'' x) (classes c)"
  shows "\<exists>p. click_all vtabClicked is (fst (vtab_render tabs content (vtab_new tabs content))) = (p, None) \<and>
           vt_index p = Some (last is) \<and>
           (\<forall>j < length content.
              (''CISelected'' \<in> set (classes (vt_tabs p ! j)) \<longleftrightarrow> j = last is) \<and>
              (element_isDisplayed (vt_content p ! j) \<longleftrightarrow> j = last is))"
proof -
  let ?p = "fst (vtab_render tabs content (vtab_new tabs content))"
  have "vtabs_ok ?p" "length (vt_content ?p) = length content"
    using assms(3,4) by (auto simp: vtabs_ok_def vall_off_def vtab_render_def vtab_new_def unpicked_def)
  then show ?thesis using vtabs.last_click_shown [of ?p "is"] assms(1,2) by auto
qed



end
