(* ===== verification/CI_Lists.thy ===== *)
theory CI_Lists
  imports CI_Tabs
begin

section \<open>Lists and menus\<close>

text \<open>
  \<open>CISourceList\<close> shows a collection of records in cells of which one may be selected, and keeps the
  selection over a reload by an identifying property; \<open>CIMenu\<close> is a list of items that is in the
  document only while it is shown. The field that refers to the selected element is the position of
  its cell, \<open>Gone\<close> once the cell was destroyed. The events that \<open>set\<close> fires for the fields are those of
  \<open>CI_Object\<close> and are not repeated here.
\<close>

subsection \<open>CISourceList\<close>

record sl_cell =
  c_elem :: cell_elem
  c_index :: "nat option"
  c_content :: jsval
  c_color :: jsval

record source_list =
  sl_labelProperty :: string
  sl_identifyBy :: string
  sl_renderer :: "(jsval \<Rightarrow> jsval \<Rightarrow> jsval) option"
  sl_style :: props
  sl_collection :: "jsval list"
  sl_collectionLength :: nat
  sl_selected :: jsval
  sl_index :: "nat option"
  sl_element :: sub_ref
  sl_cells :: "sl_cell list option"

definition source_list_new :: "jsval \<Rightarrow> jsval \<Rightarrow> (jsval \<Rightarrow> jsval \<Rightarrow> jsval) option \<Rightarrow> props \<Rightarrow> jsval \<Rightarrow> source_list" where
  "source_list_new labelProperty identifyBy renderer style collection =
     \<lparr>sl_labelProperty = (if nullish labelProperty then ''label'' else to_string labelProperty),
      sl_identifyBy = (if nullish identifyBy then ''id'' else to_string identifyBy),
      sl_renderer = renderer, sl_style = style, sl_collection = splat collection,
      sl_collectionLength = length (splat collection), sl_selected = JNull, sl_index = None,
      sl_element = NoSub, sl_cells = None\<rparr>"

definition source_list_setCollection :: "jsval \<Rightarrow> source_list \<Rightarrow> source_list" where
  "source_list_setCollection newCollection l =
     l\<lparr>sl_collection := splat newCollection, sl_collectionLength := length (splat newCollection)\<rparr>"

definition map_cell :: "nat \<Rightarrow> (cell_elem \<Rightarrow> cell_elem) \<Rightarrow> sl_cell list \<Rightarrow> sl_cell list" where
  "map_cell i f cs = (if i < length cs then cs[i := (cs ! i)\<lparr>c_elem := f (c_elem (cs ! i))\<rparr>] else cs)"

text \<open>The two calls of \<open>CISelectionStyle\<close> on a cell that exists.\<close>

definition mark :: "cell_elem \<Rightarrow> cell_elem" where
  "mark e = (case select_style False (Some e) of Inr e' \<Rightarrow> e' | Inl _ \<Rightarrow> e)"

definition unmark :: "cell_elem \<Rightarrow> cell_elem" where
  "unmark e = (case unselect_style (Some e) of Inr e' \<Rightarrow> e' | Inl _ \<Rightarrow> e)"

definition unmark_selected :: "source_list \<Rightarrow> source_list" where
  "unmark_selected l =
     (case sl_element l of Live i \<Rightarrow> l\<lparr>sl_cells := map_option (map_cell i unmark) (sl_cells l)\<rparr> | _ \<Rightarrow> l)"

definition deselect :: "source_list \<Rightarrow> source_list \<times> fired list" where
  "deselect l =
     ((unmark_selected l)\<lparr>sl_element := NoSub, sl_index := None, sl_selected := JNull\<rparr>, [(''Deselected'', [])])"

text \<open>\<open>_selectElement\<close>, for the cell at position \<open>k\<close>; the cell of an empty list has no index.\<close>

definition selectElement :: "nat \<Rightarrow> sl_cell list \<Rightarrow> source_list \<Rightarrow> source_list \<times> fired list" where
  "selectElement k cs l =
     (case deselect l of (l1, ev) \<Rightarrow>
        let idx = c_index (cs ! k);
            sel = (case idx of None \<Rightarrow> JUndef | Some i \<Rightarrow> arr_get (sl_collection l1) i);
            sel' = (if nullish sel then JNull else sel)
        in (l1\<lparr>sl_element := Live k, sl_index := idx, sl_selected := sel',
               sl_cells := map_option (map_cell k mark) (sl_cells l1)\<rparr>,
            ev @ [(''Selected'', [sel']), (''Changed'', [])]))"

text \<open>A click on a cell of the drawn list; the cell of an empty list has no handler.\<close>

definition onCellClick :: "nat \<Rightarrow> source_list \<Rightarrow> source_list \<times> fired list" where
  "onCellClick k l =
     (case sl_cells l of
        None \<Rightarrow> (l, [])
      | Some cs \<Rightarrow>
          if k < length cs \<and> c_index (cs ! k) \<noteq> None then
            (case selectElement k cs (unmark_selected l) of (l', ev) \<Rightarrow> (l', (''Clicked'', []) # ev))
          else (l, []))"

definition empty_cell :: sl_cell where
  "empty_cell =
     \<lparr>c_elem = \<lparr>classes = [''CISourceListEmptyListCell'', ''CISourceListCell''], store = [], elem_height = 0\<rparr>,
      c_index = None, c_content = JStr ''No Data'', c_color = JUndef\<rparr>"

definition make_cell :: "(jsval \<Rightarrow> rat) \<Rightarrow> source_list \<Rightarrow> nat \<Rightarrow> jsval \<Rightarrow> jsval \<Rightarrow> sl_cell" where
  "make_cell height l i v item =
     \<lparr>c_elem = \<lparr>classes = [''CISourceListCell''], store = [], elem_height = height v\<rparr>, c_index = Some i,
      c_content = (case sl_renderer l of None \<Rightarrow> v | Some r \<Rightarrow> r v item),
      c_color = hash_get (sl_style l) (if i mod 2 = 0 then ''evenBackgroundColor'' else ''oddBackgroundColor'')\<rparr>"

text \<open>The loop of \<open>render\<close> from position \<open>i\<close> on: a cell for each record, selected if the record is
  identified with the selected one.\<close>

fun fill_cells :: "(jsval \<Rightarrow> rat) \<Rightarrow> nat \<Rightarrow> jsval list \<Rightarrow> source_list \<Rightarrow> source_list \<times> fired list \<times> js_error option" where
  "fill_cells height i [] l = (l, [], None)"
| "fill_cells height i (item # items) l =
     (case (case item of JStr s \<Rightarrow> Inr item | _ \<Rightarrow> read_prop item (sl_labelProperty l)) of
        Inl e \<Rightarrow> (l, [], Some e)
      | Inr v \<Rightarrow>
          (let cs = (case sl_cells l of None \<Rightarrow> [] | Some cs \<Rightarrow> cs) @ [make_cell height l i v item];
               l1 = l\<lparr>sl_cells := Some cs\<rparr>;
               same = truthy (sl_selected l) \<and>
                 (case (read_prop (sl_selected l) (sl_identifyBy l), read_prop item (sl_identifyBy l)) of
                    (Inr a, Inr b) \<Rightarrow> js_seq a b | _ \<Rightarrow> False);
               (l2, ev) = (if same then selectElement i cs l1 else (l1, []))
           in case fill_cells height (Suc i) items l2 of (l3, ev3, err) \<Rightarrow> (l3, ev @ ev3, err)))"

text \<open>\<open>render\<close>: the cells are removed first, which an undrawn list does not have.\<close>

definition source_list_render :: "(jsval \<Rightarrow> rat) \<Rightarrow> source_list \<Rightarrow> source_list \<times> fired list \<times> js_error option" where
  "source_list_render height l =
     (case sl_cells l of
        None \<Rightarrow> (l, [], Some TypeError)
      | Some _ \<Rightarrow>
          (let l0 = l\<lparr>sl_cells := Some [], sl_element := (case sl_element l of NoSub \<Rightarrow> NoSub | _ \<Rightarrow> Gone)\<rparr>
           in if sl_collection l = [] then (l0\<lparr>sl_cells := Some [empty_cell]\<rparr>, [], None)
              else (case fill_cells height 0 (sl_collection l0) l0 of
                      (l1, ev, Some e) \<Rightarrow> (l1, ev, Some e)
                    | (l1, ev, None) \<Rightarrow> (l1, ev @ [(''Rendered'', [])], None))))"

text \<open>The element is made without cells and rendered when it has been added.\<close>

definition source_list_draw :: "(jsval \<Rightarrow> rat) \<Rightarrow> source_list \<Rightarrow> source_list \<times> fired list \<times> js_error option" where
  "source_list_draw height l =
     (if sl_cells l = None then source_list_render height (l\<lparr>sl_cells := Some []\<rparr>) else (l, [], None))"

definition source_list_onGotData :: "(jsval \<Rightarrow> rat) \<Rightarrow> jsval \<Rightarrow> source_list \<Rightarrow> source_list \<times> fired list \<times> js_error option" where
  "source_list_onGotData height collection l = source_list_render height (source_list_setCollection collection l)"

definition identified :: "jsval \<Rightarrow> source_list \<Rightarrow> jsval \<Rightarrow> js_error + bool" where
  "identified v l item = bindE (read_prop item (sl_identifyBy l)) (\<lambda>a. Inr (js_eq a v))"

fun find_item :: "jsval \<Rightarrow> source_list \<Rightarrow> nat \<Rightarrow> jsval list \<Rightarrow> js_error + nat option" where
  "find_item v l i [] = Inr None"
| "find_item v l i (x # xs) = bindE (identified v l x) (\<lambda>b. if b then Inr (Some i) else find_item v l (Suc i) xs)"

definition hasObjectWithValue :: "jsval \<Rightarrow> source_list \<Rightarrow> js_error + bool" where
  "hasObjectWithValue v l = bindE (find_item v l 0 (sl_collection l)) (\<lambda>r. Inr (r \<noteq> None))"

definition selectByIndex :: "nat \<Rightarrow> source_list \<Rightarrow> js_error + source_list \<times> fired list" where
  "selectByIndex i l =
     (case sl_cells l of
        None \<Rightarrow> Inl TypeError
      | Some cs \<Rightarrow> if i < length cs then Inr (selectElement i cs l) else Inr (l, []))"

definition selectByProperty :: "jsval \<Rightarrow> source_list \<Rightarrow> js_error + source_list \<times> fired list" where
  "selectByProperty v l =
     bindE (find_item v l 0 (sl_collection l)) (\<lambda>r.
       case r of
         None \<Rightarrow> Inr (l, [])
       | Some i \<Rightarrow>
           (case sl_cells l of
              None \<Rightarrow> Inl TypeError
            | Some cs \<Rightarrow> if i < length cs then Inr (selectElement i cs l) else Inl TypeError))"

text \<open>The element of the list, around the title and the toolbar drawn for it; and its resizing, which gives
  the cells the height the title leaves (\<open>NaN\<close> without a height).\<close>

definition source_list_element :: "string \<Rightarrow> string \<Rightarrow> cirect \<Rightarrow> dom \<Rightarrow> dom \<Rightarrow> dom" where
  "source_list_element elem_id cls frame title toolbar =
     Node ''div'' [(''id'', JStr elem_id), (''class'', JStr (''CISourceList '' @ cls)), (''styles'', JObj (toCssStylesObject [] None None frame))]
       [Node ''div'' [(''id'', JStr (elem_id @ ''_CISourceListTitleContainer'')), (''class'', JStr ''CISourceListTitleContainer'')]
          [title, toolbar],
        Node ''div'' [(''id'', JStr (elem_id @ ''_CISourceListCellContainer'')), (''class'', JStr ''CISourceListCellContainer'')] []]"

definition source_list_viewResized :: "jsval option \<Rightarrow> jsval option \<Rightarrow> rat \<Rightarrow> cirect \<Rightarrow> props \<Rightarrow> props \<Rightarrow> props \<times> props" where
  "source_list_viewResized view_w view_h title_height frame el container =
     (let newSize = toCssStylesObject [] view_w view_h frame
      in (fold (\<lambda>(k, v). AList.update k v) newSize el,
          AList.update ''height'' (js_minus (get_prop newSize ''height'') (JNum title_height))
            (AList.update ''overflow'' (JStr ''auto'') container)))"

subsection \<open>CIMenu\<close>

record menu =
  mn_items :: "jsval list"
  mn_selected :: jsval
  mn_index :: "nat option"
  mn_cells :: "cell_elem list option"

definition menu_new :: "jsval \<Rightarrow> menu" where
  "menu_new items = \<lparr>mn_items = splat items, mn_selected = JNull, mn_index = None, mn_cells = None\<rparr>"

definition menu_cells :: "(nat \<Rightarrow> rat) \<Rightarrow> nat \<Rightarrow> cell_elem list" where
  "menu_cells height n =
     map (\<lambda>i. \<lparr>classes = [''CIMenuItem'', ''CIHoverableSkin'', ''CIClickableSkin'', if i mod 2 = 0 then ''CIEvenSkin'' else ''CIOddSkin''],
                store = [], elem_height = height i\<rparr>) [0..<n]"

definition menu_element :: "string \<Rightarrow> props \<Rightarrow> props \<Rightarrow> jsval \<Rightarrow> jsval \<Rightarrow> menu \<Rightarrow> dom" where
  "menu_element elem_id offsetStyles cssStyles height width m =
     Node ''div'' [(''id'', JStr elem_id), (''class'', JStr ''CIMenu''), (''styles'', JObj (moo_extend offsetStyles cssStyles))]
       [Node ''div''
          [(''class'', JStr ''CIMenuContentContainer''),
           (''styles'', JObj (interpretStyles [(''CIFirmHeight'', height), (''CIFirmWidth'', width)]))]
          (map (\<lambda>(i, item). Node ''div''
             [(''id'', JStr (elem_id @ ''_CIMenuItem_'' @ nat_digits i)),
              (''html'', case read_prop item ''html'' of Inr h \<Rightarrow> h | Inl _ \<Rightarrow> JUndef),
              (''class'', JStr (''CIMenuItem CIHoverableSkin CIClickableSkin '' @ (if i mod 2 = 0 then ''CIEvenSkin'' else ''CIOddSkin'')))] [])
             (enumerate 0 (mn_items m))),
        Node ''div'' [(''class'', JStr ''CIMenuCloseContainer'')]
          [Node ''span'' [(''class'', JStr ''CIMenuCloseContainerText''), (''html'', JStr ''Close&nbsp;'')] [],
           Node ''img'' [(''src'', JStr ''/assets/cip/close.png''), (''alt'', JStr ''Close Menu'')] []]]"

text \<open>\<open>show\<close> and \<open>hide\<close> at the end of their animations. Showing makes the element if it is not there and
  marks the selected item; hiding destroys the element.\<close>

definition menu_show :: "(nat \<Rightarrow> rat) \<Rightarrow> menu \<Rightarrow> menu \<times> fired list" where
  "menu_show height m =
     (let cs = (case mn_cells m of None \<Rightarrow> menu_cells height (length (mn_items m)) | Some cs \<Rightarrow> cs)
      in (m\<lparr>mn_cells := Some (map (\<lambda>(i, e). if mn_index m = Some i then mark e else e) (enumerate 0 cs))\<rparr>,
          [(''Shown'', [])]))"

definition menu_hide :: "menu \<Rightarrow> menu \<times> fired list" where
  "menu_hide m = (case mn_cells m of None \<Rightarrow> (m, []) | Some _ \<Rightarrow> (m\<lparr>mn_cells := None\<rparr>, [(''Hidden'', [])]))"

definition menu_toggle :: "(nat \<Rightarrow> rat) \<Rightarrow> menu \<Rightarrow> menu \<times> fired list" where
  "menu_toggle height m = (if mn_cells m \<noteq> None then menu_hide m else menu_show height m)"

text \<open>\<open>_onClick\<close>, called with the event of a click or, from \<open>select\<close>, with a number; the event itself is not
  among the arguments listed.\<close>

definition menu_onClick :: "bool \<Rightarrow> nat \<Rightarrow> menu \<Rightarrow> menu \<times> fired list \<times> js_error option" where
  "menu_onClick is_number index m =
     (let m1 = m\<lparr>mn_selected := arr_get (mn_items m) index, mn_index := Some index\<rparr>
      in case read_prop (mn_selected m1) ''value'' of
           Inl e \<Rightarrow> (m1, [], Some e)
         | Inr v \<Rightarrow>
             (case menu_hide m1 of (m2, ev) \<Rightarrow>
                (m2, (''Changed'', [v]) # (if is_number then [] else [(''Clicked'', [v])]) @ ev, None)))"

definition menu_getValue :: "menu \<Rightarrow> js_error + jsval" where
  "menu_getValue m = read_prop (mn_selected m) ''value''"

definition menu_select :: "nat \<Rightarrow> menu \<Rightarrow> menu \<times> fired list \<times> js_error option" where
  "menu_select i m = (if truthy (arr_get (mn_items m) i) then menu_onClick True i m else (m, [], None))"

subsection \<open>Lemmas\<close>

lemma mark_picked: "unpicked e \<Longrightarrow> picked False (mark e)"
  using select_unpicked [of e False] by (auto simp: mark_def)

lemma unmark_picked: "picked inverted e \<Longrightarrow> unpicked (unmark e)"
  using unselect_picked [of inverted e] by (auto simp: unmark_def)

lemma unmark_unpicked: "unpicked e \<Longrightarrow> unpicked (unmark e)"
  using unselect_unpicked [of e] by (auto simp: unmark_def)

lemma js_seq_eq: "js_seq a b \<Longrightarrow> a = b"
  by (induction a b rule: js_seq.induct) auto

text \<open>Exactly the cell an element reference points to is marked.\<close>

definition cells_marked :: "sub_ref \<Rightarrow> sl_cell list \<Rightarrow> bool" where
  "cells_marked r cs =
     ((\<forall>j < length cs. if r = Live j then picked False (c_elem (cs ! j)) else unpicked (c_elem (cs ! j))) \<and>
      (\<forall>j. r = Live j \<longrightarrow> j < length cs))"

lemma length_map_cell [simp]: "length (map_cell i f cs) = length cs"
  by (simp add: map_cell_def)

lemma c_index_map_cell [simp]: "j < length cs \<Longrightarrow> c_index (map_cell i f cs ! j) = c_index (cs ! j)"
  by (simp add: map_cell_def nth_list_update)

lemma elem_map_cell:
  "j < length cs \<Longrightarrow> c_elem (map_cell i f cs ! j) = (if j = i then f (c_elem (cs ! j)) else c_elem (cs ! j))"
  by (auto simp: map_cell_def nth_list_update)

lemma cells_marked_unmark: "cells_marked (Live i) cs \<Longrightarrow> cells_marked NoSub (map_cell i unmark cs)"
  by (fastforce simp: cells_marked_def elem_map_cell intro: unmark_picked)

lemma cells_marked_mark: "cells_marked NoSub cs \<Longrightarrow> k < length cs \<Longrightarrow> cells_marked (Live k) (map_cell k mark cs)"
  by (auto simp: cells_marked_def elem_map_cell intro: mark_picked)

lemma cells_marked_NoLive: "cells_marked r cs \<Longrightarrow> (\<And>j. r \<noteq> Live j) \<Longrightarrow> cells_marked NoSub cs"
  by (auto simp: cells_marked_def)

lemma cells_marked_again: "cells_marked NoSub cs \<Longrightarrow> cells_marked NoSub (map_cell i unmark cs)"
  by (auto simp: cells_marked_def elem_map_cell intro: unmark_unpicked)

lemma cells_marked_snoc:
  "cells_marked r cs \<Longrightarrow> unpicked (c_elem c) \<Longrightarrow> cells_marked r (cs @ [c])"
  by (auto simp: cells_marked_def nth_append less_Suc_eq)

lemma deselect_marked:
  assumes "sl_cells l = Some cs" "cells_marked (sl_element l) cs"
  shows "\<exists>cs'. sl_cells (fst (deselect l)) = Some cs' \<and> cells_marked NoSub cs' \<and> length cs' = length cs"
  using assms
  by (auto simp: deselect_def unmark_selected_def cells_marked_unmark cells_marked_NoLive split: sub_ref.splits)

text \<open>Selecting a cell of a list in order leaves the list in order, with that cell the marked one.\<close>

lemma selectElement_marked:
  assumes "sl_cells l = Some cs" "cells_marked (sl_element l) cs" "k < length cs" "c_index (cs ! k) = Some i"
    and "\<not> nullish (arr_get (sl_collection l) i)"
  shows "\<exists>cs' ev. selectElement k cs l =
             (l\<lparr>sl_element := Live k, sl_index := Some i, sl_selected := arr_get (sl_collection l) i, sl_cells := Some cs'\<rparr>, ev) \<and>
           cells_marked (Live k) cs' \<and> length cs' = length cs"
proof -
  obtain cs1 where cs1: "sl_cells (fst (deselect l)) = Some cs1" "cells_marked NoSub cs1" "length cs1 = length cs"
    using deselect_marked [OF assms(1,2)] by blast
  moreover have "fst (deselect l) = l\<lparr>sl_element := NoSub, sl_index := None, sl_selected := JNull, sl_cells := sl_cells (fst (deselect l))\<rparr>"
    by (simp add: deselect_def unmark_selected_def split: sub_ref.splits)
  ultimately have "selectElement k cs l =
      (l\<lparr>sl_element := Live k, sl_index := Some i, sl_selected := arr_get (sl_collection l) i, sl_cells := Some (map_cell k mark cs1)\<rparr>,
       snd (selectElement k cs l))"
    using assms(4,5) by (auto simp: selectElement_def Let_def split: prod.splits)
  then show ?thesis using cs1 assms(3) cells_marked_mark [OF cs1(2), of k] by force
qed

text \<open>The loop of \<open>render\<close>, over records that are neither \<open>null\<close> nor falsy. Its invariant: the cells drawn so
  far are marked as the selection says, and the selected record is still identified as at the start.\<close>

definition ident :: "source_list \<Rightarrow> jsval \<Rightarrow> jsval" where
  "ident l x = (case read_prop x (sl_identifyBy l) of Inr b \<Rightarrow> b | Inl _ \<Rightarrow> JUndef)"

definition ready :: "jsval \<Rightarrow> nat \<Rightarrow> source_list \<Rightarrow> bool" where
  "ready a i l =
     (\<exists>cs. sl_cells l = Some cs \<and> length cs = i \<and> cells_marked (sl_element l) cs \<and>
        truthy (sl_selected l) \<and> ident l (sl_selected l) = a)"

definition same_setup :: "source_list \<Rightarrow> source_list \<Rightarrow> bool" where
  "same_setup l l' =
     (sl_collection l' = sl_collection l \<and> sl_identifyBy l' = sl_identifyBy l \<and>
      sl_labelProperty l' = sl_labelProperty l)"

definition selection :: "source_list \<Rightarrow> sub_ref \<times> nat option \<times> jsval" where
  "selection l = (sl_element l, sl_index l, sl_selected l)"

lemma truthy_not_nullish: "truthy x \<Longrightarrow> \<not> nullish x"
  by (cases x) auto

lemma read_prop_ident: "truthy x \<Longrightarrow> read_prop x (sl_identifyBy l) = Inr (ident l x)"
  by (cases x) (auto simp: ident_def)

lemma make_cell_unpicked: "unpicked (c_elem (make_cell height l i v item))"
  by (simp add: make_cell_def unpicked_def starts_at_def)

lemma fill_one:
  assumes "ready a i l" "truthy x" "arr_get (sl_collection l) i = x"
  shows "\<exists>l2 ev. ready a (Suc i) l2 \<and> same_setup l l2 \<and>
           selection l2 = (if js_seq a (ident l x) then (Live i, Some i, x) else selection l) \<and>
           (\<forall>xs. fill_cells height i (x # xs) l =
              (case fill_cells height (Suc i) xs l2 of (l3, ev3, err) \<Rightarrow> (l3, ev @ ev3, err)))"
proof -
  obtain cs where cs: "sl_cells l = Some cs" "length cs = i" "cells_marked (sl_element l) cs"
      and sel: "truthy (sl_selected l)" "ident l (sl_selected l) = a"
    using assms(1) by (auto simp: ready_def)
  obtain v where v: "(case x of JStr s \<Rightarrow> Inr x | _ \<Rightarrow> read_prop x (sl_labelProperty l)) = (Inr v :: js_error + jsval)"
    using assms(2) by (cases x) auto
  let ?cs = "cs @ [make_cell height l i v x]"
  let ?l1 = "l\<lparr>sl_cells := Some ?cs\<rparr>"
  have marked: "cells_marked (sl_element ?l1) ?cs"
    using cs(3) by (simp add: cells_marked_snoc make_cell_unpicked)
  have idx: "c_index (?cs ! i) = Some i" using cs(2) by (simp add: nth_append make_cell_def)
  show ?thesis
  proof (cases "js_seq a (ident l x)")
    case True
    obtain cs' ev where sE: "selectElement i ?cs ?l1 =
        (?l1\<lparr>sl_element := Live i, sl_index := Some i, sl_selected := x, sl_cells := Some cs'\<rparr>, ev)"
        "cells_marked (Live i) cs'" "length cs' = length ?cs"
      using selectElement_marked [OF _ marked _ idx] assms(2,3) cs(2) truthy_not_nullish [OF assms(2)] by auto
    let ?l2 = "?l1\<lparr>sl_element := Live i, sl_index := Some i, sl_selected := x, sl_cells := Some cs'\<rparr>"
    have "ready a (Suc i) ?l2" "same_setup l ?l2" "selection ?l2 = (Live i, Some i, x)"
      using sE(2,3) cs(2) assms(2) js_seq_eq [OF True]
      by (simp_all add: ready_def same_setup_def selection_def ident_def)
    moreover have "fill_cells height i (x # xs) l =
        (case fill_cells height (Suc i) xs ?l2 of (l3, ev3, err) \<Rightarrow> (l3, ev @ ev3, err))" for xs
      using True v cs(1) sel sE(1)
      by (simp add: Let_def read_prop_ident [OF sel(1)] read_prop_ident [OF assms(2)])
    ultimately show ?thesis using True by (intro exI [of _ ?l2] exI [of _ ev]) simp
  next
    case False
    have "ready a (Suc i) ?l1" "same_setup l ?l1" "selection ?l1 = selection l"
      using marked cs(2) sel by (simp_all add: ready_def same_setup_def selection_def ident_def)
    moreover have "fill_cells height i (x # xs) l =
        (case fill_cells height (Suc i) xs ?l1 of (l3, ev3, err) \<Rightarrow> (l3, [] @ ev3, err))" for xs
      using False v cs(1) sel
      by (simp add: Let_def read_prop_ident [OF sel(1)] read_prop_ident [OF assms(2)])
    ultimately show ?thesis using False by (intro exI [of _ ?l1] exI [of _ "[]"]) simp
  qed
qed

text \<open>The last record that satisfies a predicate.\<close>

fun last_such :: "(jsval \<Rightarrow> bool) \<Rightarrow> nat \<Rightarrow> jsval list \<Rightarrow> nat option" where
  "last_such P i [] = None"
| "last_such P i (x # xs) =
     (case last_such P (Suc i) xs of Some k \<Rightarrow> Some k | None \<Rightarrow> if P x then Some i else None)"

lemma last_such_None: "(\<And>x. x \<in> set xs \<Longrightarrow> \<not> P x) \<Longrightarrow> last_such P i xs = None"
  by (induction xs arbitrary: i) auto

lemma last_such_nth:
  "k < length xs \<Longrightarrow> P (xs ! k) \<Longrightarrow> (\<And>j. k < j \<Longrightarrow> j < length xs \<Longrightarrow> \<not> P (xs ! j)) \<Longrightarrow>
   last_such P i xs = Some (i + k)"
proof (induction xs arbitrary: i k)
  case (Cons x xs)
  show ?case
  proof (cases k)
    case 0
    have "\<not> P y" if y: "y \<in> set xs" for y
    proof -
      obtain j where "j < length xs" "y = xs ! j" using y by (auto simp: in_set_conv_nth)
      then show ?thesis using Cons.prems(3) [of "Suc j"] 0 by simp
    qed
    then have "last_such P (Suc i) xs = None" by (rule last_such_None)
    with Cons.prems(2) 0 show ?thesis by simp
  next
    case (Suc k')
    have "last_such P (Suc i) xs = Some (Suc i + k')"
      using Cons.prems(1,2) Suc
    proof (intro Cons.IH)
      fix j
      assume "k' < j" "j < length xs"
      then show "\<not> P (xs ! j)" using Cons.prems(3) [of "Suc j"] Suc by simp
    qed auto
    with Suc show ?thesis by simp
  qed
qed simp

lemma fill_all:
  assumes "ready a i l" "\<forall>x \<in> set items. truthy x" "drop i (sl_collection l) = items" "i \<le> length (sl_collection l)"
  shows "\<exists>l' ev. fill_cells height i items l = (l', ev, None) \<and> ready a (i + length items) l' \<and> same_setup l l' \<and>
           selection l' = (case last_such (\<lambda>x. js_seq a (ident l x)) i items of
                             None \<Rightarrow> selection l
                           | Some k \<Rightarrow> (Live k, Some k, sl_collection l ! k))"
  using assms
proof (induction items arbitrary: i l)
  case (Cons x items)
  have i: "i < length (sl_collection l)" using Cons.prems(3) by (metis drop_eq_Nil leI list.distinct(1))
  then have x: "sl_collection l ! i = x" "drop (Suc i) (sl_collection l) = items"
    using Cons.prems(3) by (metis Cons_nth_drop_Suc list.inject)+
  obtain l2 ev where l2: "ready a (Suc i) l2" "same_setup l l2"
      "selection l2 = (if js_seq a (ident l x) then (Live i, Some i, x) else selection l)"
      "\<And>xs. fill_cells height i (x # xs) l =
         (case fill_cells height (Suc i) xs l2 of (l3, ev3, err) \<Rightarrow> (l3, ev @ ev3, err))"
    using fill_one [OF Cons.prems(1), of x height] Cons.prems(2) x(1) i by auto
  have fixed: "sl_collection l2 = sl_collection l" "ident l2 = ident l"
    using l2(2) by (auto simp: same_setup_def ident_def fun_eq_iff)
  obtain l' ev' where "fill_cells height (Suc i) items l2 = (l', ev', None)" "ready a (Suc i + length items) l'"
      "same_setup l2 l'"
      "selection l' = (case last_such (\<lambda>x. js_seq a (ident l2 x)) (Suc i) items of
                         None \<Rightarrow> selection l2 | Some k \<Rightarrow> (Live k, Some k, sl_collection l2 ! k))"
    using Cons.IH [OF l2(1)] Cons.prems(2) x(2) i fixed(1) by auto
  with l2 fixed x(1) show ?case by (auto simp: same_setup_def split: option.splits)
qed (simp add: same_setup_def)

text \<open>Whatever the records, the loop keeps the cells marked as the selection says.\<close>

lemma selectElement_keeps:
  assumes "sl_cells l = Some cs" "cells_marked (sl_element l) cs" "k < length cs"
  shows "\<exists>cs'. sl_cells (fst (selectElement k cs l)) = Some cs' \<and> length cs' = length cs \<and>
           cells_marked (sl_element (fst (selectElement k cs l))) cs'"
proof -
  obtain cs1 where "sl_cells (fst (deselect l)) = Some cs1" "cells_marked NoSub cs1" "length cs1 = length cs"
    using deselect_marked [OF assms(1,2)] by blast
  with assms(3) show ?thesis
    by (auto simp: selectElement_def Let_def cells_marked_mark split: prod.splits)
qed

lemma fill_cells_keeps:
  "sl_cells l = Some cs \<Longrightarrow> length cs = i \<Longrightarrow> cells_marked (sl_element l) cs \<Longrightarrow>
   \<exists>cs'. sl_cells (fst (fill_cells height i items l)) = Some cs' \<and>
     cells_marked (sl_element (fst (fill_cells height i items l))) cs'"
proof (induction items arbitrary: i l cs)
  case (Cons x items)
  show ?case
  proof (cases "(case x of JStr s \<Rightarrow> Inr x | _ \<Rightarrow> read_prop x (sl_labelProperty l)) :: js_error + jsval")
    case (Inl e)
    with Cons.prems show ?thesis by simp
  next
    case (Inr v)
    let ?cs = "cs @ [make_cell height l i v x]"
    let ?l1 = "l\<lparr>sl_cells := Some ?cs\<rparr>"
    let ?same = "truthy (sl_selected l) \<and>
        (case (read_prop (sl_selected l) (sl_identifyBy l), read_prop x (sl_identifyBy l)) of
           (Inr a, Inr b) \<Rightarrow> js_seq a b | _ \<Rightarrow> False)"
    obtain l2 ev where l2: "(if ?same then selectElement i ?cs ?l1 else (?l1, [])) = (l2, ev)"
      by fastforce
    have "cells_marked (sl_element ?l1) ?cs"
      using Cons.prems(3) by (simp add: cells_marked_snoc make_cell_unpicked)
    then obtain cs2 where "sl_cells l2 = Some cs2" "length cs2 = Suc i" "cells_marked (sl_element l2) cs2"
      using l2 selectElement_keeps [of ?l1 ?cs i] Cons.prems(2) by (auto split: if_splits)
    then show ?thesis
      using Cons.IH [of l2 cs2 "Suc i"] Inr l2 Cons.prems(1)
      by (simp add: Let_def case_prod_unfold)
  qed
qed auto

text \<open>The operations of a drawn list as a state machine; its invariant is that the marked cell is the
  selected one.\<close>

inductive list_step :: "(jsval \<Rightarrow> rat) \<Rightarrow> source_list \<Rightarrow> source_list \<Rightarrow> bool" for height where
  ls_click: "list_step height l (fst (onCellClick k l))"
| ls_deselect: "list_step height l (fst (deselect l))"
| ls_index: "selectByIndex k l = Inr (l', ev) \<Longrightarrow> list_step height l l'"
| ls_property: "selectByProperty v l = Inr (l', ev) \<Longrightarrow> list_step height l l'"
| ls_data: "list_step height l (fst (source_list_onGotData height c l))"
| ls_render: "list_step height l (fst (source_list_render height l))"

inductive_cases list_stepE: "list_step height l l'"

definition list_ok :: "source_list \<Rightarrow> bool" where
  "list_ok l = (\<exists>cs. sl_cells l = Some cs \<and> cells_marked (sl_element l) cs)"

lemma render_ok: "sl_cells l \<noteq> None \<Longrightarrow> list_ok (fst (source_list_render height l))"
proof -
  assume drawn: "sl_cells l \<noteq> None"
  let ?l0 = "l\<lparr>sl_cells := Some [], sl_element := (case sl_element l of NoSub \<Rightarrow> NoSub | _ \<Rightarrow> Gone)\<rparr>"
  have off: "sl_element ?l0 \<noteq> Live j" for j by (simp split: sub_ref.splits)
  then have "cells_marked (sl_element ?l0) []" by (auto simp: cells_marked_def)
  then obtain cs' where "sl_cells (fst (fill_cells height 0 (sl_collection l) ?l0)) = Some cs'"
      "cells_marked (sl_element (fst (fill_cells height 0 (sl_collection l) ?l0))) cs'"
    using fill_cells_keeps [of ?l0 "[]" 0 height "sl_collection l"] by auto
  moreover have "cells_marked (sl_element ?l0) [empty_cell]"
    using off by (auto simp: cells_marked_def empty_cell_def unpicked_def starts_at_def)
  ultimately show ?thesis
    using drawn by (auto simp: source_list_render_def list_ok_def Let_def split: prod.splits option.splits)
qed

lemma select_ok: "sl_cells l = Some cs \<Longrightarrow> list_ok l \<Longrightarrow> k < length cs \<Longrightarrow> list_ok (fst (selectElement k cs l))"
  using selectElement_keeps [of l cs k] by (auto simp: list_ok_def)

lemma unmark_selected_ok:
  assumes "sl_cells l = Some cs" "cells_marked (sl_element l) cs"
  shows "\<exists>cs'. sl_cells (unmark_selected l) = Some cs' \<and> cells_marked NoSub cs' \<and> length cs' = length cs"
  using deselect_marked [OF assms] by (simp add: deselect_def)

text \<open>A click takes the mark off twice; the second time it is no longer there.\<close>

lemma click_marked:
  assumes "sl_cells l = Some cs" "cells_marked (sl_element l) cs" "k < length cs"
  shows "\<exists>cs'. sl_cells (fst (selectElement k cs (unmark_selected l))) = Some cs' \<and>
           cells_marked (Live k) cs' \<and> sl_element (fst (selectElement k cs (unmark_selected l))) = Live k"
proof -
  obtain cs1 where cs1: "sl_cells (unmark_selected l) = Some cs1" "cells_marked NoSub cs1" "length cs1 = length cs"
    using unmark_selected_ok [OF assms(1,2)] by blast
  have "\<exists>cs2. sl_cells (fst (deselect (unmark_selected l))) = Some cs2 \<and> cells_marked NoSub cs2 \<and> length cs2 = length cs"
    using cs1 by (auto simp: deselect_def unmark_selected_def [of "unmark_selected l"] cells_marked_again split: sub_ref.splits)
  with assms(3) show ?thesis
    by (auto simp: selectElement_def Let_def cells_marked_mark split: prod.splits)
qed

interpretation lists: machine "\<lambda>l. \<exists>l0. sl_cells l0 = None \<and> l = fst (source_list_draw height l0)" "list_step height" list_ok
  for height
proof
  fix l :: source_list
  assume "\<exists>l0. sl_cells l0 = None \<and> l = fst (source_list_draw height l0)"
  then show "list_ok l" using render_ok by (auto simp: source_list_draw_def)
next
  fix l l'
  assume ok: "list_ok l" and "list_step height l l'"
  from this(2) show "list_ok l'"
  proof cases
    case (ls_click k)
    then show ?thesis
      using ok click_marked [of l _ k] by (auto simp: onCellClick_def list_ok_def split: prod.splits)
  next
    case ls_deselect
    then show ?thesis using ok deselect_marked [of l] by (auto simp: list_ok_def deselect_def)
  next
    case (ls_index k ev)
    then show ?thesis
      using ok select_ok [of l _ k] by (auto simp: selectByIndex_def split: option.splits if_splits)
  next
    case (ls_property v ev)
    then show ?thesis
      using ok select_ok [of l] by (auto simp: selectByProperty_def err_simps split: option.splits if_splits) (metis fst_conv)
  next
    case (ls_data c)
    then show ?thesis
      using ok by (auto simp: source_list_onGotData_def source_list_setCollection_def list_ok_def intro: render_ok [unfolded list_ok_def])
  next
    case ls_render
    then show ?thesis using ok render_ok by (auto simp: list_ok_def)
  qed
qed

lemma marked_classes:
  "cells_marked r cs \<Longrightarrow> j < length cs \<Longrightarrow> ''CISelected'' \<in> set (classes (c_elem (cs ! j))) \<longleftrightarrow> r = Live j"
  by (cases "r = Live j")
    (fastforce simp: cells_marked_def dest: picked_selected unpicked_not_selected)+

subsection \<open>Properties\<close>

text \<open>Property C12. In every state a drawn list can reach, by clicks, selections, reloads of any data and
  renderings, the marked cells are exactly the one the list holds as its selected element, and none
  when there is no such element among the cells.\<close>

theorem list_marks_selected:
  assumes "sl_cells l0 = None" "(list_step height)\<^sup>*\<^sup>* (fst (source_list_draw height l0)) l"
  shows "\<exists>cs. sl_cells l = Some cs \<and>
           (\<forall>j < length cs. ''CISelected'' \<in> set (classes (c_elem (cs ! j))) \<longleftrightarrow> sl_element l = Live j)"
  using lists.reachable_inv [of "fst (source_list_draw height l0)" height l] assms marked_classes
  by (auto simp: list_ok_def)

definition sample_list :: source_list where
  "sample_list = source_list_new JUndef JUndef None [] (JArr [JStr ''a'', JStr ''b''])"

theorem list_marks_selected_witness:
  "\<exists>cs. sl_cells (fst (onCellClick 0 (fst (source_list_draw (\<lambda>_. 20) sample_list)))) = Some cs \<and>
     (\<forall>j < length cs. ''CISelected'' \<in> set (classes (c_elem (cs ! j))) \<longleftrightarrow>
        sl_element (fst (onCellClick 0 (fst (source_list_draw (\<lambda>_. 20) sample_list)))) = Live j)"
proof (rule list_marks_selected)
  show "sl_cells sample_list = None" by (simp add: sample_list_def source_list_new_def)
  show "(list_step (\<lambda>_. 20))\<^sup>*\<^sup>* (fst (source_list_draw (\<lambda>_. 20) sample_list))
      (fst (onCellClick 0 (fst (source_list_draw (\<lambda>_. 20) sample_list))))"
    by (rule r_into_rtranclp) (rule ls_click)
qed

text \<open>A reload keeps the selection: of the new records the last one that is identified with
  the selected record is selected, and its cell alone is marked. Records without the identifying
  property are all identified with each other.\<close>

lemma list_reload_selection:
  assumes "sl_cells l \<noteq> None" "truthy (sl_selected l)" "\<forall>x \<in> set (splat c). truthy x"
    and "k < length (splat c)" "js_seq (ident l (sl_selected l)) (ident l (splat c ! k))"
    and "\<forall>j < length (splat c). k < j \<longrightarrow> \<not> js_seq (ident l (sl_selected l)) (ident l (splat c ! j))"
  shows "\<exists>l' ev cs. source_list_onGotData height c l = (l', ev, None) \<and> sl_index l' = Some k \<and>
           sl_selected l' = splat c ! k \<and> sl_cells l' = Some cs \<and> length cs = length (splat c) \<and>
           (\<forall>j < length cs. ''CISelected'' \<in> set (classes (c_elem (cs ! j))) \<longleftrightarrow> j = k)"
proof -
  let ?l = "source_list_setCollection c l"
  let ?a = "ident l (sl_selected l)"
  define l0 where "l0 = ?l\<lparr>sl_cells := Some [], sl_element := (case sl_element ?l of NoSub \<Rightarrow> NoSub | _ \<Rightarrow> Gone)\<rparr>"
  have id: "ident l0 = ident l" by (simp add: fun_eq_iff ident_def source_list_setCollection_def l0_def)
  have coll: "sl_collection l0 = splat c" by (simp add: source_list_setCollection_def l0_def)
  have "sl_element l0 \<noteq> Live j" for j by (simp add: l0_def split: sub_ref.splits)
  then have "ready ?a 0 l0"
    using assms(2) id by (auto simp: ready_def cells_marked_def source_list_setCollection_def l0_def)
  then obtain l' ev where l': "fill_cells height 0 (splat c) l0 = (l', ev, None)" "ready ?a (length (splat c)) l'"
      "selection l' = (case last_such (\<lambda>x. js_seq ?a (ident l x)) 0 (splat c) of
         None \<Rightarrow> selection l0 | Some k \<Rightarrow> (Live k, Some k, splat c ! k))"
    using fill_all [of ?a 0 l0 "splat c" height, unfolded coll id] assms(3) by auto
  have "last_such (\<lambda>x. js_seq ?a (ident l x)) 0 (splat c) = Some (0 + k)"
    using assms(4-6) by (intro last_such_nth) auto
  then have sel: "sl_element l' = Live k" "sl_index l' = Some k" "sl_selected l' = splat c ! k"
    using l'(3) by (simp_all add: selection_def)
  obtain cs where "sl_cells l' = Some cs" "length cs = length (splat c)" "cells_marked (Live k) cs"
    using l'(2) sel(1) by (auto simp: ready_def)
  moreover have "source_list_onGotData height c l = (l', ev @ [(''Rendered'', [])], None)"
    using l'(1) assms(1,4) coll
    by (auto simp: source_list_onGotData_def source_list_render_def Let_def source_list_setCollection_def l0_def)
  ultimately show ?thesis using sel marked_classes [of "Live k" cs] by auto
qed

text \<open>Choosing an item of a menu that is shown makes its value the value of the menu,
  announces it as changed and then as clicked, and takes the menu off the page; shown again, the
  menu marks exactly the chosen item.\<close>

lemma menu_choice:
  assumes "mn_cells m = Some cs0" "k < length (mn_items m)" "mn_items m ! k = JObj p"
  shows "\<exists>m' cs. menu_onClick False k m =
             (m', [(''Changed'', [get_prop p ''value'']), (''Clicked'', [get_prop p ''value'']), (''Hidden'', [])], None) \<and>
           mn_cells m' = None \<and> menu_getValue m' = Inr (get_prop p ''value'') \<and>
           mn_cells (fst (menu_show height m')) = Some cs \<and> length cs = length (mn_items m) \<and>
           (\<forall>j < length cs. ''CISelected'' \<in> set (classes (cs ! j)) \<longleftrightarrow> j = k)"
proof -
  let ?m = "m\<lparr>mn_selected := JObj p, mn_index := Some k, mn_cells := None\<rparr>"
  let ?cell = "\<lambda>i. menu_cells height (length (mn_items m)) ! i"
  let ?cs = "map (\<lambda>(i, e). if Some k = Some i then mark e else e) (enumerate 0 (menu_cells height (length (mn_items m))))"
  have "unpicked (?cell j)" if "j < length (mn_items m)" for j
    using that by (simp add: menu_cells_def unpicked_def starts_at_def)
  then have "''CISelected'' \<in> set (classes (?cs ! j)) \<longleftrightarrow> j = k" if "j < length (mn_items m)" for j
    using that mark_picked [of "?cell j"] picked_selected [of False "mark (?cell j)"] unpicked_not_selected [of "?cell j"]
    by (auto simp: nth_enumerate_eq menu_cells_def)
  moreover have "mn_cells (fst (menu_show height ?m)) = Some ?cs" "length ?cs = length (mn_items m)"
    by (simp_all add: menu_show_def Let_def menu_cells_def)
  moreover have "menu_onClick False k m =
      (?m, [(''Changed'', [get_prop p ''value'']), (''Clicked'', [get_prop p ''value'']), (''Hidden'', [])], None)"
    using assms by (simp add: menu_onClick_def menu_hide_def Let_def)
  ultimately show ?thesis
    by (intro exI [of _ ?m] exI [of _ ?cs]) (simp add: menu_getValue_def)
qed

end
