(* ===== verification/CI_Button.thy ===== *)
theory CI_Button
  imports CI_Request CI_Style
begin

section \<open>Buttons\<close>

text \<open>
  \<open>CIButton\<close> with its two variants \<open>CIImageButton\<close> and \<open>CICssButton\<close>: what a click fires and
  requests, the label and the disabled state, and the elements the buttons draw. The style attributes
  of the parts of a drawn button are a record of property lists.
\<close>

subsection \<open>State and drawing\<close>

record 'o cibutton =
  b_id :: string
  b_css :: string
  b_styles :: props
  b_label :: string
  b_iconSrc :: "string option"
  b_disabled :: bool
  b_doNotRequest :: bool
  b_style :: props
  b_request :: "'o cirequest"
  b_drawn :: bool

definition button_new :: "string \<Rightarrow> string option \<Rightarrow> string option \<Rightarrow> bool \<Rightarrow> bool \<Rightarrow>
    (string \<times> request_config) list \<Rightarrow> props \<Rightarrow> 'o cibutton" where
  "button_new bid label icon disabled noRequest methods style =
     \<lparr>b_id = bid, b_css = [], b_styles = [], b_label = (case label of None \<Rightarrow> [] | Some l \<Rightarrow> l),
      b_iconSrc = icon, b_disabled = disabled, b_doNotRequest = noRequest, b_style = style,
      b_request = makeRequestable [] methods, b_drawn = False\<rparr>"

definition button_element :: "'o cibutton \<Rightarrow> dom" where
  "button_element b =
     (let left = Node ''div'' [(''class'', JStr ''CIButtonLeftCap'')] [];
          middle = Node ''div'' [(''class'', JStr ''CIButtonMiddle HasText''), (''html'', JStr (b_label b))] [];
          right = Node ''div'' [(''class'', JStr ''CIButtonRightCap'')] [];
          icon = (case b_iconSrc b of
                    None \<Rightarrow> []
                  | Some src \<Rightarrow>
                      if src = [] then []
                      else [Node ''div'' [(''class'', JStr ''CIButtonMiddle''),
                        (''html'', JStr (''<img src='' @ [CHR 0x22] @ src @ [CHR 0x22] @ '' alt='' @ [CHR 0x22]
                           @ b_label b @ [CHR 0x22] @ '' title='' @ [CHR 0x22] @ b_label b @ [CHR 0x22] @ ''/>''))] []])
      in Node ''div''
           [(''id'', JStr (b_id b)),
            (''class'', JStr (''CIButton '' @ (if b_disabled b then ''CIDisabledButton'' else []) @ '' '' @ b_css b)),
            (''styles'', JObj (b_styles b))]
           (left # icon @ [middle, right]))"

definition imagebutton_element :: "string \<Rightarrow> jsval \<Rightarrow> jsval \<Rightarrow> jsval \<Rightarrow> 'o cibutton \<Rightarrow> dom" where
  "imagebutton_element elem_id src alt prefix_class b =
     Node ''img''
       [(''id'', JStr elem_id), (''src'', src), (''alt'', alt), (''title'', alt), (''styles'', JObj (b_styles b)),
        (''class'', JStr (''CIImageButton '' @ b_css b @ '' '' @ to_string prefix_class))] []"

definition cssbutton_element :: "string \<Rightarrow> jsval \<Rightarrow> jsval \<Rightarrow> jsval \<Rightarrow> 'o cibutton \<Rightarrow> dom" where
  "cssbutton_element elem_id label rollover prefix_class b =
     Node ''span''
       [(''id'', JStr elem_id), (''text'', label), (''title'', rollover), (''data_origtext'', label),
        (''styles'', JObj (b_styles b)),
        (''class'', JStr (''CICssButton '' @ b_css b @ '' '' @ to_string prefix_class))] []"

subsection \<open>The look of the parts\<close>

record button_parts =
  part_elem :: props
  part_left :: props
  part_middle :: props
  part_right :: props

definition style_int :: "string \<Rightarrow> int \<Rightarrow> props \<Rightarrow> jsval" where
  "style_int key dflt style = toInt (js_or (hash_get style key) (JNum (of_int dflt)))"

definition neg :: "jsval \<Rightarrow> jsval" where
  "neg v = (case to_number v of None \<Rightarrow> JNaN | Some r \<Rightarrow> JNum (- r))"

definition css_url :: "jsval \<Rightarrow> jsval" where
  "css_url v = JStr (''url('' @ to_string v @ '')'')"

definition put_all_styles :: "props \<Rightarrow> props \<Rightarrow> props" where
  "put_all_styles new el = fold (\<lambda>(k, v). AList.update k v) new el"

definition button_applyStyles :: "props \<Rightarrow> button_parts \<Rightarrow> button_parts" where
  "button_applyStyles style ps =
     (let height = style_int ''height'' 18 style; capWidth = style_int ''capWidth'' 10 style;
          h = js_or (hash_get style ''height'') height; w = js_or (hash_get style ''capWidth'') capWidth;
          caps = hash_get style ''capsImage''; mid = hash_get style ''middleImage'';
          cap = (\<lambda>pos el. if truthy caps then put_all_styles
                   [(''background-image'', css_url caps), (''background-position'', JStr pos)] el else el)
      in \<lparr>part_elem = put_all_styles [(''height'', h), (''color'', js_or (hash_get style ''textColor'') (JStr ''#333333''))] (part_elem ps),
          part_left = cap ''0 0'' (put_all_styles [(''height'', h), (''width'', w)] (part_left ps)),
          part_middle = (let m = put_all_styles [(''height'', height)] (part_middle ps)
                         in if truthy mid then put_all_styles
                              [(''background-image'', css_url mid), (''background-repeat'', JStr ''repeat-x'')] m else m),
          part_right = cap (to_string (neg capWidth) @ ''px 0'') (put_all_styles [(''height'', h), (''width'', w)] (part_right ps))\<rparr>)"

definition button_mousedown :: "props \<Rightarrow> bool \<Rightarrow> button_parts \<Rightarrow> button_parts" where
  "button_mousedown style disabled ps =
     (if \<not> disabled \<and> truthy (hash_get style ''capsImage'') \<and> truthy (hash_get style ''middleActiveImage'')
      then let height = style_int ''height'' 18 style; capWidth = style_int ''capWidth'' 10 style
           in ps\<lparr>part_left := AList.update ''background-position'' (JStr (''0 '' @ to_string (neg height) @ ''px'')) (part_left ps),
                 part_right := AList.update ''background-position''
                   (JStr (to_string (neg capWidth) @ ''px '' @ to_string (neg height) @ ''px'')) (part_right ps),
                 part_middle := AList.update ''background-image'' (css_url (hash_get style ''middleActiveImage'')) (part_middle ps)\<rparr>
      else ps)"

definition button_mouseup :: "props \<Rightarrow> bool \<Rightarrow> button_parts \<Rightarrow> button_parts" where
  "button_mouseup style disabled ps =
     (if \<not> disabled
      then let capWidth = style_int ''capWidth'' 10 style
           in ps\<lparr>part_left := AList.update ''background-position'' (JStr ''0 0'') (part_left ps),
                 part_right := AList.update ''background-position'' (JStr (to_string (neg capWidth) @ ''px 0'')) (part_right ps),
                 part_middle := AList.update ''background-image'' (css_url (hash_get style ''middleImage'')) (part_middle ps)\<rparr>
      else ps)"

subsection \<open>Clicks\<close>

text \<open>The request a button makes of its own accord: \<open>get\<close> when it can, else \<open>post\<close>.\<close>

definition requestData :: "'o cibutton \<Rightarrow> string option" where
  "requestData b =
     (if can ''get'' (b_request b) then Some ''get''
      else if can ''post'' (b_request b) then Some ''post'' else None)"

definition getData :: "'o cibutton \<Rightarrow> string option" where
  "getData b = (if can ''get'' (b_request b) then Some ''get'' else None)"

definition postData :: "'o cibutton \<Rightarrow> string option" where
  "postData b = (if can ''post'' (b_request b) then Some ''post'' else None)"

record click =
  fires :: "string list"
  requests :: "string option"
  stopped :: bool

definition button_onClick :: "'o cibutton \<Rightarrow> click" where
  "button_onClick b =
     (if b_disabled b then \<lparr>fires = [], requests = None, stopped = False\<rparr>
      else if b_doNotRequest b then \<lparr>fires = [''Clicked''], requests = None, stopped = True\<rparr>
      else \<lparr>fires = [''Clicked''], requests = requestData b, stopped = False\<rparr>)"

subsection \<open>Label and state\<close>

definition setLabel :: "string \<Rightarrow> 'o cibutton \<Rightarrow> 'o cibutton" where
  "setLabel newLabel b = b\<lparr>b_label := newLabel\<rparr>"

text \<open>The property is set first; then the class of the element is changed, which a button that is not on
  the page does not have.\<close>

definition setDisabled :: "bool \<Rightarrow> 'o cibutton \<Rightarrow> 'o cibutton \<times> js_error option" where
  "setDisabled d b = (b\<lparr>b_disabled := d\<rparr>, if b_drawn b then None else Some TypeError)"

definition enable :: "string option \<Rightarrow> 'o cibutton \<Rightarrow> 'o cibutton \<times> js_error option" where
  "enable newLabel b =
     (case setDisabled False b of
        (b', Some e) \<Rightarrow> (b', Some e)
      | (b', None) \<Rightarrow> (case newLabel of None \<Rightarrow> b' | Some [] \<Rightarrow> b' | Some l \<Rightarrow> setLabel l b', None))"

definition disable :: "string option \<Rightarrow> 'o cibutton \<Rightarrow> 'o cibutton \<times> js_error option" where
  "disable newLabel b =
     (case setDisabled True b of
        (b', Some e) \<Rightarrow> (b', Some e)
      | (b', None) \<Rightarrow> (case newLabel of None \<Rightarrow> b' | Some [] \<Rightarrow> b' | Some l \<Rightarrow> setLabel l b', None))"

subsection \<open>Lemmas\<close>

lemma get_put_all_styles:
  "distinct (map fst new) \<Longrightarrow>
   get_prop (put_all_styles new el) k = (case map_of new k of Some v \<Rightarrow> v | None \<Rightarrow> get_prop el k)"
proof (induction new arbitrary: el)
  case (Cons kv new)
  obtain k0 v0 where kv: "kv = (k0, v0)" by (cases kv)
  with Cons.prems have "map_of new k0 = None" by (simp add: map_of_eq_None_iff)
  with Cons kv show ?case by (auto simp: put_all_styles_def split: option.splits)
qed (simp add: put_all_styles_def)

text \<open>Releasing the mouse restores what the styles give a button that has both pictures.\<close>

lemma mouseup_restores:
  assumes "truthy (hash_get style ''capsImage'')" "truthy (hash_get style ''middleImage'')"
  shows "let ps1 = button_applyStyles style ps; ps2 = button_mouseup style False (button_mousedown style False ps1)
         in (\<forall>k. get_prop (part_left ps2) k = get_prop (part_left ps1) k) \<and>
            (\<forall>k. get_prop (part_middle ps2) k = get_prop (part_middle ps1) k) \<and>
            (\<forall>k. get_prop (part_right ps2) k = get_prop (part_right ps1) k)"
  using assms
  by (simp add: button_applyStyles_def button_mouseup_def button_mousedown_def Let_def get_put_all_styles)

end
