(* ===== verification/CI_Form.thy ===== *)
theory CI_Form
  imports CI_Button
begin

section \<open>Form fields and forms\<close>

text \<open>
  \<open>CIFormField\<close> and \<open>CIForm\<close>: what a field is configured with, the input element it draws and the
  control behind it, setting and reading its value by type; the table of the fields of a form,
  filling it from an object, reading it into the parameters of a request, submitting, and what
  happens when a response arrives.

  The control of a field is what the page holds: its value (the content, for a label), whether it is
  checked, and the values of its options when it has some. Storing \<open>undefined\<close> or \<open>null\<close> in a control
  empties it, as \<open>Element.set\<close> does. A function given for the options of a field is called through
  the parameter \<open>call\<close>; what the renderer of a custom field draws is not represented.
\<close>

subsection \<open>Fields\<close>

record control =
  ctl_value :: string
  ctl_checked :: bool
  ctl_options :: "string list option"

record cifield =
  fd_slots :: props
  fd_ctl :: "control option"

definition field_names :: "string list" where
  "field_names =
     [''name'', ''size'', ''property'', ''label'', ''value'', ''form'', ''note'', ''noteBeforeField'',
      ''noteAfterField'', ''field'', ''rows'', ''cols'', ''autocomplete'', ''renderer'', ''labelStyles'',
      ''placeholderText'', ''idval'', ''maxlength'', ''readonly'']"

definition field_defaults :: props where
  "field_defaults =
     [(''type'', JStr ''text''),
      (''values'', JObj [(''checked'', JStr ''true''), (''unchecked'', JStr ''false'')]),
      (''options'', JObj []), (''padding'', JNum 0), (''spacing'', JNum 5)]"

definition props_of :: "jsval \<Rightarrow> props" where
  "props_of v = (case v of JObj p \<Rightarrow> p | _ \<Rightarrow> [])"

definition field_new :: "props \<Rightarrow> cifield" where
  "field_new options =
     (let ob = synthesize (JObj field_defaults) options
                 (synthesize (JArr (map JStr field_names)) options (fst (object_new (JObj options) 0)))
      in \<lparr>fd_slots = AList.update ''labelStyles'' (JObj (interpretStyles (props_of (get_prop options ''labelStyles''))))
                       (slots ob), fd_ctl = None\<rparr>)"

definition fget :: "string \<Rightarrow> cifield \<Rightarrow> jsval" where
  "fget k f = get_prop (fd_slots f) k"

definition ftype :: "string \<Rightarrow> cifield \<Rightarrow> bool" where
  "ftype t f = js_eq (fget ''type'' f) (JStr t)"

text \<open>The options of a select field: label and value.\<close>

definition field_options :: "(string \<Rightarrow> props) \<Rightarrow> cifield \<Rightarrow> props" where
  "field_options call f =
     (case fget ''options'' f of JObj p \<Rightarrow> hash_new p | JFun g \<Rightarrow> hash_new (call g) | _ \<Rightarrow> [])"

definition input :: "string \<Rightarrow> string \<Rightarrow> props \<Rightarrow> dom" where
  "input ty cls as = Node ''input'' ((''type'', JStr ty) # (''class'', JStr cls) # as) []"

definition makeField :: "(string \<Rightarrow> props) \<Rightarrow> cifield \<Rightarrow> dom option" where
  "makeField call f =
     (if ftype ''custom'' f then Some (Node ''div'' [] [])
      else if ftype ''text'' f then
        Some (input ''text'' ''CIFormField''
          [(''name'', fget ''name'' f), (''id'', fget ''idval'' f), (''size'', fget ''size'' f),
           (''maxlength'', js_or (fget ''maxlength'' f) (JNum 10000)),
           (''readonly'', js_or (fget ''readonly'' f) (JBool False)),
           (''value'', js_or (fget ''value'' f) (fget ''placeholderText'' f))])
      else if ftype ''textarea'' f then
        Some (Node ''textarea''
          [(''class'', JStr ''CIFormField''), (''name'', fget ''name'' f), (''rows'', fget ''rows'' f),
           (''cols'', fget ''cols'' f), (''value'', fget ''value'' f),
           (''maxlength'', js_or (fget ''maxlength'' f) (JNum 10000))] [])
      else if ftype ''file'' f then
        Some (input ''file'' ''CIFormField'' [(''name'', fget ''name'' f), (''size'', fget ''size'' f)])
      else if ftype ''password'' f then
        Some (input ''password'' ''CIFormField''
          [(''name'', fget ''name'' f), (''size'', fget ''size'' f), (''value'', fget ''value'' f)])
      else if ftype ''select'' f then
        Some (Node ''select''
          [(''name'', fget ''name'' f), (''size'', fget ''size'' f), (''class'', JStr ''CIFormField'')]
          (map (\<lambda>(html, v). Node ''option'' [(''value'', v), (''html'', JStr html)] []) (field_options call f)))
      else if ftype ''label'' f then
        Some (Node ''span'' [(''class'', JStr ''CIFormLabelField''), (''html'', fget ''value'' f)] [])
      else if ftype ''checkbox'' f then
        Some (input ''checkbox'' ''CIFormField'' [(''name'', fget ''name'' f)])
      else if ftype ''datepicker'' f then
        Some (input ''date'' ''datepicker CIFormField'' [(''name'', fget ''name'' f)])
      else None)"

definition stored_val :: "jsval \<Rightarrow> string" where
  "stored_val v = (if nullish v then [] else to_string v)"

text \<open>The control of a drawn element: a select element shows its first option.\<close>

definition control_of :: "dom \<Rightarrow> control" where
  "control_of e =
     (let opts = map (\<lambda>c. stored_val (attr ''value'' c)) (dom_children e)
      in \<lparr>ctl_value =
            (if dom_tag e = ''select'' then (if opts = [] then [] else hd opts)
             else if dom_tag e = ''span'' then stored_val (attr ''html'' e)
             else stored_val (attr ''value'' e)),
          ctl_checked = False,
          ctl_options = (if dom_tag e = ''select'' then Some opts else None)\<rparr>)"

definition draw_field :: "(string \<Rightarrow> props) \<Rightarrow> cifield \<Rightarrow> cifield" where
  "draw_field call f = f\<lparr>fd_ctl := map_option control_of (makeField call f)\<rparr>"

text \<open>Storing a value in a control: a select element takes only the value of one of its options.\<close>

definition ctl_put :: "jsval \<Rightarrow> control \<Rightarrow> control" where
  "ctl_put v c =
     (let s = stored_val v
      in c\<lparr>ctl_value := (case ctl_options c of None \<Rightarrow> s | Some os \<Rightarrow> if s \<in> set os then s else [])\<rparr>)"

definition field_setValue :: "jsval \<Rightarrow> cifield \<Rightarrow> js_error + cifield \<times> fired list" where
  "field_setValue newValue f =
     (case fd_ctl f of
        None \<Rightarrow> Inl TypeError
      | Some c \<Rightarrow>
          if ftype ''custom'' f then Inr (f, [])
          else let oldValue = JStr (ctl_value c);
                   c' = (if ftype ''checkbox'' f
                         then c\<lparr>ctl_checked := js_eq (JStr (to_string (js_or newValue (JStr []))))
                                  (get_prop (props_of (fget ''values'' f)) ''checked'')\<rparr>
                         else ctl_put newValue c)
               in Inr (f\<lparr>fd_ctl := Some c'\<rparr>, [(''Changed'', [newValue, oldValue])]))"

definition field_getValue :: "cifield \<Rightarrow> js_error + jsval" where
  "field_getValue f =
     (case fd_ctl f of
        None \<Rightarrow> if ftype ''custom'' f then Inr JNull else Inl TypeError
      | Some c \<Rightarrow>
          Inr (if ftype ''checkbox'' f
               then get_prop (props_of (fget ''values'' f)) (if ctl_checked c then ''checked'' else ''unchecked'')
               else if ftype ''custom'' f then JNull
               else JStr (ctl_value c)))"

text \<open>What a drawn field fires when a key is pressed in it, and when an option is chosen.\<close>

definition field_keypress :: "string \<Rightarrow> cifield \<Rightarrow> fired list" where
  "field_keypress key f =
     (if fd_ctl f \<noteq> None \<and> ftype ''text'' f
      then (''Changed'', []) #
           (if key = ''enter'' then [(''EnterPressed'', [JObj [(''key'', JStr key)]])]
            else if key = ''esc'' then [(''EscapePressed'', [JObj [(''key'', JStr key)]])] else [])
      else [])"

definition field_change :: "cifield \<Rightarrow> fired list" where
  "field_change f = (if fd_ctl f \<noteq> None \<and> ftype ''select'' f then [(''Changed'', [])] else [])"

text \<open>The row a field draws: the label, and the field between its notes.\<close>

definition note_span :: "jsval \<Rightarrow> string \<Rightarrow> string \<Rightarrow> dom list" where
  "note_span note pre post =
     (if truthy note then [Node ''span'' [(''class'', JStr ''CIFormFieldNote''), (''html'', JStr (pre @ to_string note @ post))] []]
      else [])"

definition field_element :: "(string \<Rightarrow> props) \<Rightarrow> string \<Rightarrow> props option \<Rightarrow> string \<Rightarrow> cifield \<Rightarrow> dom" where
  "field_element call elem_id form_labelStyles parent_tag f =
     (let own = props_of (fget ''labelStyles'' f);
          labelTd = Node ''td''
            ([(''class'', JStr ''CIFormLabel''), (''html'', js_or (fget ''label'' f) (JStr ''&nbsp;'')),
              (''styles'', JObj (let st = (case form_labelStyles of None \<Rightarrow> own | Some fs \<Rightarrow> moo_extend fs own)
                                 in if truthy (fget ''note'' f) then AList.update ''padding-top'' (JNum 8) st else st)),
              (''valign'', JStr (if truthy (fget ''note'' f) \<or> ftype ''textarea'' f then ''top'' else []))]) [];
          fieldTd = Node ''td'' []
            (note_span (fget ''noteBeforeField'' f) [] ''&nbsp;''
             @ (case makeField call f of None \<Rightarrow> [] | Some e \<Rightarrow> [e])
             @ note_span (fget ''noteAfterField'' f) ''&nbsp;'' []
             @ (if truthy (fget ''note'' f) then [Node ''br'' [] []] else [])
             @ note_span (fget ''note'' f) [] []);
          tr = Node ''tr'' [(''id'', JStr elem_id)] [labelTd, fieldTd]
      in if parent_tag = ''table'' then tr
         else Node ''table'' [(''cellpadding'', fget ''padding'' f), (''cellspacing'', fget ''spacing'' f),
                (''styles'', JObj [(''border'', JStr ''none'')])] [tr])"

subsection \<open>Forms\<close>

record 'o ciform =
  fm_table :: "(string \<times> cifield) list"
  fm_object :: jsval
  fm_wraps :: "string option"
  fm_hideSubmit :: bool
  fm_submitLabel :: string
  fm_submittingLabel :: string
  fm_button :: "string option"
  fm_request :: "'o cirequest"


text \<open>\<open>_adoptFieldsInto\<close>: a field is entered in the table under its property, or its name; \<open>null\<close> entries
  are skipped. The submit button is made last.\<close>

definition adopt_field :: "(string \<Rightarrow> props) \<Rightarrow> jsval \<Rightarrow> (string \<times> cifield) list \<Rightarrow> (string \<times> cifield) list" where
  "adopt_field call fo tab =
     (if nullish fo then tab
      else let f = draw_field call (field_new (props_of fo))
           in hash_set (to_string (js_or (fget ''property'' f) (fget ''name'' f))) f tab)"

definition adoptFieldsInto :: "(string \<Rightarrow> props) \<Rightarrow> jsval list \<Rightarrow> 'o ciform \<Rightarrow> 'o ciform" where
  "adoptFieldsInto call fieldObjects fm =
     fm\<lparr>fm_table := fold (adopt_field call) fieldObjects (fm_table fm),
        fm_button := (if fm_hideSubmit fm then fm_button fm else Some (fm_submitLabel fm))\<rparr>"

definition form_element :: "string \<Rightarrow> props \<Rightarrow> jsval \<Rightarrow> jsval \<Rightarrow> jsval \<Rightarrow> dom list \<Rightarrow> dom" where
  "form_element elem_id styles padding spacing title rows =
     Node ''table''
       [(''id'', JStr elem_id), (''class'', JStr ''CIForm''), (''cellpadding'', padding),
        (''cellspacing'', spacing), (''styles'', JObj styles)]
       ((if truthy title
         then [Node ''tr'' [] [Node ''td'' [(''html'', JStr ''&nbsp;'')] [],
                               Node ''td'' [(''class'', JStr ''CIFormTitle''), (''html'', title)] []]]
         else []) @ rows)"

definition form_toObject :: "'o ciform \<Rightarrow> js_error + props" where
  "form_toObject fm =
     foldE (\<lambda>ps (property, f).
        if property \<noteq> [] \<and> truthy (fget ''name'' f) \<and> \<not> ftype ''label'' f
        then bindE (field_getValue f) (\<lambda>v. Inr (AList.update (to_string (fget ''name'' f)) v ps))
        else Inr ps) [] (fm_table fm)"

definition populate_field :: "(string \<Rightarrow> props) \<Rightarrow> jsval \<Rightarrow> string \<times> cifield \<Rightarrow> js_error + string \<times> cifield" where
  "populate_field call obj pf =
     (case pf of (property, f) \<Rightarrow>
        let f1 = (if ftype ''select'' f then draw_field call f else f)
        in bindE (read_prop obj property) (\<lambda>v. bindE (field_setValue v f1) (\<lambda>(f2, _). Inr (property, f2))))"

definition populate :: "(string \<Rightarrow> props) \<Rightarrow> jsval \<Rightarrow> 'o ciform \<Rightarrow> js_error + 'o ciform" where
  "populate call obj0 fm =
     (let obj1 = js_or obj0 (js_or (fm_object fm) (JObj []))
      in bindE (case fm_wraps fm of None \<Rightarrow> Inr obj1 | Some [] \<Rightarrow> Inr obj1 | Some k \<Rightarrow> read_prop obj1 k) (\<lambda>obj.
           bindE (mapE (populate_field call obj) (fm_table fm)) (\<lambda>tab. Inr (fm\<lparr>fm_table := tab\<rparr>))))"

definition form_use :: "(string \<Rightarrow> props) \<Rightarrow> jsval \<Rightarrow> 'o ciform \<Rightarrow> js_error + 'o ciform" where
  "form_use call obj fm = populate call JUndef (fm\<lparr>fm_object := obj\<rparr>)"

definition clear_field :: "string \<times> cifield \<Rightarrow> js_error + string \<times> cifield" where
  "clear_field pf =
     (case pf of (property, f) \<Rightarrow>
        bindE (field_setValue (if ftype ''checkbox'' f then JStr ''value'' else JStr []) f)
          (\<lambda>(f', _). Inr (property, f')))"

definition form_clear :: "'o ciform \<Rightarrow> js_error + 'o ciform" where
  "form_clear fm = bindE (mapE clear_field (fm_table fm)) (\<lambda>tab. Inr (fm\<lparr>fm_table := tab\<rparr>))"

text \<open>\<open>submit\<close>: the form with the new label, and the parameters posted, if the form can post.\<close>

definition submit :: "'o ciform \<Rightarrow> js_error + 'o ciform \<times> props option" where
  "submit fm =
     (if \<not> can ''post'' (fm_request fm) then Inr (fm, None)
      else let fm1 = fm\<lparr>fm_button := map_option (\<lambda>_. fm_submittingLabel fm) (fm_button fm)\<rparr>
           in bindE (form_toObject fm1) (\<lambda>ps. Inr (fm1, Some ps)))"

definition getField :: "string \<Rightarrow> 'o ciform \<Rightarrow> cifield option" where
  "getField property fm = map_of (fm_table fm) property"

definition removeField :: "string \<Rightarrow> 'o ciform \<Rightarrow> 'o ciform \<times> cifield option" where
  "removeField property fm =
     (case getField property fm of
        None \<Rightarrow> (fm, None)
      | Some f \<Rightarrow> (fm\<lparr>fm_table := hash_erase property (fm_table fm)\<rparr>, Some f))"

definition form_getValue :: "string \<Rightarrow> 'o ciform \<Rightarrow> js_error + jsval" where
  "form_getValue property fm =
     (case getField property fm of None \<Rightarrow> Inr JNull | Some f \<Rightarrow> field_getValue f)"

text \<open>The handlers the constructor adds. \<open>RequestedData\<close> comes first and puts the label of the submit
  button back; \<open>GotData\<close> then fills the form.\<close>

definition form_onRequestedData :: "'o ciform \<Rightarrow> js_error + 'o ciform" where
  "form_onRequestedData fm =
     (case fm_button fm of None \<Rightarrow> Inl TypeError | Some _ \<Rightarrow> Inr (fm\<lparr>fm_button := Some (fm_submitLabel fm)\<rparr>))"

definition form_onEvent :: "(string \<Rightarrow> props) \<Rightarrow> jsval \<Rightarrow> 'o ciform \<Rightarrow> string \<Rightarrow> js_error + 'o ciform" where
  "form_onEvent call obj fm ev =
     (if ev = ''RequestedData'' then form_onRequestedData fm
      else if ev = ''GotData'' then form_use call obj fm
      else Inr fm)"

text \<open>The response of a request of the form: the events the form hears, in order, until a handler
  throws.\<close>

definition form_receive :: "(string \<Rightarrow> props) \<Rightarrow> string \<Rightarrow> response \<Rightarrow> 'o ciform \<Rightarrow> js_error + 'o ciform" where
  "form_receive call m resp fm =
     bindE (onStateChange m resp (fm_request fm)) (\<lambda>acts.
       foldE (form_onEvent call (case r_decoded resp of Inr v \<Rightarrow> v | Inl _ \<Rightarrow> JUndef)) fm (component_events acts))"

subsection \<open>Lemmas\<close>



lemma fget_ctl [simp]: "fget k (f\<lparr>fd_ctl := c\<rparr>) = fget k f" "ftype t (f\<lparr>fd_ctl := c\<rparr>) = ftype t f"
  by (simp_all add: fget_def ftype_def)





subsection \<open>Properties\<close>





text \<open>A form without a submit button never shows the data it asked for: the handler of
  \<open>RequestedData\<close>, which runs first, uses the button, throws, and \<open>GotData\<close> is not fired. With a
  button the form is filled and the label put back.\<close>

lemma form_receive_get:
  assumes "isSuccess (r_status resp)" "r_decoded resp = Inr v"
  shows "form_receive call ''get'' resp fm =
           (case fm_button fm of
              None \<Rightarrow> Inl TypeError
            | Some _ \<Rightarrow> form_use call v (fm\<lparr>fm_button := Some (fm_submitLabel fm)\<rparr>))"
proof -
  let ?r = "fm_request fm"
  have "onStateChange ''get'' resp ?r = Inr (onComplete ?r @ onSuccess ''get'' ?r)"
    using assms by (simp add: onStateChange_def)
  moreover have "component_events (onComplete ?r @ onSuccess ''get'' ?r) = [''RequestedData'', ''GotData'']"
    by (simp add: onComplete_def onSuccess_def passed_events_def)
  moreover have "bindE m Inr = m" for m :: "js_error + 'a ciform" by (cases m) auto
  ultimately show ?thesis
    using assms(2)
    by (cases "fm_button fm") (simp_all add: form_receive_def form_onEvent_def form_onRequestedData_def)
qed

end
