(* ===== verification/CI_Table.thy ===== *)
theory CI_Table
  imports CI_Lists CI_Form Taffy
begin

section \<open>Tables\<close>

text \<open>
  \<open>CIColumn\<close> and \<open>CITable\<close>: a table draws one row for each record of its collection, keeps the records
  in a TAFFY collection that shares the array, lets a row be selected and a cell be edited, sends the
  edited value with its request and redraws the row from the response. The class names of an element
  are a list (the class of a column is one name); a renderer gives the content of a cell and the class names it adds to the cell and to
  the row; \<open>truncateAfter\<close> is a number or a string. A cell under edit is known by its row and
  column, together with whether it is still in the document.
\<close>

subsection \<open>Columns\<close>

record rendered =
  rd_content :: jsval
  rd_td :: "string list"
  rd_tr :: "string list"

record editor =
  edt_config :: props
  edt_if :: "(jsval \<Rightarrow> jsval \<Rightarrow> bool) option"

record column =
  co_slots :: props
  co_renderer :: "(jsval \<Rightarrow> jsval \<Rightarrow> rendered) option"
  co_editor :: "editor option"
  co_css :: "string list"
  co_styles :: props

text \<open>The constructor copies the properties it knows, under the names it knows them by.\<close>

definition column_new :: "props \<Rightarrow> (jsval \<Rightarrow> jsval \<Rightarrow> rendered) option \<Rightarrow> editor option \<Rightarrow> column" where
  "column_new configuration renderer edt =
     \<lparr>co_slots = slots (synthesize (JObj [(''header'', JStr []), (''property'', JStr ''id''), (''width'', JNull),
                    (''dontEncodeEntitiyChars'', JBool False), (''truncateAfter'', JNull)]) configuration
                  (fst (object_new (JObj configuration) 0))),
      co_renderer = renderer, co_editor = edt,
      co_css = (case get_prop configuration ''cssClass'' of JStr (ch # chs) \<Rightarrow> [ch # chs] | _ \<Rightarrow> []),
      co_styles = interpretStyles (props_of (get_prop configuration ''cssStyles''))\<rparr>"

definition cget :: "string \<Rightarrow> column \<Rightarrow> jsval" where
  "cget k c = get_prop (co_slots c) k"

definition column_getHeader :: "column \<Rightarrow> string" where
  "column_getHeader c = to_string (js_or (cget ''header'' c) (JStr []))"

text \<open>A record is never \<open>null\<close> or \<open>undefined\<close>: the collection is cleaned of these.\<close>

definition field_of :: "jsval \<Rightarrow> column \<Rightarrow> jsval" where
  "field_of r c = (case read_prop r (to_string (cget ''property'' c)) of Inr v \<Rightarrow> v | Inl _ \<Rightarrow> JUndef)"

subsection \<open>Cells\<close>

record tcell =
  td_elem :: cell_elem
  td_styles :: props
  td_content :: "jsval option"
  td_editable :: bool
  td_selects :: bool

record trow =
  tr_elem :: cell_elem
  tr_index :: "nat option"
  tr_cells :: "tcell list"

text \<open>The text of a cell without a renderer: the value as a string, encoded and cut.\<close>

definition truncate_html :: "jsval \<Rightarrow> string \<Rightarrow> string" where
  "truncate_html after html =
     (if truthy after
      then (case parseInt (to_string after) of
              None \<Rightarrow> html
            | Some n \<Rightarrow> if int (length html) > n then take (nat n) html @ ''...'' else html)
      else html)"

definition cell_html :: "column \<Rightarrow> jsval \<Rightarrow> string" where
  "cell_html c v =
     (let text = to_string (js_or v (JStr []));
          html = (if truthy (cget ''dontEncodeEntityChars'' c) then text else withEntityCharsEncoded text)
      in truncate_html (cget ''truncateAfter'' c) html)"

text \<open>A cell can be edited when its column has an editor that allows it. The option \<open>useArray\<close>, which would forbid it, is not
  among those the constructor of a table takes over.\<close>

definition cell_editable :: "column \<Rightarrow> jsval \<Rightarrow> bool" where
  "cell_editable c r =
     (case co_editor c of
        None \<Rightarrow> False
      | Some e \<Rightarrow> (case edt_if e of None \<Rightarrow> True | Some p \<Rightarrow> p (field_of r c) r))"

text \<open>The style object of the column is changed by every cell that is drawn.\<close>

definition cell_styles :: "nat \<Rightarrow> nat \<Rightarrow> nat \<Rightarrow> nat option \<Rightarrow> column \<Rightarrow> jsval \<Rightarrow> props" where
  "cell_styles ncols nrows k index c r =
     (let s1 = (if truthy (cget ''width'' c) then AList.update ''CIFirmWidth'' (cget ''width'' c) (co_styles c) else co_styles c);
          s2 = (if k + 1 < ncols then AList.update ''border-right'' (JStr ''1px solid #CCC'') s1 else s1);
          s3 = (if cell_editable c r \<and> (case index of None \<Rightarrow> False | Some i \<Rightarrow> i + 1 < nrows)
                then AList.update ''border-bottom'' (JStr ''1px dotted #CCC'') s2 else s2)
      in interpretStyles s3)"

definition cell_content :: "column \<Rightarrow> jsval \<Rightarrow> rendered" where
  "cell_content c r =
     (case co_renderer c of
        Some f \<Rightarrow> f (field_of r c) r
      | None \<Rightarrow> \<lparr>rd_content = JStr (cell_html c (field_of r c)), rd_td = [], rd_tr = []\<rparr>)"

definition table_cell :: "rat \<Rightarrow> bool \<Rightarrow> nat \<Rightarrow> nat \<Rightarrow> nat \<Rightarrow> nat option \<Rightarrow> column \<Rightarrow> jsval \<Rightarrow> tcell" where
  "table_cell height selectable ncols nrows k index c r =
     (let ed = cell_editable c r; ct = cell_content c r
      in \<lparr>td_elem = \<lparr>classes = ''CITableCell'' # co_css c @ (if ed then [''CITableEditableCell''] else []) @ rd_td ct,
                      store = [], elem_height = height\<rparr>,
          td_styles = cell_styles ncols nrows k index c r,
          td_content = (if nullish (rd_content ct) then None else Some (rd_content ct)),
          td_editable = ed, td_selects = (selectable \<and> \<not> ed)\<rparr>)"

text \<open>\<open>_makeCellsInRowUsingRecord\<close>, from the column at position \<open>k\<close> on: the cells, the columns with their style
  objects changed, and the class names the row gets.\<close>

fun make_cells :: "rat \<Rightarrow> bool \<Rightarrow> nat \<Rightarrow> nat \<Rightarrow> nat \<Rightarrow> nat option \<Rightarrow> jsval \<Rightarrow> column list \<Rightarrow>
    tcell list \<times> column list \<times> string list" where
  "make_cells height selectable ncols nrows k index r [] = ([], [], [])"
| "make_cells height selectable ncols nrows k index r (c # cs) =
     (let td = table_cell height selectable ncols nrows k index c r
      in case make_cells height selectable ncols nrows (Suc k) index r cs of (tds, cs', cls) \<Rightarrow>
           (td # tds, c\<lparr>co_styles := td_styles td\<rparr> # cs',
            (if td_selects td then [''CISelectableTableRow''] else []) @ rd_tr (cell_content c r) @ cls))"

subsection \<open>State\<close>

record editing =
  ed_row :: nat
  ed_col :: nat
  ed_live :: bool
  ed_field :: cifield

record 'o citable =
  tb_columns :: "column list"
  tb_collection :: "jsval list"
  tb_data :: "taffy option"
  tb_rows :: "trow list option"
  tb_selectable :: bool
  tb_hideHeader :: bool
  tb_noDataText :: jsval
  tb_deletePrompt :: jsval
  tb_getAfter :: bool
  tb_doNotSetDataAfterGet :: bool
  tb_paginated :: bool
  tb_selected :: jsval
  tb_selIndex :: "nat option"
  tb_selRow :: sub_ref
  tb_edit :: "editing option"
  tb_request :: "'o cirequest"
  tb_rx :: "string \<Rightarrow> string \<Rightarrow> bool"

definition table_new :: "(string \<Rightarrow> string \<Rightarrow> bool) \<Rightarrow> props \<Rightarrow> column list \<Rightarrow> (string \<times> request_config) list \<Rightarrow> 'o citable" where
  "table_new rx0 options columns methods =
     (let opt = (\<lambda>k d. let v = get_prop options k in if nullish v then d else v)
      in \<lparr>tb_columns = columns, tb_collection = arr_clean (splat (get_prop options ''collection'')), tb_data = None,
          tb_rows = None, tb_selectable = truthy (opt ''selectable'' (JBool False)),
          tb_hideHeader = truthy (opt ''hideHeader'' (JBool False)), tb_noDataText = opt ''noDataText'' (JStr ''No data to display''),
          tb_deletePrompt = opt ''deletePrompt'' JNull, tb_getAfter = truthy (opt ''getAfterResourceChange'' (JBool False)),
          tb_doNotSetDataAfterGet = truthy (opt ''doNotSetDataAfterGet'' (JBool False)),
          tb_paginated = truthy (get_prop options ''paginator''), tb_selected = opt ''selected'' JNull, tb_selIndex = None,
          tb_selRow = NoSub, tb_edit = None, tb_request = makeRequestable [] methods, tb_rx = rx0\<rparr>)"

subsection \<open>Drawing\<close>

text \<open>The header row: the label and the class names of each column.\<close>

definition make_header :: "'o citable \<Rightarrow> (jsval \<Rightarrow> rat) \<Rightarrow> (jsval \<times> string) list option" where
  "make_header tb height =
     (if tb_hideHeader tb then None
      else let n = length (tb_columns tb)
           in Some (map (\<lambda>(k, c). (js_or (cget ''header'' c) (JStr []),
                ''CITableHeaderColumn '' @ (if k > 0 then ''CITableHeaderColumnLeftBorder'' else [])
                  @ (if k + 1 < n then '' CITableHeaderColumnRightBorder'' else []))) (enumerate 0 (tb_columns tb))))"

definition put_index :: "nat \<Rightarrow> jsval \<Rightarrow> jsval" where
  "put_index i r = (case r of JObj p \<Rightarrow> JObj (AList.update ''__rowIndex'' (JNum (of_nat i)) p) | _ \<Rightarrow> r)"

definition row_elem :: "rat \<Rightarrow> nat \<Rightarrow> string list \<Rightarrow> cell_elem" where
  "row_elem height i cls =
     fold addClass cls
       \<lparr>classes = [''CITableRow'', ''CIHoverableSkin'', if i mod 2 = 0 then ''CIEvenSkin'' else ''CIOddSkin''],
        store = [], elem_height = height\<rparr>"

fun draw_rows :: "rat \<Rightarrow> bool \<Rightarrow> nat \<Rightarrow> nat \<Rightarrow> column list \<Rightarrow> jsval list \<Rightarrow> trow list \<times> column list" where
  "draw_rows height selectable nrows i cols [] = ([], cols)"
| "draw_rows height selectable nrows i cols (r # rs) =
     (case make_cells height selectable (length cols) nrows 0 (Some i) r cols of (tds, cols1, cls) \<Rightarrow>
        (case draw_rows height selectable nrows (Suc i) cols1 rs of (rows, cols2) \<Rightarrow>
           (\<lparr>tr_elem = row_elem height i cls, tr_index = Some i, tr_cells = tds\<rparr> # rows, cols2)))"

definition no_data_row :: "'o citable \<Rightarrow> trow" where
  "no_data_row tb =
     \<lparr>tr_elem = \<lparr>classes = [''CITableRow''], store = [], elem_height = 0\<rparr>, tr_index = None,
      tr_cells = [\<lparr>td_elem = \<lparr>classes = [''CITableNoDataColumn''], store = [], elem_height = 0\<rparr>,
        td_styles = [], td_content = Some (js_or (tb_noDataText tb) (JStr ''No data to display.'')),
        td_editable = False, td_selects = False\<rparr>]\<rparr>"

text \<open>\<open>onUpdate\<close> of the collection: the new record is given the row number of the old one.\<close>

definition taffy_onUpdate :: "jsval \<Rightarrow> jsval \<Rightarrow> jsval \<times> jsval" where
  "taffy_onUpdate newRecord oldRecord =
     ((case (newRecord, oldRecord) of
         (JObj p, JObj q) \<Rightarrow> JObj (AList.update ''__rowIndex'' (get_prop q ''__rowIndex'') p)
       | _ \<Rightarrow> newRecord), oldRecord)"

text \<open>\<open>render\<close>: the rows are removed; the collection becomes the array of a new TAFFY collection, whose rows
  are numbered and drawn. The references to the old rows and cells stay.\<close>

definition table_render :: "rat \<Rightarrow> nat \<Rightarrow> 'o citable \<Rightarrow> js_error + 'o citable \<times> fired list" where
  "table_render height now tb =
     (case tb_rows tb of
        None \<Rightarrow> Inr (tb, [])
      | Some _ \<Rightarrow>
          bindE (taffy_forEach (\<lambda>r i. (put_index i r, JUndef)) DOther
                   ((taffy_new (tb_rx tb) now (tb_collection tb))\<lparr>onUpdate := Some taffy_onUpdate\<rparr>)) (\<lambda>data.
            case draw_rows height (tb_selectable tb) (length (TOb data)) 0 (tb_columns tb) (TOb data) of (rows, cols) \<Rightarrow>
              Inr (tb\<lparr>tb_data := Some data, tb_collection := TOb data, tb_columns := cols,
                      tb_rows := Some (if TOb data = [] then [no_data_row tb] else rows),
                      tb_selRow := (case tb_selRow tb of NoSub \<Rightarrow> NoSub | _ \<Rightarrow> Gone),
                      tb_edit := map_option (\<lambda>e. e\<lparr>ed_live := False\<rparr>) (tb_edit tb)\<rparr>,
                   [(''Rendered'', [])])))"

text \<open>\<open>setCollection\<close>: of a paginated response the rows are taken. The table is rendered by the handler of
  \<open>PropertyChanged\<close>.\<close>

definition table_setCollection :: "rat \<Rightarrow> nat \<Rightarrow> jsval \<Rightarrow> 'o citable \<Rightarrow> js_error + 'o citable \<times> fired list" where
  "table_setCollection height now newCollection tb =
     bindE (if tb_paginated tb then read_prop newCollection ''CIPaginatorCollection'' else Inr newCollection) (\<lambda>c.
       table_render height now (tb\<lparr>tb_collection := arr_clean (splat c)\<rparr>))"

definition table_draw :: "rat \<Rightarrow> nat \<Rightarrow> 'o citable \<Rightarrow> js_error + 'o citable \<times> fired list" where
  "table_draw height now tb =
     (if tb_rows tb = None
      then table_setCollection height now (JArr (tb_collection tb)) (tb\<lparr>tb_rows := Some []\<rparr>)
      else Inr (tb, []))"

definition table_onGotData :: "rat \<Rightarrow> nat \<Rightarrow> jsval \<Rightarrow> 'o citable \<Rightarrow> js_error + 'o citable \<times> fired list" where
  "table_onGotData height now newCollection tb =
     (if tb_doNotSetDataAfterGet tb then Inr (tb, []) else table_setCollection height now newCollection tb)"

subsection \<open>Selection\<close>

definition map_row :: "nat \<Rightarrow> (cell_elem \<Rightarrow> cell_elem) \<Rightarrow> trow list \<Rightarrow> trow list" where
  "map_row i f rows = (if i < length rows then rows[i := (rows ! i)\<lparr>tr_elem := f (tr_elem (rows ! i))\<rparr>] else rows)"

definition table_removeSelection :: "'o citable \<Rightarrow> 'o citable \<times> fired list" where
  "table_removeSelection tb =
     ((case tb_selRow tb of
         Live i \<Rightarrow> tb\<lparr>tb_rows := map_option (map_row i unmark) (tb_rows tb)\<rparr>
       | _ \<Rightarrow> tb)\<lparr>tb_selRow := NoSub, tb_selIndex := None, tb_selected := JNull\<rparr>, [(''Changed'', [])])"

text \<open>\<open>selectRow\<close> with a number or with the row of a clicked cell.\<close>

definition table_selectRow :: "bool \<Rightarrow> nat \<Rightarrow> 'o citable \<Rightarrow> 'o citable \<times> fired list \<times> js_error option" where
  "table_selectRow suppress i tb =
     (case table_removeSelection tb of (tb1, ev) \<Rightarrow>
        (case (tb_rows tb1, tb_data tb1) of
           (Some rows, Some data) \<Rightarrow>
             if i < length rows \<and> tr_index (rows ! i) = Some i then
               (let r = arr_get (TOb data) i; sel = (if nullish r then JNull else r)
                in (tb1\<lparr>tb_selRow := Live i, tb_selIndex := Some i, tb_selected := sel,
                        tb_rows := Some (map_row i mark rows)\<rparr>,
                    ev @ [(''Changed'', [])] @ (if suppress then [] else [(''Selected'', [sel])]), None))
             else (tb1, ev, Some TypeError)
         | _ \<Rightarrow> (tb1, ev, Some TypeError)))"

definition table_onSelectRow :: "nat \<Rightarrow> 'o citable \<Rightarrow> 'o citable \<times> fired list \<times> js_error option" where
  "table_onSelectRow i tb =
     (case table_selectRow False i tb of (tb', ev, err) \<Rightarrow> (tb', (''Clicked'', []) # ev, err))"

subsection \<open>Editing\<close>

definition map_td :: "nat \<Rightarrow> nat \<Rightarrow> (cell_elem \<Rightarrow> cell_elem) \<Rightarrow> trow list \<Rightarrow> trow list" where
  "map_td i k f rows =
     (if i < length rows \<and> k < length (tr_cells (rows ! i))
      then rows[i := (rows ! i)\<lparr>tr_cells := (tr_cells (rows ! i))[k :=
             (tr_cells (rows ! i) ! k)\<lparr>td_elem := f (td_elem (tr_cells (rows ! i) ! k))\<rparr>]\<rparr>]
      else rows)"

definition stopEditing :: "'o citable \<Rightarrow> 'o citable" where
  "stopEditing tb =
     (case tb_edit tb of
        None \<Rightarrow> tb
      | Some e \<Rightarrow>
          (if ed_live e then tb\<lparr>tb_rows := map_option (map_td (ed_row e) (ed_col e) (unset_style ''editing'')) (tb_rows tb)\<rparr>
           else tb)\<lparr>tb_edit := None\<rparr>)"

text \<open>The value the editor starts with, from the record or from the content of the cell, and the
  configuration of its field.\<close>

definition edit_value :: "editor \<Rightarrow> column \<Rightarrow> jsval \<Rightarrow> tcell \<Rightarrow> string" where
  "edit_value e c r td =
     (if truthy (get_prop (edt_config e) ''useRecordProperty'')
      then (let v = field_of r c in if truthy v then to_string v else [])
      else (case td_content td of None \<Rightarrow> [] | Some (JStr s) \<Rightarrow> s | Some v \<Rightarrow> stored_val (get_prop (props_of v) ''html'')))"

definition edit_config :: "editor \<Rightarrow> string \<Rightarrow> props" where
  "edit_config e v =
     (let ty = js_or (get_prop (edt_config e) ''type'') (JStr ''text'');
          dflt = (\<lambda>k p. AList.update k (js_or (get_prop p k) (JNum 0)) p);
          p1 = AList.update ''type'' ty (edt_config e);
          p2 = AList.update ''labelStyles'' (JObj [(''display'', JStr ''none'')])
                 (AList.update ''value'' (JStr (withEntityCharsDecoded v)) p1);
          p3 = dflt ''spacing'' (dflt ''padding'' p2)
      in if js_eq ty (JStr ''textarea'')
         then AList.update ''rows'' (JNum 6) (AList.update ''cols'' (JNum 32)
                (AList.update ''value'' (JStr (replace_all ''<br>'' [CHR 0x0A] (replace_all ''<br/>'' [CHR 0x0A] v))) p3))
         else p3)"

text \<open>\<open>_onEditCell\<close>: a click on the cell that is being edited changes nothing; the edit of another cell is
  stopped. The field is drawn in a panel of its own and given its value when that is shown.\<close>

definition onEditCell :: "(string \<Rightarrow> props) \<Rightarrow> nat \<Rightarrow> nat \<Rightarrow> 'o citable \<Rightarrow> js_error + 'o citable" where
  "onEditCell call i k tb =
     (case tb_rows tb of
        None \<Rightarrow> Inr tb
      | Some rows \<Rightarrow>
          if i < length rows \<and> k < length (tr_cells (rows ! i)) \<and> td_editable (tr_cells (rows ! i) ! k) then
            (case co_editor (tb_columns tb ! k) of
               None \<Rightarrow> Inr tb
             | Some e \<Rightarrow>
                 if (case tb_edit tb of None \<Rightarrow> False | Some ed \<Rightarrow> ed_live ed \<and> ed_row ed = i \<and> ed_col ed = k) then Inr tb
                 else
                   (let cfg = edit_config e (edit_value e (tb_columns tb ! k) (arr_get (tb_collection tb) i) (tr_cells (rows ! i) ! k))
                    in bindE (field_setValue (get_prop cfg ''value'') (draw_field call (field_new cfg))) (\<lambda>(f, _).
                         let tb1 = stopEditing tb
                         in Inr (tb1\<lparr>tb_edit := Some \<lparr>ed_row = i, ed_col = k, ed_live = True, ed_field = f\<rparr>,
                                     tb_rows := map_option (map_td i k (set_style ''editing'')) (tb_rows tb1)\<rparr>))))
          else Inr tb)"

text \<open>\<open>commitChanges\<close>: the value of the field is sent under its name, with \<open>put\<close> if that is configured. The row
  of a cell that is no longer in the document cannot be found.\<close>

definition commitChanges :: "props \<Rightarrow> 'o citable \<Rightarrow> (js_error + wire \<times> 'o act list) option" where
  "commitChanges base tb =
     (case tb_edit tb of
        None \<Rightarrow> None
      | Some e \<Rightarrow>
          Some (if \<not> ed_live e then Inl TypeError
                else case tb_data tb of
                  None \<Rightarrow> Inl TypeError
                | Some data \<Rightarrow>
                    bindE (taffy_get data (DNum (ed_row e))) (\<lambda>rs.
                    bindE (field_getValue (ed_field e)) (\<lambda>v.
                      ci_send base (Some (if can ''put'' (tb_request tb) then ''put'' else ''post''))
                        [(to_string (fget ''name'' (ed_field e)), v)] (arr_get rs 0) (tb_request tb)))))"

text \<open>\<open>_onTaffyUpdate\<close>: the cells of the row are drawn anew from the new record.\<close>

definition redraw_row :: "rat \<Rightarrow> nat \<Rightarrow> jsval \<Rightarrow> 'o citable \<Rightarrow> trow list \<Rightarrow> 'o citable" where
  "redraw_row height i newRecord tb rows =
     (case make_cells height (tb_selectable tb) (length (tb_columns tb)) (length (tb_collection tb)) 0
             (case newRecord of JObj _ \<Rightarrow> Some i | _ \<Rightarrow> None) newRecord (tb_columns tb) of (tds, cols, cls) \<Rightarrow>
        tb\<lparr>tb_columns := cols,
           tb_rows := Some (rows[i := (rows ! i)\<lparr>tr_cells := tds, tr_elem := fold addClass cls (tr_elem (rows ! i))\<rparr>])\<rparr>)"

text \<open>The number a record was given; its row is looked up by it.\<close>

definition row_number :: "jsval \<Rightarrow> nat option" where
  "row_number r =
     (case read_prop r ''__rowIndex'' of
        Inr (JNum x) \<Rightarrow> if x = of_nat (nat \<lfloor>x\<rfloor>) then Some (nat \<lfloor>x\<rfloor>) else None
      | _ \<Rightarrow> None)"

text \<open>\<open>_onPostedData\<close>: the answer to the request of an edit. The edit ends, the row is redrawn and the record
  is merged into the collection, which is the table's own array.\<close>

definition table_onPostedData :: "rat \<Rightarrow> jsval \<Rightarrow> 'o citable \<Rightarrow> js_error + 'o citable" where
  "table_onPostedData height newRecord tb =
     (case tb_edit tb of
        None \<Rightarrow> Inr tb
      | Some e \<Rightarrow>
          if \<not> ed_live e then Inl TypeError
          else (let tb1 = stopEditing tb
                in case (tb_data tb1, tb_rows tb1) of
                     (Some data, Some rows) \<Rightarrow>
                       (case row_number (arr_get (TOb data) (ed_row e)) of
                          None \<Rightarrow> Inl TypeError
                        | Some i \<Rightarrow>
                            if nullish newRecord \<or> \<not> (i < length rows \<and> tr_index (rows ! i) = Some i) then Inl TypeError
                            else (let new' = fst (taffy_onUpdate newRecord (arr_get (TOb data) (ed_row e)));
                                      tb2 = redraw_row height i new' tb1 rows
                                  in bindE (taffy_update newRecord (DNum (ed_row e)) data) (\<lambda>(data', _).
                                       Inr (tb2\<lparr>tb_data := Some data', tb_collection := TOb data'\<rparr>))))
                   | _ \<Rightarrow> Inl TypeError))"

subsection \<open>Requests\<close>

definition table_getData :: "props \<Rightarrow> props \<Rightarrow> 'o citable \<Rightarrow> js_error + wire \<times> 'o act list" where
  "table_getData base moreParams tb = ci_send base (Some ''get'') moreParams JUndef (tb_request tb)"

definition getRecords :: "props \<Rightarrow> jsval \<Rightarrow> props \<Rightarrow> 'o citable \<Rightarrow> js_error + wire \<times> 'o act list" where
  "getRecords base r moreParams tb = ci_send base (Some ''get'') moreParams r (tb_request tb)"

definition postRecord :: "props \<Rightarrow> jsval \<Rightarrow> props \<Rightarrow> 'o citable \<Rightarrow> js_error + wire \<times> 'o act list" where
  "postRecord base r moreParams tb = ci_send base (Some ''post'') moreParams r (tb_request tb)"

definition putRecord :: "props \<Rightarrow> jsval \<Rightarrow> props \<Rightarrow> 'o citable \<Rightarrow> js_error + wire \<times> 'o act list" where
  "putRecord base r moreParams tb = ci_send base (Some ''put'') moreParams r (tb_request tb)"

text \<open>\<open>deleteRecord\<close>: with a prompt, nothing is sent until the sheet's button is clicked.\<close>

datatype 'o deletion = Ask jsval | Sent "js_error + wire \<times> 'o act list"

definition deleteRecord :: "props \<Rightarrow> jsval \<Rightarrow> props \<Rightarrow> 'o citable \<Rightarrow> 'o deletion" where
  "deleteRecord base r moreParams tb =
     (if truthy (tb_deletePrompt tb) then Ask (tb_deletePrompt tb)
      else Sent (ci_send base (Some ''delete'') moreParams r (tb_request tb)))"

definition deleteConfirmed :: "props \<Rightarrow> jsval \<Rightarrow> props \<Rightarrow> 'o citable \<Rightarrow> js_error + wire \<times> 'o act list" where
  "deleteConfirmed base r moreParams tb = ci_send base (Some ''delete'') moreParams r (tb_request tb)"

text \<open>The events of the request the table hears: data, the answer to an edit, and the reload after a
  change.\<close>

definition table_onEvent :: "rat \<Rightarrow> nat \<Rightarrow> props \<Rightarrow> string \<Rightarrow> jsval \<Rightarrow> 'o citable \<Rightarrow>
    js_error + 'o citable \<times> (js_error + wire \<times> 'o act list) option" where
  "table_onEvent height now base ev resp tb =
     (let reload = (\<lambda>t. if tb_getAfter t \<and> ev \<in> set [''DeletedData'', ''PostedData'', ''PutData'']
                        then Some (table_getData base [] t) else None)
      in if ev = ''GotData'' then bindE (table_onGotData height now resp tb) (\<lambda>(t, _). Inr (t, None))
         else if ev = (if can ''put'' (tb_request tb) then ''PutData'' else ''PostedData'')
         then bindE (table_onPostedData height resp tb) (\<lambda>t. Inr (t, reload t))
         else Inr (tb, reload tb))"

subsection \<open>Lemmas\<close>

text \<open>Numbering the records with \<open>forEach\<close>.\<close>

lemma forEach_from_numbers:
  "n + length rs = length (TOb st) \<Longrightarrow> drop n (TOb st) = rs \<Longrightarrow>
   forEach_from (\<lambda>r i. (g i r, JUndef)) [n..<length (TOb st)] st =
     Inr (st\<lparr>TOb := take n (TOb st) @ map (\<lambda>(i, r). g i r) (enumerate n rs)\<rparr>)"
proof (induction rs arbitrary: n st)
  case (Cons r rs)
  have n: "n < length (TOb st)" using Cons.prems(1) by simp
  have r: "TOb st ! n = r" "drop (Suc n) (TOb st) = rs"
    using Cons.prems(2) n by (metis Cons_nth_drop_Suc list.inject)+
  let ?st = "st\<lparr>TOb := (TOb st)[n := g n r]\<rparr>"
  have "forEach_from (\<lambda>r i. (g i r, JUndef)) [Suc n..<length (TOb ?st)] ?st =
      Inr (?st\<lparr>TOb := take (Suc n) (TOb ?st) @ map (\<lambda>(i, r). g i r) (enumerate (Suc n) rs)\<rparr>)"
    using Cons.prems(1) r(2) n by (intro Cons.IH) auto
  moreover have "[n..<length (TOb st)] = n # [Suc n..<length (TOb st)]" using n by (rule upt_conv_Cons)
  ultimately show ?case
    using n r(1) by (simp add: isObject_iff take_Suc_conv_app_nth)
qed simp

definition numbered :: "jsval list \<Rightarrow> jsval list" where
  "numbered rs = map (\<lambda>(i, r). put_index i r) (enumerate 0 rs)"

lemma length_numbered [simp]: "length (numbered rs) = length rs"
  by (simp add: numbered_def)

lemma nth_numbered [simp]: "i < length rs \<Longrightarrow> numbered rs ! i = put_index i (rs ! i)"
  by (simp add: numbered_def nth_enumerate_eq)

lemma forEach_numbers:
  "taffy_forEach (\<lambda>r i. (put_index i r, JUndef)) DOther ((taffy_new r now rs)\<lparr>onUpdate := u\<rparr>) =
     Inr ((taffy_new r now rs)\<lparr>onUpdate := u, TOb := numbered rs\<rparr>)"
proof -
  have "taffy_forEach (\<lambda>r i. (put_index i r, JUndef)) DOther ((taffy_new r now rs)\<lparr>onUpdate := u\<rparr>) =
      Inr ((taffy_new r now rs)\<lparr>onUpdate := u, TOb := take 0 rs @ map (\<lambda>(i, r). put_index i r) (enumerate 0 rs)\<rparr>)"
    using forEach_from_numbers [of 0 rs "(taffy_new r now rs)\<lparr>onUpdate := u\<rparr>" put_index]
    by (simp add: taffy_forEach_def bDexArray_def taffy_new_def bTIA_def)
  then show ?thesis by (simp add: numbered_def)
qed

text \<open>What a drawn cell shows depends on the column's renderer and options, not on its styles.\<close>

definition shows_cell :: "column \<Rightarrow> jsval \<Rightarrow> jsval option" where
  "shows_cell c r = (let v = rd_content (cell_content c r) in if nullish v then None else Some v)"

lemma styles_fields [simp]:
  "cget k (c\<lparr>co_styles := s\<rparr>) = cget k c" "field_of r (c\<lparr>co_styles := s\<rparr>) = field_of r c"
  "cell_html (c\<lparr>co_styles := s\<rparr>) v = cell_html c v"
  by (simp_all add: cget_def field_of_def cell_html_def)

lemma styles_irrelevant [simp]:
  "cell_content (c\<lparr>co_styles := s\<rparr>) r = cell_content c r" "cell_editable (c\<lparr>co_styles := s\<rparr>) r = cell_editable c r"
  by (simp_all add: cell_content_def cell_editable_def split: option.splits)

lemma styles_shows [simp]: "shows_cell (c\<lparr>co_styles := s\<rparr>) r = shows_cell c r"
  by (simp add: shows_cell_def)

lemma styles_self: "\<exists>s. c = c\<lparr>co_styles := s\<rparr>"
  by (rule exI [of _ "co_styles c"]) simp

definition same_columns :: "column list \<Rightarrow> column list \<Rightarrow> bool" where
  "same_columns cs cs' = list_all2 (\<lambda>c c'. \<exists>s. c' = c\<lparr>co_styles := s\<rparr>) cs cs'"

lemma same_columns_refl [simp]: "same_columns cs cs"
  by (simp add: same_columns_def list_all2_conv_all_nth styles_self)

lemma same_columns_trans: "same_columns as bs \<Longrightarrow> same_columns bs cs \<Longrightarrow> same_columns as cs"
  unfolding same_columns_def by (erule list_all2_trans [rotated], assumption, auto)

lemma same_columns_length: "same_columns as bs \<Longrightarrow> length bs = length as"
  by (simp add: same_columns_def list_all2_lengthD)

lemma same_columns_shows: "same_columns as bs \<Longrightarrow> map (\<lambda>c. shows_cell c r) bs = map (\<lambda>c. shows_cell c r) as"
  by (auto simp: same_columns_def list_all2_conv_all_nth intro!: nth_equalityI)

lemma make_cells_shows:
  "make_cells height sel ncols nrows k index r cs = (tds, cs', cls) \<Longrightarrow>
   map td_content tds = map (\<lambda>c. shows_cell c r) cs \<and> same_columns cs cs'"
  by (induction cs arbitrary: k tds cs' cls)
    (auto simp: Let_def table_cell_def shows_cell_def same_columns_def split: prod.splits)

lemma draw_rows_shows:
  "draw_rows height sel nrows i cols rs = (rows, cols') \<Longrightarrow>
   map (\<lambda>tr. map td_content (tr_cells tr)) rows = map (\<lambda>r. map (\<lambda>c. shows_cell c r) cols) rs \<and>
   map tr_index rows = map Some [i..<i + length rs] \<and> same_columns cols cols'"
proof (induction rs arbitrary: i cols rows cols')
  case (Cons r rs)
  obtain tds cols1 cls where mc: "make_cells height sel (length cols) nrows 0 (Some i) r cols = (tds, cols1, cls)"
    by (cases "make_cells height sel (length cols) nrows 0 (Some i) r cols")
  obtain rows1 where dr: "draw_rows height sel nrows (Suc i) cols1 rs = (rows1, cols')"
      "rows = \<lparr>tr_elem = row_elem height i cls, tr_index = Some i, tr_cells = tds\<rparr> # rows1"
    using Cons.prems mc by (auto split: prod.splits)
  have "same_columns cols cols1" using make_cells_shows [OF mc] by simp
  then show ?case
    using Cons.IH [OF dr(1)] make_cells_shows [OF mc] dr(2)
    by (auto simp: same_columns_shows upt_conv_Cons simp del: upt_Suc intro: same_columns_trans)
qed simp

text \<open>What selection and editing leave alone of the rows: their numbers and which cells are editable.\<close>

definition frame :: "trow list \<Rightarrow> (nat option \<times> bool list) list" where
  "frame rows = map (\<lambda>tr. (tr_index tr, map td_editable (tr_cells tr))) rows"

definition frame_ok :: "nat \<Rightarrow> trow list \<Rightarrow> bool" where
  "frame_ok n rows =
     (map tr_index rows = (if n = 0 then [None] else map Some [0..<n]) \<and>
      (\<forall>tr \<in> set rows. tr_index tr = None \<longrightarrow> (\<forall>td \<in> set (tr_cells tr). \<not> td_editable td)))"

lemma frame_map_row [simp]: "frame (map_row i f rows) = frame rows"
  by (simp add: frame_def map_row_def map_put_same)

lemma frame_map_td [simp]: "frame (map_td i k f rows) = frame rows"
proof (cases "i < length rows \<and> k < length (tr_cells (rows ! i))")
  case True
  let ?tds = "tr_cells (rows ! i)"
  have "map td_editable (?tds[k := (?tds ! k)\<lparr>td_elem := f (td_elem (?tds ! k))\<rparr>]) = map td_editable ?tds"
    using True by (simp add: map_put_same)
  with True show ?thesis by (simp add: frame_def map_td_def map_put_same)
qed (auto simp: map_td_def)

lemma frame_ok_iff:
  "frame_ok n rows \<longleftrightarrow>
     map fst (frame rows) = (if n = 0 then [None] else map Some [0..<n]) \<and>
     (\<forall>(ix, eds) \<in> set (frame rows). ix = None \<longrightarrow> True \<notin> set eds)"
  by (auto simp: frame_ok_def frame_def comp_def)

lemma frame_ok_cong: "frame rows' = frame rows \<Longrightarrow> frame_ok n rows' = frame_ok n rows"
  by (simp add: frame_ok_iff)

lemma frame_ok_length: "frame_ok n rows \<Longrightarrow> length rows = max 1 n"
proof -
  assume "frame_ok n rows"
  then have "length (map tr_index rows) = max 1 n" by (simp add: frame_ok_def split: if_splits)
  then show ?thesis by simp
qed

lemma frame_ok_editable:
  "frame_ok n rows \<Longrightarrow> i < length rows \<Longrightarrow> k < length (tr_cells (rows ! i)) \<Longrightarrow>
   td_editable (tr_cells (rows ! i) ! k) \<Longrightarrow> i < n"
proof -
  assume ok: "frame_ok n rows" and i: "i < length rows" "k < length (tr_cells (rows ! i))" "td_editable (tr_cells (rows ! i) ! k)"
  then have "tr_index (rows ! i) \<noteq> None" by (auto simp: frame_ok_def)
  moreover have "tr_index (rows ! i) = None" if "n = 0"
    using ok i(1) that by (cases rows) (auto simp: frame_ok_def)
  ultimately have "n \<noteq> 0" by (meson)
  then show "i < n" using frame_ok_length [OF ok] i(1) by simp
qed

text \<open>Every record that is an object has distinct keys and the number of its row.\<close>

definition wf_val :: "jsval \<Rightarrow> bool" where
  "wf_val v = (case v of JObj p \<Rightarrow> distinct (map fst p) | _ \<Rightarrow> True)"

definition record_numbers :: "jsval list \<Rightarrow> bool" where
  "record_numbers rs =
     (\<forall>i < length rs. \<forall>p. rs ! i = JObj p \<longrightarrow> distinct (map fst p) \<and> get_prop p ''__rowIndex'' = JNum (of_nat i))"

lemma record_numbers_numbered: "list_all wf_val rs \<Longrightarrow> record_numbers (numbered rs)"
  by (auto simp: record_numbers_def put_index_def wf_val_def list_all_length distinct_update split: jsval.splits)

lemma record_numbers_put:
  assumes "record_numbers rs" "\<And>m. v = JObj m \<Longrightarrow> distinct (map fst m) \<and> get_prop m ''__rowIndex'' = JNum (of_nat i)"
  shows "record_numbers (rs[i := v])"
  unfolding record_numbers_def
proof (intro allI impI)
  fix j p
  assume "j < length (rs[i := v])" "rs[i := v] ! j = JObj p"
  then show "distinct (map fst p) \<and> get_prop p ''__rowIndex'' = JNum (of_nat j)"
    using assms by (cases "j = i") (auto simp: record_numbers_def)
qed

lemma row_number_record: "record_numbers rs \<Longrightarrow> i < length rs \<Longrightarrow> rs ! i = JObj p \<Longrightarrow> row_number (rs ! i) = Some i"
  by (simp add: record_numbers_def row_number_def)

definition table_ok :: "'o citable \<Rightarrow> bool" where
  "table_ok tb =
     (\<exists>rows data. tb_rows tb = Some rows \<and> tb_data tb = Some data \<and> TOb data = tb_collection tb \<and>
        onUpdate data = Some taffy_onUpdate \<and> frame_ok (length (tb_collection tb)) rows \<and>
        record_numbers (tb_collection tb) \<and>
        (\<forall>e. tb_edit tb = Some e \<longrightarrow> ed_live e \<longrightarrow> ed_row e < length (tb_collection tb)))"

lemma table_render_eq:
  assumes "tb_rows tb = Some rows0"
    and "draw_rows height (tb_selectable tb) (length (tb_collection tb)) 0 (tb_columns tb) (numbered (tb_collection tb)) = (rows, cols)"
  shows "table_render height now tb =
      Inr (tb\<lparr>tb_data := Some ((taffy_new (tb_rx tb) now (tb_collection tb))\<lparr>onUpdate := Some taffy_onUpdate, TOb := numbered (tb_collection tb)\<rparr>),
              tb_collection := numbered (tb_collection tb), tb_columns := cols,
              tb_rows := Some (if tb_collection tb = [] then [no_data_row tb] else rows),
              tb_selRow := (case tb_selRow tb of NoSub \<Rightarrow> NoSub | _ \<Rightarrow> Gone),
              tb_edit := map_option (\<lambda>e. e\<lparr>ed_live := False\<rparr>) (tb_edit tb)\<rparr>, [(''Rendered'', [])])"
proof -
  have "numbered (tb_collection tb) = [] \<longleftrightarrow> tb_collection tb = []"
    by (metis length_0_conv length_numbered)
  with assms show ?thesis by (simp add: table_render_def forEach_numbers)
qed

lemma table_render_ok:
  assumes "tb_rows tb = Some rows0" "table_render height now tb = Inr (tb', ev)" "list_all wf_val (tb_collection tb)"
  shows "table_ok tb'"
proof -
  obtain rows cols where dr:
    "draw_rows height (tb_selectable tb) (length (tb_collection tb)) 0 (tb_columns tb) (numbered (tb_collection tb)) = (rows, cols)"
    by fastforce
  have ix: "map tr_index rows = map Some [0..<length (tb_collection tb)]"
    using draw_rows_shows [OF dr] by simp
  have "tr_index tr \<noteq> None" if "tr \<in> set rows" for tr
    using ix that by (metis (no_types, lifting) in_set_conv_nth length_map nth_map option.distinct(1))
  with ix have "frame_ok (length (tb_collection tb)) (if tb_collection tb = [] then [no_data_row tb] else rows)"
    by (fastforce simp: frame_ok_def no_data_row_def)
  with table_render_eq [OF assms(1) dr, of now] assms(2) record_numbers_numbered [OF assms(3)] show ?thesis
    by (auto simp: table_ok_def)
qed

lemma table_okI:
  assumes "table_ok tb" "tb_rows tb' = Some rows'" "frame rows' = frame (the (tb_rows tb))"
    and "tb_data tb' = tb_data tb" "tb_collection tb' = tb_collection tb"
    and "\<And>e. tb_edit tb' = Some e \<Longrightarrow> ed_live e \<Longrightarrow> ed_row e < length (tb_collection tb)"
  shows "table_ok tb'"
proof -
  obtain rows data where tb: "tb_rows tb = Some rows" "tb_data tb = Some data" "TOb data = tb_collection tb"
      "onUpdate data = Some taffy_onUpdate" "frame_ok (length (tb_collection tb)) rows" "record_numbers (tb_collection tb)"
    using assms(1) by (auto simp: table_ok_def)
  then have "frame_ok (length (tb_collection tb)) rows'" using frame_ok_cong [of rows' rows] assms(3) by simp
  with tb assms show ?thesis unfolding table_ok_def by auto
qed

lemma removeSelection_ok: "table_ok tb \<Longrightarrow> table_ok (fst (table_removeSelection tb))"
  by (rule table_okI [where tb = tb and rows' = "the (tb_rows (fst (table_removeSelection tb)))"])
    (auto simp: table_removeSelection_def table_ok_def split: sub_ref.splits)

lemma selectRow_ok: "table_ok tb \<Longrightarrow> table_ok (fst (table_selectRow b i tb))"
proof -
  assume ok: "table_ok tb"
  obtain tb1 ev where tb1: "table_removeSelection tb = (tb1, ev)" by fastforce
  then have "table_ok tb1" using removeSelection_ok [OF ok] by simp
  then show ?thesis
    using tb1
    by (auto simp: table_selectRow_def table_ok_def Let_def frame_ok_cong [OF frame_map_row])
qed

lemma stopEditing_ok: "table_ok tb \<Longrightarrow> table_ok (stopEditing tb)"
  by (auto simp: stopEditing_def table_ok_def frame_ok_cong [OF frame_map_td] split: option.splits)

lemma stopEditing_fields [simp]:
  "tb_data (stopEditing tb) = tb_data tb" "tb_collection (stopEditing tb) = tb_collection tb"
  "tb_columns (stopEditing tb) = tb_columns tb" "tb_selectable (stopEditing tb) = tb_selectable tb"
  "tb_edit (stopEditing tb) = None"
  by (auto simp: stopEditing_def split: option.splits)

lemma onEditCell_ok: "table_ok tb \<Longrightarrow> onEditCell call i k tb = Inr tb' \<Longrightarrow> table_ok tb'"
proof -
  assume ok: "table_ok tb" and ed: "onEditCell call i k tb = Inr tb'"
  obtain rows where tb: "tb_rows tb = Some rows" "frame_ok (length (tb_collection tb)) rows"
    using ok by (auto simp: table_ok_def)
  show ?thesis
  proof (cases "tb' = tb")
    case False
    then have "i < length rows" "k < length (tr_cells (rows ! i))" "td_editable (tr_cells (rows ! i) ! k)"
      using ed tb(1) by (auto simp: onEditCell_def split: if_splits)
    then have i: "i < length (tb_collection tb)" using frame_ok_editable [OF tb(2)] by blast
    obtain f where "tb' = (stopEditing tb)\<lparr>tb_edit := Some \<lparr>ed_row = i, ed_col = k, ed_live = True, ed_field = f\<rparr>,
        tb_rows := map_option (map_td i k (set_style ''editing'')) (tb_rows (stopEditing tb))\<rparr>"
      using ed tb(1) False by (auto simp: onEditCell_def err_simps Let_def split: if_splits option.splits)
    with i stopEditing_ok [OF ok] show ?thesis
      by (auto simp: table_ok_def frame_ok_cong [OF frame_map_td])
  qed (use ok in simp)
qed

text \<open>The answer to an edit, with an object: one record is merged and its row drawn anew.\<close>

lemma taffy_onUpdate_old [simp]: "snd (taffy_onUpdate new old) = old"
  by (simp add: taffy_onUpdate_def)

lemma taffy_update_one:
  assumes "onUpdate data = Some taffy_onUpdate" "i < length (TOb data)"
  shows "taffy_update newRecord (DNum i) data =
    Inr (data\<lparr>TOb := (TOb data)[i := mergeObj (TOb data ! i) (fst (taffy_onUpdate newRecord (TOb data ! i)))]\<rparr>, [i])"
  using assms by (simp add: taffy_update_def bDexArray_def update_row_def case_prod_unfold)

lemma merged_number:
  assumes "distinct (map fst p)" "mergeObj (JObj q) (fst (taffy_onUpdate (JObj p) (JObj q))) = JObj m"
  shows "distinct (map fst m) \<and> get_prop m ''__rowIndex'' = get_prop q ''__rowIndex''"
proof -
  let ?p = "AList.update ''__rowIndex'' (get_prop q ''__rowIndex'') p"
  have m: "mergeObj (JObj q) (JObj ?p) = JObj m" using assms(2) by (simp add: taffy_onUpdate_def)
  have "distinct (map fst ?p)" using assms(1) by (rule distinct_update)
  then have "map_of m ''__rowIndex'' = Some (get_prop q ''__rowIndex'')"
    using map_of_mergeObj [OF m] by (simp add: map_of_rev_distinct update_conv)
  moreover have "distinct (map fst m)" using m mergeObj_JObj by (metis jsval.inject(5))
  ultimately show ?thesis by (simp add: get_prop_def)
qed

text \<open>What the rows show.\<close>

definition contents :: "trow list \<Rightarrow> jsval option list list" where
  "contents rows = map (\<lambda>tr. map td_content (tr_cells tr)) rows"

lemma contents_map_row [simp]: "contents (map_row i f rows) = contents rows"
  by (simp add: contents_def map_row_def map_put_same)

lemma contents_map_td [simp]: "contents (map_td i k f rows) = contents rows"
proof (cases "i < length rows \<and> k < length (tr_cells (rows ! i))")
  case True
  let ?tds = "tr_cells (rows ! i)"
  have "map td_content (?tds[k := (?tds ! k)\<lparr>td_elem := f (td_elem (?tds ! k))\<rparr>]) = map td_content ?tds"
    using True by (simp add: map_put_same)
  with True show ?thesis by (simp add: contents_def map_td_def map_put_same)
qed (auto simp: map_td_def)

lemma stopEditing_rows:
  "tb_rows tb = Some rows \<Longrightarrow>
   \<exists>rows'. tb_rows (stopEditing tb) = Some rows' \<and> contents rows' = contents rows \<and> frame rows' = frame rows"
  by (auto simp: stopEditing_def split: option.splits)

lemma redraw_row_shows:
  assumes "i < length rows" "tr_index (rows ! i) = Some i"
  shows "\<exists>rows' cols. redraw_row height i r tb rows = tb\<lparr>tb_columns := cols, tb_rows := Some rows'\<rparr> \<and>
           contents rows' = (contents rows)[i := map (\<lambda>c. shows_cell c r) (tb_columns tb)] \<and>
           map tr_index rows' = map tr_index rows \<and> same_columns (tb_columns tb) cols \<and>
           (\<forall>j < length rows. j \<noteq> i \<longrightarrow> rows' ! j = rows ! j)"
proof -
  obtain tds cols cls where mc: "make_cells height (tb_selectable tb) (length (tb_columns tb)) (length (tb_collection tb)) 0
      (case r of JObj _ \<Rightarrow> Some i | _ \<Rightarrow> None) r (tb_columns tb) = (tds, cols, cls)"
    using prod_cases3 by blast
  let ?row = "(rows ! i)\<lparr>tr_cells := tds, tr_elem := fold addClass cls (tr_elem (rows ! i))\<rparr>"
  have "contents (rows[i := ?row]) = (contents rows)[i := map (\<lambda>c. shows_cell c r) (tb_columns tb)]"
    using make_cells_shows [OF mc] by (simp add: contents_def map_update)
  moreover have "map tr_index (rows[i := ?row]) = map tr_index rows"
    using assms by (simp add: map_put_same)
  ultimately show ?thesis
    using mc make_cells_shows [OF mc]
    by (intro exI [of _ "rows[i := ?row]"] exI [of _ cols]) (simp add: redraw_row_def)
qed

text \<open>The state after the answer to an edit.\<close>

lemma frame_ok_renumbered:
  assumes "frame_ok n rows" "map tr_index rows' = map tr_index rows" "0 < n"
  shows "frame_ok n rows'"
proof -
  have eq: "map tr_index rows' = map Some [0..<n]" using assms by (auto simp: frame_ok_def)
  have "tr_index tr \<noteq> None" if "tr \<in> set rows'" for tr
  proof -
    have "tr_index tr \<in> set (map Some [0..<n])" using that eq by (metis image_eqI set_map)
    then show ?thesis by auto
  qed
  then show ?thesis using assms by (auto simp: frame_ok_def) fastforce
qed

lemma posted_eq:
  assumes ok: "table_ok tb" and e: "tb_edit tb = Some e" "ed_live e" and rows: "tb_rows tb = Some rows"
    and q: "tb_collection tb ! ed_row e = JObj q" and p: "distinct (map fst p)"
  shows "\<exists>tb' rows'. table_onPostedData height (JObj p) tb = Inr tb' \<and> table_ok tb' \<and> tb_edit tb' = None \<and>
           tb_collection tb' = (tb_collection tb)[ed_row e := mergeObj (JObj q) (put_index (ed_row e) (JObj p))] \<and>
           same_columns (tb_columns tb) (tb_columns tb') \<and> tb_rows tb' = Some rows' \<and>
           contents rows' = (contents rows)[ed_row e := map (\<lambda>c. shows_cell c (put_index (ed_row e) (JObj p))) (tb_columns tb)]"
proof -
  let ?i = "ed_row e" and ?n = "length (tb_collection tb)"
  obtain data where data: "tb_data tb = Some data" "TOb data = tb_collection tb" "onUpdate data = Some taffy_onUpdate"
      "frame_ok ?n rows" "record_numbers (tb_collection tb)" "?i < ?n"
    using ok e rows by (auto simp: table_ok_def)
  obtain rows1 where rows1: "tb_rows (stopEditing tb) = Some rows1" "contents rows1 = contents rows" "frame rows1 = frame rows"
    using stopEditing_rows [OF rows] by blast
  have num: "row_number (tb_collection tb ! ?i) = Some ?i" "get_prop q ''__rowIndex'' = JNum (of_nat ?i)"
    using row_number_record [OF data(5,6) q] data(5,6) q by (auto simp: record_numbers_def)
  have fr: "frame_ok ?n rows1" using data(4) frame_ok_cong [OF rows1(3)] by simp
  then have row: "?i < length rows1" "tr_index (rows1 ! ?i) = Some ?i"
    using frame_ok_length [OF fr] data(6) arg_cong [of _ _ "\<lambda>xs. xs ! ?i", OF conjunct1 [OF fr [unfolded frame_ok_def]]]
    by auto
  have new: "fst (taffy_onUpdate (JObj p) (JObj q)) = put_index ?i (JObj p)"
    using num(2) by (simp add: taffy_onUpdate_def put_index_def)
  obtain rows' cols where rd: "redraw_row height ?i (put_index ?i (JObj p)) (stopEditing tb) rows1 =
        (stopEditing tb)\<lparr>tb_columns := cols, tb_rows := Some rows'\<rparr>"
      "contents rows' = (contents rows)[?i := map (\<lambda>c. shows_cell c (put_index ?i (JObj p))) (tb_columns tb)]"
      "map tr_index rows' = map tr_index rows1" "same_columns (tb_columns tb) cols"
      "\<forall>j < length rows1. j \<noteq> ?i \<longrightarrow> rows' ! j = rows1 ! j"
    using redraw_row_shows [OF row, of height "put_index ?i (JObj p)" "stopEditing tb"] rows1(2) by auto
  let ?m = "mergeObj (JObj q) (put_index ?i (JObj p))"
  let ?tb = "(stopEditing tb)\<lparr>tb_columns := cols, tb_rows := Some rows',
      tb_data := Some (data\<lparr>TOb := (tb_collection tb)[?i := ?m]\<rparr>), tb_collection := (tb_collection tb)[?i := ?m]\<rparr>"
  have "table_onPostedData height (JObj p) tb = Inr ?tb"
    using e data rows1(1) num row rd(1) new q taffy_update_one [of data ?i "JObj p"]
    by (simp add: table_onPostedData_def Let_def)
  moreover have "table_ok ?tb"
  proof -
    have "record_numbers ((tb_collection tb)[?i := ?m])"
      using data(5) merged_number [OF p, of q] num(2) new by (intro record_numbers_put) auto
    moreover have "frame_ok ?n rows'" using frame_ok_renumbered [OF fr rd(3)] data(6) by linarith
    ultimately show ?thesis using data(3) by (simp add: table_ok_def)
  qed
  ultimately show ?thesis using rd(2,4) by (intro exI [of _ ?tb] exI [of _ rows']) simp
qed

subsection \<open>The life of a table\<close>

definition rows_of_response :: "'o citable \<Rightarrow> jsval \<Rightarrow> jsval list" where
  "rows_of_response tb resp =
     (if tb_paginated tb then (case read_prop resp ''CIPaginatorCollection'' of Inr c \<Rightarrow> splat c | Inl _ \<Rightarrow> [])
      else splat resp)"

inductive table_step :: "(string \<Rightarrow> props) \<Rightarrow> 'o citable \<Rightarrow> 'o citable \<Rightarrow> bool" for call where
  ts_data: "table_onGotData h now resp tb = Inr (tb', ev) \<Longrightarrow> list_all wf_val (rows_of_response tb resp) \<Longrightarrow>
     table_step call tb tb'"
| ts_select: "table_step call tb (fst (table_selectRow b i tb))"
| ts_deselect: "table_step call tb (fst (table_removeSelection tb))"
| ts_edit: "onEditCell call i k tb = Inr tb' \<Longrightarrow> table_step call tb tb'"
| ts_type: "tb_edit tb = Some e \<Longrightarrow> field_setValue v (ed_field e) = Inr (f, ev) \<Longrightarrow>
     table_step call tb (tb\<lparr>tb_edit := Some (e\<lparr>ed_field := f\<rparr>)\<rparr>)"
| ts_stop: "table_step call tb (stopEditing tb)"
| ts_posted: "table_onPostedData h (JObj p) tb = Inr tb' \<Longrightarrow> distinct (map fst p) \<Longrightarrow> table_step call tb tb'"

lemma arr_clean_wf: "list_all wf_val rs \<Longrightarrow> list_all wf_val (arr_clean rs)"
  by (simp add: arr_clean_def list_all_iff)

lemma setCollection_ok:
  assumes "tb_rows tb = Some rows0" "table_setCollection h now resp tb = Inr (tb', ev)"
    and "list_all wf_val (rows_of_response tb resp)"
  shows "table_ok tb'"
proof -
  obtain c where c: "(if tb_paginated tb then read_prop resp ''CIPaginatorCollection'' else Inr resp) = Inr c"
      "table_render h now (tb\<lparr>tb_collection := arr_clean (splat c)\<rparr>) = Inr (tb', ev)"
    using assms(2) by (auto simp: table_setCollection_def err_simps)
  then have "list_all wf_val (arr_clean (splat c))"
    using assms(3) by (intro arr_clean_wf) (auto simp: rows_of_response_def split: if_splits)
  then show ?thesis using table_render_ok [OF _ c(2)] assms(1) by simp
qed

lemma posted_ok:
  assumes "table_ok tb" "table_onPostedData h (JObj p) tb = Inr tb'" "distinct (map fst p)"
  shows "table_ok tb'"
proof (cases "tb_edit tb")
  case None
  with assms show ?thesis by (simp add: table_onPostedData_def)
next
  case (Some e)
  obtain rows data where tb: "tb_rows tb = Some rows" "tb_data tb = Some data" "TOb data = tb_collection tb"
    using assms(1) by (auto simp: table_ok_def)
  have live: "ed_live e" using assms(2) Some by (auto simp: table_onPostedData_def split: if_splits)
  then have i: "ed_row e < length (tb_collection tb)" using assms(1) Some by (auto simp: table_ok_def)
  obtain rows1 where "tb_rows (stopEditing tb) = Some rows1" using stopEditing_rows [OF tb(1)] by blast
  then obtain n where "row_number (tb_collection tb ! ed_row e) = Some n"
    using assms(2) Some live tb(2,3) i
    by (auto simp: table_onPostedData_def Let_def split: option.splits)
  then obtain q where "tb_collection tb ! ed_row e = JObj q"
    by (cases "tb_collection tb ! ed_row e") (auto simp: row_number_def elem_prop_name is_digit_def)
  from posted_eq [OF assms(1) Some live tb(1) this assms(3), of h] assms(2) show ?thesis by auto
qed

interpretation tables: machine
  "\<lambda>tb :: 'o citable. \<exists>r opts cols methods h now ev. list_all wf_val (splat (get_prop opts ''collection'')) \<and>
     table_draw h now (table_new r opts cols methods) = Inr (tb, ev)"
  "table_step call" table_ok for call
proof
  fix tb :: "'o citable"
  assume "\<exists>r opts cols methods h now ev. list_all wf_val (splat (get_prop opts ''collection'')) \<and>
     table_draw h now (table_new r opts cols methods) = Inr (tb, ev)"
  then obtain r opts cols methods h now ev where st: "list_all wf_val (splat (get_prop opts ''collection''))"
      "table_draw h now (table_new r opts cols methods) = Inr (tb, ev)" by blast
  let ?t = "(table_new r opts cols methods)\<lparr>tb_rows := Some []\<rparr> :: 'o citable"
  have "list_all wf_val (rows_of_response ?t (JArr (tb_collection ?t)))"
    using arr_clean_wf [OF st(1)]
    by (auto simp: rows_of_response_def table_new_def Let_def splat_def elem_prop_name is_digit_def)
  moreover have "table_setCollection h now (JArr (tb_collection ?t)) ?t = Inr (tb, ev)"
    using st(2) by (simp add: table_draw_def table_new_def Let_def)
  ultimately show "table_ok tb" using setCollection_ok [of ?t "[]"] by simp
next
  fix tb tb' :: "'o citable"
  assume ok: "table_ok tb" and "table_step call tb tb'"
  from this(2) show "table_ok tb'"
  proof cases
    case (ts_data h now resp ev)
    then show ?thesis
      using ok setCollection_ok [of tb] by (auto simp: table_onGotData_def table_ok_def split: if_splits)
  next
    case (ts_type e v f ev)
    then show ?thesis using ok by (auto simp: table_ok_def)
  next
    case (ts_posted h p)
    then show ?thesis using posted_ok [OF ok] by blast
  qed (use ok in \<open>auto intro: selectRow_ok removeSelection_ok onEditCell_ok stopEditing_ok\<close>)
qed

text \<open>What a column made with a configuration answers for its options.\<close>

lemma column_option:
  "cget k (column_new cfg rd edt) =
     (case map_of [(''header'', JStr []), (''property'', JStr ''id''), (''width'', JNull),
                   (''dontEncodeEntitiyChars'', JBool False), (''truncateAfter'', JNull)] k of
        None \<Rightarrow> JUndef
      | Some v \<Rightarrow> if nullish (get_prop cfg k) then v else get_prop cfg k)"
proof -
  let ?ds = "[(''header'', JStr []), (''property'', JStr ''id''), (''width'', JNull),
      (''dontEncodeEntitiyChars'', JBool False), (''truncateAfter'', JNull)]"
  have "synth_defaults (JObj ?ds) = ?ds" by (simp add: synth_defaults_def hash_new_def)
  moreover have "slots (fst (object_new (JObj cfg) 0)) = []"
    by (simp add: object_new_def nextId_def isA_def Let_def)
  ultimately show ?thesis
    by (simp add: cget_def column_new_def synthesize_get)
qed

text \<open>The field of a text editor.\<close>

lemma field_new_type: "fget ''type'' (field_new cfg) = (if nullish (get_prop cfg ''type'') then JStr ''text'' else get_prop cfg ''type'')"
proof -
  have "synth_defaults (JObj field_defaults) = field_defaults" by (simp add: synth_defaults_def hash_new_def field_defaults_def)
  then show ?thesis
    by (simp add: fget_def field_new_def Let_def synthesize_get) (simp add: field_defaults_def)
qed

lemma edited_text:
  assumes "get_prop cfg ''type'' = JStr ty" "ty = ''text'' \<or> ty = ''textarea''"
  shows "\<exists>f evs. field_setValue (JStr v) (draw_field call (field_new cfg)) = Inr (f, evs) \<and> field_getValue f = Inr (JStr v)"
proof -
  have ty: "ftype t (field_new cfg) \<longleftrightarrow> t = ty" for t
    using assms(1) by (auto simp: ftype_def field_new_type js_eq_def to_prim_def)
  obtain e where "makeField call (field_new cfg) = Some e" "dom_tag e \<noteq> ''select''"
    using assms(2) by (auto simp: makeField_def ty input_def)
  then show ?thesis
    using assms(2)
    by (auto simp: draw_field_def field_setValue_def field_getValue_def ty Let_def ctl_put_def control_of_def stored_val_def)
qed

subsection \<open>Properties\<close>

text \<open>Property C9. The data a drawn table receives are what it shows: one row for each record that is not
  \<open>null\<close> or \<open>undefined\<close>, in order and numbered, one cell for each column with what the column makes of
  the record; without records, a single row with the text for that case.\<close>

theorem table_shows_data:
  assumes "tb_rows tb = Some rows0" "\<not> tb_paginated tb" "\<not> tb_doNotSetDataAfterGet tb"
  shows "\<exists>tb' rows. table_onGotData h now resp tb = Inr (tb', [(''Rendered'', [])]) \<and> tb_rows tb' = Some rows \<and>
           tb_collection tb' = numbered (arr_clean (splat resp)) \<and>
           map (\<lambda>tr. map td_content (tr_cells tr)) rows =
             (if arr_clean (splat resp) = [] then [[Some (js_or (tb_noDataText tb) (JStr ''No data to display.''))]]
              else map (\<lambda>r. map (\<lambda>c. shows_cell c r) (tb_columns tb)) (numbered (arr_clean (splat resp))))"
proof -
  let ?rs = "arr_clean (splat resp)"
  let ?t = "tb\<lparr>tb_collection := ?rs\<rparr>"
  obtain rows cols where dr:
    "draw_rows h (tb_selectable ?t) (length (tb_collection ?t)) 0 (tb_columns ?t) (numbered (tb_collection ?t)) = (rows, cols)"
    by fastforce
  have "table_onGotData h now resp tb = table_render h now ?t"
    using assms(2,3) by (simp add: table_onGotData_def table_setCollection_def)
  then show ?thesis
    using table_render_eq [of ?t rows0, OF _ dr, of now] assms(1) draw_rows_shows [OF dr]
    by (auto simp: no_data_row_def)
qed

theorem table_shows_data_witness:
  "\<exists>tb' rows. table_onGotData 20 0 (JArr [JNull, JObj [(''id'', JNum 7)]])
       ((table_new (\<lambda>_ _. False) [] [column_new [] None None] [] :: nat citable)\<lparr>tb_rows := Some []\<rparr>) =
       Inr (tb', [(''Rendered'', [])]) \<and> tb_rows tb' = Some rows \<and> length rows = 1"
proof -
  let ?tb = "(table_new (\<lambda>_ _. False) [] [column_new [] None None] [] :: nat citable)\<lparr>tb_rows := Some []\<rparr>"
  have "arr_clean (splat (JArr [JNull, JObj [(''id'', JNum 7)]])) = [JObj [(''id'', JNum 7)]]"
    by (simp add: arr_clean_def splat_def moo_defined_def js_eq_def)
  then show ?thesis
    using table_shows_data [of ?tb "[]" 20 0 "JArr [JNull, JObj [(''id'', JNum 7)]]"]
    by (auto simp: table_new_def Let_def dest!: arg_cong [where f = length])
qed

text \<open>Property C2. In every state a drawn table can reach, by data, selections, edits and the answers to
  edits, its collection and the TAFFY collection hold the same records, it has one row for each of
  them (and one for an empty collection), rows and records carry their positions, and a cell under
  edit belongs to a record.\<close>

theorem table_rows_numbered:
  fixes tb0 tb :: "'o citable"
  assumes "list_all wf_val (splat (get_prop opts ''collection''))"
    and "table_draw h now (table_new r opts cols methods) = Inr (tb0, ev)" "(table_step call)\<^sup>*\<^sup>* tb0 tb"
  shows "\<exists>rows data. tb_rows tb = Some rows \<and> tb_data tb = Some data \<and> TOb data = tb_collection tb \<and>
           map tr_index rows = (if tb_collection tb = [] then [None] else map Some [0..<length (tb_collection tb)]) \<and>
           (\<forall>i < length (tb_collection tb). \<forall>p. tb_collection tb ! i = JObj p \<longrightarrow> get_prop p ''__rowIndex'' = JNum (of_nat i)) \<and>
           (\<forall>e. tb_edit tb = Some e \<longrightarrow> ed_live e \<longrightarrow> ed_row e < length (tb_collection tb))"
proof -
  have "table_ok tb" using tables.reachable_inv [of tb0 call tb] assms by blast
  then show ?thesis by (auto simp: table_ok_def frame_ok_def record_numbers_def)
qed

text \<open>A table of one editable column, with one record.\<close>

definition sample_editor :: editor where
  "sample_editor = \<lparr>edt_config = [(''name'', JStr ''note'')], edt_if = None\<rparr>"

definition sample_column :: column where
  "sample_column = column_new [(''property'', JStr ''note'')] None (Some sample_editor)"

definition sample_table :: "nat citable" where
  "sample_table = table_new (\<lambda>_ _. False) [(''collection'', JArr [JObj [(''note'', JStr ''a & b'')]])]
     [sample_column] [(''put'', UrlOnly ''/notes'')]"

lemma sample_column_facts:
  "co_renderer sample_column = None" "co_editor sample_column = Some sample_editor"
  "cget ''truncateAfter'' sample_column = JNull" "cget ''dontEncodeEntityChars'' sample_column = JUndef"
  "cget ''property'' sample_column = JStr ''note''"
  by (simp add: sample_column_def column_new_def)
    (simp_all add: sample_column_def column_option get_prop_def, simp add: column_new_def)

lemma sample_table_draw:
  "\<exists>tb ev. table_draw 20 0 sample_table = Inr (tb, ev) \<and> list_all wf_val (splat (JArr [JObj [(''note'', JStr ''a & b'')]])) \<and>
     tb_edit tb = None \<and> tb_collection tb = [JObj [(''note'', JStr ''a & b''), (''__rowIndex'', JNum 0)]] \<and>
     (\<exists>tr td c. tb_rows tb = Some [tr] \<and> tr_cells tr = [td] \<and> td_editable td \<and> tb_columns tb = [c] \<and> co_editor c = Some sample_editor)"
proof -
  let ?t = "sample_table\<lparr>tb_rows := Some []\<rparr>"
  let ?rs = "[JObj [(''note'', JStr ''a & b'')]]"
  have coll: "arr_clean (splat (JArr ?rs)) = ?rs" by (simp add: arr_clean_def splat_def moo_defined_def js_eq_def)
  have t: "tb_paginated ?t = False" "tb_collection sample_table = ?rs" "tb_edit sample_table = None" "tb_rows sample_table = None"
    using coll by (simp_all add: sample_table_def table_new_def Let_def get_prop_def)
  have "table_draw 20 0 sample_table = table_render 20 0 (?t\<lparr>tb_collection := ?rs\<rparr>)"
    using t coll by (simp add: table_draw_def table_setCollection_def)
  moreover obtain rows cols where dr: "draw_rows 20 (tb_selectable (?t\<lparr>tb_collection := ?rs\<rparr>)) (length (tb_collection (?t\<lparr>tb_collection := ?rs\<rparr>))) 0
      (tb_columns (?t\<lparr>tb_collection := ?rs\<rparr>)) (numbered (tb_collection (?t\<lparr>tb_collection := ?rs\<rparr>))) = (rows, cols)"
    by fastforce
  moreover have "tb_columns sample_table = [sample_column]" by (simp add: sample_table_def table_new_def Let_def)
  then have "\<exists>tr td c. rows = [tr] \<and> tr_cells tr = [td] \<and> td_editable td \<and> cols = [c] \<and> co_editor c = Some sample_editor"
    using dr sample_column_facts(2)
    by (auto simp: numbered_def table_cell_def cell_editable_def Let_def) (simp add: sample_editor_def)
  ultimately show ?thesis
    using table_render_eq [of "?t\<lparr>tb_collection := ?rs\<rparr>" "[]" 20 rows cols 0] t
    by (simp add: numbered_def put_index_def wf_val_def splat_def)
qed

text \<open>The configuration of an editor without a type of its own is that of a text field.\<close>

lemma edit_config_text:
  assumes "get_prop (edt_config e) ''type'' = JUndef"
  shows "get_prop (edit_config e v) ''type'' = JStr ''text''"
    "get_prop (edit_config e v) ''value'' = JStr (withEntityCharsDecoded v)"
  using assms by (simp_all add: edit_config_def Let_def js_or_def js_eq_def to_prim_def)

text \<open>The edit of its only cell.\<close>

lemma sample_table_edit:
  assumes "table_draw 20 0 sample_table = Inr (tb, ev)"
  shows "\<exists>tb1 e rows. onEditCell (\<lambda>_. []) 0 0 tb = Inr tb1 \<and> tb_edit tb1 = Some e \<and> ed_live e \<and> ed_row e = 0 \<and>
     tb_rows tb1 = Some rows \<and> tb_collection tb1 = [JObj [(''note'', JStr ''a & b''), (''__rowIndex'', JNum 0)]]"
proof -
  obtain tr td c where tb: "tb_rows tb = Some [tr]" "tr_cells tr = [td]" "td_editable td" "tb_columns tb = [c]"
      "co_editor c = Some sample_editor" "tb_edit tb = None"
      "tb_collection tb = [JObj [(''note'', JStr ''a & b''), (''__rowIndex'', JNum 0)]]"
    using sample_table_draw assms by auto
  let ?v = "edit_value sample_editor c (arr_get (tb_collection tb) 0) td"
  have "get_prop (edt_config sample_editor) ''type'' = JUndef" by (simp add: sample_editor_def get_prop_def)
  from edit_config_text [OF this, of ?v] obtain f evs where "field_setValue (get_prop (edit_config sample_editor ?v) ''value'')
      (draw_field (\<lambda>_. []) (field_new (edit_config sample_editor ?v))) = Inr (f, evs)"
    using edited_text [of "edit_config sample_editor ?v" "''text''"] by fastforce
  then show ?thesis
    using tb by (simp add: onEditCell_def stopEditing_def Let_def)
qed

theorem table_rows_numbered_witness:
  "\<exists>tb ev rows. table_draw 20 0 sample_table = Inr (tb, ev) \<and> tb_rows tb = Some rows \<and> map tr_index rows = [Some 0]"
proof -
  obtain tb ev where tb: "table_draw 20 0 sample_table = Inr (tb, ev)" "list_all wf_val (splat (JArr [JObj [(''note'', JStr ''a & b'')]]))"
      "tb_collection tb = [JObj [(''note'', JStr ''a & b''), (''__rowIndex'', JNum 0)]]"
    using sample_table_draw by blast
  then show ?thesis
    using table_rows_numbered [of "[(''collection'', JArr [JObj [(''note'', JStr ''a & b'')]])]" 20 0 "\<lambda>_ _. False"
        "[sample_column]" "[(''put'', UrlOnly ''/notes'')]" tb ev "\<lambda>_. []" tb]
    by (auto simp: sample_table_def get_prop_def)
qed

text \<open>Property C26. The answer to an edit ends the edit, merges the record of the answer into the record of
  the edited row, in the table's collection, and draws that row, and no other, from the answer.\<close>

theorem table_edit_posted:
  fixes tb0 tb :: "'o citable"
  assumes "list_all wf_val (splat (get_prop opts ''collection''))"
    and "table_draw h now (table_new r opts cols methods) = Inr (tb0, ev)" "(table_step call)\<^sup>*\<^sup>* tb0 tb"
    and "tb_edit tb = Some e" "ed_live e" "tb_rows tb = Some rows" "tb_collection tb ! ed_row e = JObj q"
    and "distinct (map fst p)"
  shows "\<exists>tb' rows'. table_onPostedData height (JObj p) tb = Inr tb' \<and> tb_edit tb' = None \<and>
           tb_collection tb' = (tb_collection tb)[ed_row e := mergeObj (JObj q) (put_index (ed_row e) (JObj p))] \<and>
           tb_rows tb' = Some rows' \<and>
           map (\<lambda>tr. map td_content (tr_cells tr)) rows' =
             (map (\<lambda>tr. map td_content (tr_cells tr)) rows)
               [ed_row e := map (\<lambda>c. shows_cell c (put_index (ed_row e) (JObj p))) (tb_columns tb)]"
proof -
  have "table_ok tb" using tables.reachable_inv [of tb0 call tb] assms(1-3) by blast
  from posted_eq [OF this assms(4-8), of height] show ?thesis by (auto simp: contents_def)
qed

theorem table_edit_posted_witness:
  "\<exists>tb ev tb1 tb'. table_draw 20 0 sample_table = Inr (tb, ev) \<and> onEditCell (\<lambda>_. []) 0 0 tb = Inr tb1 \<and>
     table_onPostedData 20 (JObj [(''note'', JStr ''c'')]) tb1 = Inr tb' \<and> tb_edit tb' = None"
proof -
  obtain tb ev where tb: "table_draw 20 0 sample_table = Inr (tb, ev)"
      "list_all wf_val (splat (JArr [JObj [(''note'', JStr ''a & b'')]]))"
    using sample_table_draw by blast
  then obtain tb1 e rows where ed: "onEditCell (\<lambda>_. []) 0 0 tb = Inr tb1" "tb_edit tb1 = Some e" "ed_live e" "ed_row e = 0"
      "tb_rows tb1 = Some rows" "tb_collection tb1 = [JObj [(''note'', JStr ''a & b''), (''__rowIndex'', JNum 0)]]"
    using sample_table_edit by blast
  have "(table_step (\<lambda>_. []))\<^sup>*\<^sup>* tb tb1" using ts_edit [OF ed(1)] by (rule r_into_rtranclp)
  then show ?thesis
    using table_edit_posted [of "[(''collection'', JArr [JObj [(''note'', JStr ''a & b'')]])]" 20 0 "\<lambda>_ _. False"
        "[sample_column]" "[(''put'', UrlOnly ''/notes'')]" tb ev "\<lambda>_. []" tb1 e rows
        "[(''note'', JStr ''a & b''), (''__rowIndex'', JNum 0)]" "[(''note'', JStr ''c'')]" 20] tb ed
    by (auto simp: sample_table_def get_prop_def)
qed




text \<open>A table with a paginator loses the collection it was configured with when it is drawn: it
  is drawn without records.\<close>

lemma paginated_table_starts_empty:
  assumes "truthy (get_prop opts ''paginator'')"
  shows "\<exists>tb ev rows. table_draw h now (table_new r opts cols methods :: 'o citable) = Inr (tb, ev) \<and> tb_collection tb = [] \<and>
           tb_rows tb = Some rows \<and> map (\<lambda>tr. tr_index tr) rows = [None]"
proof -
  let ?t = "(table_new r opts cols methods :: 'o citable)\<lparr>tb_rows := Some [], tb_collection := []\<rparr>"
  have "table_draw h now (table_new r opts cols methods :: 'o citable) = table_render h now ?t"
    using assms
    by (simp add: table_draw_def table_setCollection_def table_new_def Let_def elem_prop_name is_digit_def splat_def arr_clean_def)
  then show ?thesis
    using table_render_eq [of ?t "[]" h "[]" "tb_columns ?t" now] by (simp add: numbered_def no_data_row_def)
qed

text \<open>The option \<open>dontEncodeEntityChars\<close> of a column has no effect: the constructor knows it by another
  name.\<close>

lemma dontEncode_ignored:
  "\<not> truthy (get_prop cfg ''truncateAfter'') \<Longrightarrow>
   cell_html (column_new cfg rd edt) v = withEntityCharsEncoded (to_string (js_or v (JStr [])))"
  by (auto simp: cell_html_def column_option truncate_html_def Let_def)

text \<open>A text is cut after it is encoded, possibly inside an entity.\<close>

lemma truncate_cuts_entity:
  "cell_html (column_new [(''truncateAfter'', JNum 3)] None None) (JStr ''a&b'') = ''a&a...''"
proof -
  have "withEntityCharsEncoded ''a&b'' = ''a&amp;b''" by (simp add: encoded_eq entity_map_def)
  moreover have "parseInt (num_to_string 3) = Some 3"
    using parseInt_nat_digits [of 3] by (simp add: num_to_string_def)
  ultimately show ?thesis
    by (simp add: cell_html_def column_option truncate_html_def js_or_def get_prop_def)
qed

end
