(* ===== verification/CI_Dialogs.thy ===== *)
theory CI_Dialogs
  imports CI_View CI_Style
begin

section \<open>Modal layers, sheets and floating panels\<close>

text \<open>
  \<open>CIModalLayer\<close>, \<open>CISheet\<close> and \<open>CIHud\<close>: what is in the document above the page, in which order, and
  what the animations do when they end. An animation that was started and has not ended is a value in
  a list; any of them may end next, and what follows it in the code runs then. The buttons of a sheet
  and the place where a panel comes to rest are functions of the configuration.
\<close>

subsection \<open>State\<close>

text \<open>The stylesheet gives layers and panels the same \<open>z-index\<close>, to which a running number is added.\<close>

definition css_z :: nat where
  "css_z = 200"

datatype anim =
    LayerIn string
  | SheetIn string
  | SheetOut string nat
  | LayerOut nat
  | HudIn string
  | HudOut string nat

text \<open>A sheet has the layer it was last shown with and, while its element is in the document, the
  element and the layer that holds it.\<close>

record sheet =
  sh_keep :: bool
  sh_layer :: "nat option"
  sh_in :: "(nat \<times> nat) option"
  sh_display :: bool

record dialogs =
  d_next :: nat
  d_z :: nat
  d_layers :: "(nat \<times> nat) list"
  d_huds :: "(string \<times> nat) list"
  d_sheets :: "string \<Rightarrow> sheet"
  d_run :: "anim list"
  d_heard :: "(string \<times> string) list"

definition no_dialogs :: "(string \<Rightarrow> bool) \<Rightarrow> dialogs" where
  "no_dialogs keep = \<lparr>d_next = 0, d_z = 1, d_layers = [], d_huds = [],
     d_sheets = (\<lambda>s. \<lparr>sh_keep = keep s, sh_layer = None, sh_in = None, sh_display = False\<rparr>), d_run = [], d_heard = []\<rparr>"

definition put_sheet :: "string \<Rightarrow> (sheet \<Rightarrow> sheet) \<Rightarrow> dialogs \<Rightarrow> dialogs" where
  "put_sheet s f st = st\<lparr>d_sheets := (d_sheets st)(s := f (d_sheets st s))\<rparr>"

definition animate :: "anim \<Rightarrow> dialogs \<Rightarrow> dialogs" where
  "animate a st = st\<lparr>d_run := d_run st @ [a]\<rparr>"

definition hear :: "string \<Rightarrow> string list \<Rightarrow> dialogs \<Rightarrow> dialogs" where
  "hear x evs st = st\<lparr>d_heard := d_heard st @ map (Pair x) evs\<rparr>"

subsection \<open>Layers\<close>

text \<open>\<open>CIModalLayer.show\<close> of a new layer: its element is put at the top of the body.\<close>

definition layer_show :: "nat \<Rightarrow> dialogs \<Rightarrow> dialogs" where
  "layer_show l st = st\<lparr>d_layers := (l, css_z + d_z st) # d_layers st, d_z := Suc (d_z st)\<rparr>"

text \<open>\<open>CIModalLayer.hide\<close>: an animation of an element that does not exist throws.\<close>

definition layer_hide :: "nat \<Rightarrow> dialogs \<Rightarrow> js_error + dialogs" where
  "layer_hide l st = (if l \<in> fst ` set (d_layers st) then Inr (animate (LayerOut l) st) else Inl TypeError)"

text \<open>Destroying a layer destroys the sheets it holds.\<close>

definition layer_destroy :: "nat \<Rightarrow> dialogs \<Rightarrow> dialogs" where
  "layer_destroy l st =
     st\<lparr>d_layers := filter (\<lambda>(l', _). l' \<noteq> l) (d_layers st),
        d_sheets := (\<lambda>s. let sh = d_sheets st s in
          case sh_in sh of Some (e, l') \<Rightarrow> if l' = l then sh\<lparr>sh_in := None\<rparr> else sh | None \<Rightarrow> sh)\<rparr>"

definition nextZIndex :: "dialogs \<Rightarrow> nat \<times> dialogs" where
  "nextZIndex st = (d_z st, st\<lparr>d_z := Suc (d_z st)\<rparr>)"

subsection \<open>Sheets\<close>

definition sheet_show :: "string \<Rightarrow> dialogs \<Rightarrow> dialogs" where
  "sheet_show s st =
     (let l = d_next st
      in animate (LayerIn s) (layer_show l (put_sheet s (\<lambda>sh. sh\<lparr>sh_layer := Some l\<rparr>) (st\<lparr>d_next := Suc l\<rparr>))))"

definition sheet_hide :: "string \<Rightarrow> dialogs \<Rightarrow> dialogs" where
  "sheet_hide s st = (case sh_in (d_sheets st s) of None \<Rightarrow> st | Some (e, _) \<Rightarrow> animate (SheetOut s e) st)"

text \<open>The layer has faded in: the sheet is drawn in it, unless it is in the document already.\<close>

definition sheet_enter :: "string \<Rightarrow> dialogs \<Rightarrow> js_error option \<times> dialogs" where
  "sheet_enter s st =
     (let sh = d_sheets st s;
          slide = (\<lambda>st. (None, animate (SheetIn s) (put_sheet s (\<lambda>sh. sh\<lparr>sh_display := True\<rparr>) st)))
      in case sh_in sh of
           Some _ \<Rightarrow> slide st
         | None \<Rightarrow>
             (case sh_layer sh of
                None \<Rightarrow> (Some TypeError, st)
              | Some l \<Rightarrow>
                  if l \<in> fst ` set (d_layers st)
                  then slide (hear s [''AddedToDom''] (put_sheet s (\<lambda>sh. sh\<lparr>sh_in := Some (d_next st, l)\<rparr>) (st\<lparr>d_next := Suc (d_next st)\<rparr>)))
                  else (Some TypeError, st)))"

text \<open>The sheet has slid out: its element is destroyed or hidden, then the layer is hidden.\<close>

definition sheet_leave :: "string \<Rightarrow> nat \<Rightarrow> dialogs \<Rightarrow> js_error option \<times> dialogs" where
  "sheet_leave s e st =
     (let gone = (\<lambda>sh. if sh_keep sh then sh\<lparr>sh_display := False\<rparr> else sh\<lparr>sh_in := None\<rparr>);
          st1 = (if map_option fst (sh_in (d_sheets st s)) = Some e then put_sheet s gone st else st)
      in case sh_layer (d_sheets st1 s) of
           None \<Rightarrow> (Some TypeError, st1)
         | Some l \<Rightarrow>
             (case layer_hide l st1 of
                Inl err \<Rightarrow> (Some err, st1)
              | Inr st2 \<Rightarrow> (None, hear s [''Hidden''] st2)))"

subsection \<open>Floating panels\<close>

text \<open>A panel that is in the document is not shown again; the number it got identifies its element.\<close>

definition hud_show :: "string \<Rightarrow> dialogs \<Rightarrow> dialogs" where
  "hud_show h st =
     (if h \<in> fst ` set (d_huds st) then st
      else case nextZIndex st of (z, st1) \<Rightarrow>
        animate (HudIn h) (hear h [''AddedToDom''] (st1\<lparr>d_huds := (h, css_z + z) # d_huds st1\<rparr>)))"

definition hud_hide :: "string \<Rightarrow> dialogs \<Rightarrow> dialogs" where
  "hud_hide h st = (case map_of (d_huds st) h of None \<Rightarrow> st | Some z \<Rightarrow> animate (HudOut h z) st)"

definition hud_leave :: "string \<Rightarrow> nat \<Rightarrow> dialogs \<Rightarrow> dialogs" where
  "hud_leave h z st =
     hear h [''RemovedFromDom'', ''Hidden'']
       ((hear h [''Hiding'', ''RemovingFromDom''] st)\<lparr>d_huds := filter (\<lambda>x. x \<noteq> (h, z)) (d_huds st)\<rparr>)"

subsection \<open>The buttons of a sheet\<close>

text \<open>A button is given as a component or as a configuration, which becomes a component; without a handler
  for clicks of its own it hides the sheet.\<close>

record sheet_button =
  sb_object :: bool
  sb_label :: string
  sb_clicked :: "string option"

datatype sheet_buttons =
    OneButton sheet_button
  | ButtonList "sheet_button list"
  | ButtonHash "sheet_button list" "sheet_button list" "sheet_button option"

definition sheet_buttons_of :: "sheet_buttons option \<Rightarrow> sheet_buttons" where
  "sheet_buttons_of bs =
     (case bs of None \<Rightarrow> ButtonHash [] [] (Some \<lparr>sb_object = False, sb_label = ''OK'', sb_clicked = None\<rparr>) | Some b \<Rightarrow> b)"

definition bind_button :: "sheet_button \<Rightarrow> sheet_button" where
  "bind_button b =
     (if sb_object b then b
      else b\<lparr>sb_object := True, sb_clicked := Some (case sb_clicked b of None \<Rightarrow> ''hide'' | Some c \<Rightarrow> c)\<rparr>)"

text \<open>The destructive buttons, and the others with the class names of their wrappers; the default button is
  the last.\<close>

definition sheet_layout :: "sheet_buttons \<Rightarrow> sheet_button list \<times> (string \<times> sheet_button) list" where
  "sheet_layout bs =
     (let wrap = Pair ''CISheetButtonWrapper''
      in case bs of
           OneButton b \<Rightarrow> ([], if sb_label b = [] then [] else [wrap (bind_button b)])
         | ButtonList other \<Rightarrow> ([], map (wrap \<circ> bind_button) other)
         | ButtonHash destructive other dflt \<Rightarrow>
             (map bind_button destructive,
              map (wrap \<circ> bind_button) other @
                (case dflt of None \<Rightarrow> [] | Some b \<Rightarrow> [(''CISheetButtonWrapper CISheetDefaultButton'', bind_button b)])))"

definition prompt_buttons :: "sheet_button \<Rightarrow> sheet_button option \<Rightarrow> sheet_buttons" where
  "prompt_buttons affirm cancel =
     ButtonHash [] [case cancel of None \<Rightarrow> \<lparr>sb_object = False, sb_label = ''Cancel'', sb_clicked = None\<rparr> | Some c \<Rightarrow> c] (Some affirm)"

definition alert_buttons :: sheet_buttons where
  "alert_buttons = ButtonHash [] [] (Some \<lparr>sb_object = False, sb_label = ''OK'', sb_clicked = None\<rparr>)"

lemma bind_button_clicks:
  "sb_object (bind_button b) \<and> (\<not> sb_object b \<longrightarrow> sb_clicked (bind_button b) \<noteq> None) \<and> (sb_clicked b = None \<longrightarrow> \<not> sb_object b \<longrightarrow> sb_clicked (bind_button b) = Some ''hide'')"
  by (simp add: bind_button_def split: option.splits)

lemma prompt_layout:
  "sheet_layout (prompt_buttons affirm (Some cancel)) =
     ([], [(''CISheetButtonWrapper'', bind_button cancel), (''CISheetButtonWrapper CISheetDefaultButton'', bind_button affirm)])"
  by (simp add: sheet_layout_def prompt_buttons_def Let_def)

subsection \<open>Where a panel comes to rest\<close>

text \<open>The styles given in the configuration are stored over the offset, and the panel moves by the
  distances from there.\<close>

definition hud_offset :: "props option \<Rightarrow> (jsval \<Rightarrow> rat \<times> rat) \<Rightarrow> props \<Rightarrow> props" where
  "hud_offset offset position css = moo_extend (makeOffsettable offset position) css"

definition hud_rests :: "props \<Rightarrow> jsval \<times> jsval" where
  "hud_rests styles =
     (js_plus (get_prop styles ''left'') (get_prop styles ''dx''), js_plus (get_prop styles ''top'') (get_prop styles ''dy''))"

lemma hud_rests_beside:
  assumes "position el = (x, y)" "truthy el"
  shows "hud_rests (hud_offset (Some [(''from'', el), (''dx'', JNum dx), (''dy'', JNum dy)]) position []) =
           (JNum (x + dx), JNum (y + dy))"
  using assms
  by (simp add: hud_rests_def hud_offset_def makeOffsettable_def moo_extend_def get_prop_def Let_def js_plus_def to_prim_def to_number_def)

subsection \<open>The end of an animation\<close>

fun finish :: "anim \<Rightarrow> dialogs \<Rightarrow> js_error option \<times> dialogs" where
  "finish (LayerIn s) st = sheet_enter s st"
| "finish (SheetIn s) st = (None, hear s [''Shown''] st)"
| "finish (SheetOut s e) st = sheet_leave s e st"
| "finish (LayerOut l) st = (None, layer_destroy l st)"
| "finish (HudIn h) st = (None, hear h [''Shown''] st)"
| "finish (HudOut h z) st = (None, hud_leave h z st)"

text \<open>The user and the program show and hide; one of the running animations ends.\<close>

inductive dialog_step :: "dialogs \<Rightarrow> dialogs \<Rightarrow> bool" where
  ds_show: "dialog_step st (sheet_show s st)"
| ds_hide: "dialog_step st (sheet_hide s st)"
| ds_hud_show: "dialog_step st (hud_show h st)"
| ds_hud_hide: "dialog_step st (hud_hide h st)"
| ds_finish: "d_run st = xs @ a # ys \<Longrightarrow> dialog_step st (snd (finish a (st\<lparr>d_run := xs @ ys\<rparr>)))"

text \<open>Nothing more is shown or hidden, and the animations end in the order in which they were started.
  An animation is followed by at most one that is followed by none.\<close>

fun weight :: "anim \<Rightarrow> nat" where
  "weight (LayerIn s) = 2"
| "weight (SheetOut s e) = 2"
| "weight _ = 1"

definition load :: "dialogs \<Rightarrow> nat" where
  "load st = sum_list (map weight (d_run st))"

lemmas dialog_defs = put_sheet_def animate_def hear_def layer_show_def layer_hide_def layer_destroy_def
  nextZIndex_def sheet_enter_def sheet_leave_def hud_leave_def

lemma finish_load: "load (snd (finish a st)) + 1 \<le> load st + weight a"
  by (cases a) (auto simp: dialog_defs load_def Let_def split: option.splits sum.splits if_splits)

function settle :: "dialogs \<Rightarrow> dialogs" where
  "settle st = (case d_run st of [] \<Rightarrow> st | a # as \<Rightarrow> settle (snd (finish a (st\<lparr>d_run := as\<rparr>))))"
  by pat_completeness auto
termination
proof (relation "measure load")
  fix st :: dialogs and a as
  assume "d_run st = a # as"
  then show "(snd (finish a (st\<lparr>d_run := as\<rparr>)), st) \<in> measure load"
    using finish_load [of a "st\<lparr>d_run := as\<rparr>"] by (simp add: load_def)
qed simp

declare settle.simps [simp del]

lemma settle_Nil [simp]: "d_run st = [] \<Longrightarrow> settle st = st"
  by (subst settle.simps) simp

lemma settle_Cons: "d_run st = a # as \<Longrightarrow> settle st = settle (snd (finish a (st\<lparr>d_run := as\<rparr>)))"
  by (subst settle.simps) simp

lemma settle_steps: "dialog_step\<^sup>*\<^sup>* st (settle st)"
proof (induction st rule: settle.induct)
  case (1 st)
  show ?case
  proof (cases "d_run st")
    case (Cons a as)
    then have "dialog_step st (snd (finish a (st\<lparr>d_run := as\<rparr>)))"
      using ds_finish [of st "[]" a as] by simp
    with 1 Cons show ?thesis by (auto simp: settle_Cons intro: converse_rtranclp_into_rtranclp)
  qed simp
qed

lemma settle_rests: "d_run (settle st) = []"
proof (induction st rule: settle.induct)
  case (1 st)
  then show ?case by (cases "d_run st") (auto simp: settle_Cons)
qed

subsection \<open>What is in the document\<close>

definition heights :: "dialogs \<Rightarrow> nat list" where
  "heights st = map snd (d_layers st) @ map snd (d_huds st)"

definition stack_ok :: "dialogs \<Rightarrow> bool" where
  "stack_ok st = (distinct (heights st) \<and> (\<forall>z\<in>set (heights st). z < css_z + d_z st))"

definition layers_ok :: "dialogs \<Rightarrow> bool" where
  "layers_ok st = (distinct (map fst (d_layers st)) \<and> (\<forall>l\<in>fst ` set (d_layers st). l < d_next st))"

definition sheet_ok :: "nat \<Rightarrow> nat set \<Rightarrow> sheet \<Rightarrow> bool" where
  "sheet_ok n ls sh =
     ((\<forall>l. sh_layer sh = Some l \<longrightarrow> l < n) \<and> (\<forall>e l. sh_in sh = Some (e, l) \<longrightarrow> e < n \<and> l \<in> ls))"

definition dialogs_ok :: "dialogs \<Rightarrow> bool" where
  "dialogs_ok st =
     (stack_ok st \<and> layers_ok st \<and> distinct (map fst (d_huds st)) \<and>
      (\<forall>s. sheet_ok (d_next st) (fst ` set (d_layers st)) (d_sheets st s)))"

lemmas ok_defs = dialogs_ok_def stack_ok_def layers_ok_def heights_def

lemma ok_run [simp]: "dialogs_ok (st\<lparr>d_run := as\<rparr>) = dialogs_ok st"
  by (simp add: ok_defs)

lemma ok_animate [simp]: "dialogs_ok (animate a st) = dialogs_ok st"
  by (simp add: animate_def)

lemma ok_hear [simp]: "dialogs_ok (hear x evs st) = dialogs_ok st"
  by (simp add: hear_def ok_defs)

lemma sheet_ok_mono: "sheet_ok n ls sh \<Longrightarrow> n \<le> n' \<Longrightarrow> ls \<subseteq> ls' \<Longrightarrow> sheet_ok n' ls' sh"
  by (fastforce simp: sheet_ok_def)

lemma ok_put_sheet:
  "dialogs_ok st \<Longrightarrow> sheet_ok (d_next st) (fst ` set (d_layers st)) (f (d_sheets st s)) \<Longrightarrow> dialogs_ok (put_sheet s f st)"
  by (simp add: ok_defs put_sheet_def)

lemma ok_next: "dialogs_ok st \<Longrightarrow> dialogs_ok (st\<lparr>d_next := Suc (d_next st)\<rparr>)"
  by (auto simp: ok_defs less_SucI intro: sheet_ok_mono)

lemma ok_sheet [simp]: "dialogs_ok st \<Longrightarrow> sheet_ok (d_next st) (fst ` set (d_layers st)) (d_sheets st s)"
  by (simp add: dialogs_ok_def)

lemma ok_layer_show:
  assumes "dialogs_ok st" "l \<notin> fst ` set (d_layers st)" "l < d_next st"
  shows "dialogs_ok (layer_show l st)"
proof -
  have "stack_ok (layer_show l st)"
    using assms(1) by (auto simp: ok_defs layer_show_def less_SucI)
  moreover have "layers_ok (layer_show l st)"
    using assms by (auto simp: ok_defs layer_show_def)
  ultimately show ?thesis
    using assms(1) by (auto simp: dialogs_ok_def layer_show_def intro: sheet_ok_mono)
qed

lemma ok_sheet_show: "dialogs_ok st \<Longrightarrow> dialogs_ok (sheet_show s st)"
proof -
  assume ok: "dialogs_ok st"
  let ?st = "put_sheet s (\<lambda>sh. sh\<lparr>sh_layer := Some (d_next st)\<rparr>) (st\<lparr>d_next := Suc (d_next st)\<rparr>)"
  have "sheet_ok (Suc (d_next st)) (fst ` set (d_layers st)) (d_sheets st s)"
    using ok_sheet [OF ok, of s] by (rule sheet_ok_mono) auto
  then have "dialogs_ok ?st"
    using ok by (intro ok_put_sheet ok_next) (auto simp: sheet_ok_def)
  then have "dialogs_ok (layer_show (d_next st) ?st)"
    by (rule ok_layer_show) (use ok in \<open>auto simp: put_sheet_def ok_defs\<close>)
  then show ?thesis by (simp add: sheet_show_def Let_def)
qed

lemma ok_sheet_hide: "dialogs_ok st \<Longrightarrow> dialogs_ok (sheet_hide s st)"
  by (auto simp: sheet_hide_def split: option.splits)

lemma ok_hud_show: "dialogs_ok st \<Longrightarrow> dialogs_ok (hud_show h st)"
proof -
  assume ok: "dialogs_ok st"
  let ?st = "st\<lparr>d_z := Suc (d_z st), d_huds := (h, css_z + d_z st) # d_huds st\<rparr>"
  have "stack_ok ?st" using ok by (auto simp: ok_defs less_SucI)
  then have "dialogs_ok ?st" if "h \<notin> fst ` set (d_huds st)"
    using ok that by (simp add: dialogs_ok_def layers_ok_def)
  with ok show ?thesis by (simp add: hud_show_def nextZIndex_def)
qed

lemma ok_hud_hide: "dialogs_ok st \<Longrightarrow> dialogs_ok (hud_hide h st)"
  by (auto simp: hud_hide_def split: option.splits)

lemma ok_put_display: "dialogs_ok st \<Longrightarrow> dialogs_ok (put_sheet s (\<lambda>sh. sh\<lparr>sh_display := b\<rparr>) st)"
  using ok_sheet [of st s] by (auto intro!: ok_put_sheet simp: sheet_ok_def)

lemma ok_sheet_enter: "dialogs_ok st \<Longrightarrow> dialogs_ok (snd (sheet_enter s st))"
proof -
  assume ok: "dialogs_ok st"
  have "dialogs_ok (put_sheet s (\<lambda>sh. sh\<lparr>sh_in := Some (d_next st, l)\<rparr>) (st\<lparr>d_next := Suc (d_next st)\<rparr>))"
    if "l \<in> fst ` set (d_layers st)" for l
    using ok that ok_sheet [OF ok, of s] by (intro ok_put_sheet ok_next) (auto simp: sheet_ok_def less_SucI)
  then show ?thesis
    using ok by (auto simp: sheet_enter_def Let_def ok_put_display split: option.splits)
qed

lemma ok_sheet_leave: "dialogs_ok st \<Longrightarrow> dialogs_ok (snd (sheet_leave s e st))"
proof -
  assume ok: "dialogs_ok st"
  then have "dialogs_ok (put_sheet s (\<lambda>sh. if sh_keep sh then sh\<lparr>sh_display := False\<rparr> else sh\<lparr>sh_in := None\<rparr>) st)"
    using ok_sheet [OF ok, of s] by (intro ok_put_sheet) (auto simp: sheet_ok_def)
  with ok show ?thesis
    by (auto simp: sheet_leave_def Let_def layer_hide_def split: option.splits sum.splits)
qed

lemma distinct_filter_map: "distinct (map f xs) \<Longrightarrow> distinct (map f (filter P xs))"
  by (simp add: distinct_map_filter)

lemma stack_filter:
  assumes "stack_ok st" "d_layers st' = filter P (d_layers st)" "d_huds st' = filter Q (d_huds st)" "d_z st' = d_z st"
  shows "stack_ok st'"
proof -
  have sub: "set (map snd (filter P xs)) \<subseteq> set (map snd xs)" for P and xs :: "('k \<times> nat) list" by auto
  have "set (heights st') \<subseteq> set (heights st)" using assms(2,3) sub by (auto simp: heights_def)
  moreover have "set (map snd (d_layers st')) \<inter> set (map snd (d_huds st')) = {}"
  proof -
    have "set (map snd (d_layers st)) \<inter> set (map snd (d_huds st)) = {}"
      using assms(1) by (simp add: stack_ok_def heights_def)
    moreover have "set (map snd (d_layers st')) \<subseteq> set (map snd (d_layers st))" "set (map snd (d_huds st')) \<subseteq> set (map snd (d_huds st))"
      unfolding assms(2,3) by (rule sub)+
    ultimately show ?thesis by blast
  qed
  then have "distinct (heights st')"
    using assms(1-3) by (simp add: stack_ok_def heights_def distinct_filter_map)
  ultimately show ?thesis using assms(1,4) by (auto simp: stack_ok_def)
qed

lemma ok_layer_destroy: "dialogs_ok st \<Longrightarrow> dialogs_ok (layer_destroy l st)"
proof -
  assume ok: "dialogs_ok st"
  have "stack_ok (layer_destroy l st)"
    by (rule stack_filter [of st _ "\<lambda>(l', _). l' \<noteq> l" "\<lambda>_. True"]) (use ok in \<open>auto simp: dialogs_ok_def layer_destroy_def\<close>)
  moreover have "layers_ok (layer_destroy l st)"
    using ok by (auto simp: ok_defs layer_destroy_def distinct_filter_map)
  moreover have "sheet_ok (d_next st) (fst ` set (d_layers (layer_destroy l st))) (d_sheets (layer_destroy l st) s)" for s
    using ok_sheet [OF ok, of s]
    by (force simp: sheet_ok_def layer_destroy_def Let_def image_iff split: option.splits if_splits)
  ultimately show ?thesis
    using ok by (simp add: dialogs_ok_def layer_destroy_def)
qed

lemma ok_hud_leave: "dialogs_ok st \<Longrightarrow> dialogs_ok (hud_leave h z st)"
proof -
  assume ok: "dialogs_ok st"
  have "stack_ok (hud_leave h z st)"
    by (rule stack_filter [of st _ "\<lambda>_. True" "\<lambda>x. x \<noteq> (h, z)"]) (use ok in \<open>auto simp: dialogs_ok_def hud_leave_def hear_def\<close>)
  then show ?thesis
    using ok by (simp add: dialogs_ok_def layers_ok_def hud_leave_def hear_def distinct_filter_map)
qed

lemma ok_finish: "dialogs_ok st \<Longrightarrow> dialogs_ok (snd (finish a st))"
  by (cases a) (auto simp: ok_sheet_enter ok_sheet_leave ok_layer_destroy ok_hud_leave)

interpretation dialogs: machine "\<lambda>st. \<exists>keep. st = no_dialogs keep" dialog_step dialogs_ok
proof
  fix s t
  show "dialogs_ok s \<Longrightarrow> dialog_step s t \<Longrightarrow> dialogs_ok t"
    by (erule dialog_step.cases) (auto simp: ok_sheet_show ok_sheet_hide ok_hud_show ok_hud_hide ok_finish)
qed (auto simp: ok_defs sheet_ok_def no_dialogs_def)

subsection \<open>Showing and hiding, with the animations at their end\<close>

lemma show_settled:
  assumes "d_run st = []" "sh_in (d_sheets st s) = None"
  shows "settle (sheet_show s st) =
           st\<lparr>d_next := Suc (Suc (d_next st)), d_z := Suc (d_z st), d_layers := (d_next st, css_z + d_z st) # d_layers st,
              d_sheets := (d_sheets st)(s := (d_sheets st s)\<lparr>sh_layer := Some (d_next st),
                sh_in := Some (Suc (d_next st), d_next st), sh_display := True\<rparr>),
              d_heard := d_heard st @ [(s, ''AddedToDom''), (s, ''Shown'')]\<rparr>"
  using assms by (simp add: sheet_show_def dialog_defs settle_Cons Let_def)

text \<open>A sheet that is in the document is shown under a new layer.\<close>

lemma show_again_settled:
  assumes "d_run st = []" "sh_in (d_sheets st s) = Some x"
  shows "settle (sheet_show s st) =
           st\<lparr>d_next := Suc (d_next st), d_z := Suc (d_z st), d_layers := (d_next st, css_z + d_z st) # d_layers st,
              d_sheets := (d_sheets st)(s := (d_sheets st s)\<lparr>sh_layer := Some (d_next st), sh_display := True\<rparr>),
              d_heard := d_heard st @ [(s, ''Shown'')]\<rparr>"
  using assms by (simp add: sheet_show_def dialog_defs settle_Cons Let_def)

lemma hide_settled:
  assumes "d_run st = []" "sh_in (d_sheets st s) = Some (e, l)" "sh_layer (d_sheets st s) = Some l'" "l' \<in> fst ` set (d_layers st)"
  shows "settle (sheet_hide s st) =
           layer_destroy l' (hear s [''Hidden''] (put_sheet s
             (\<lambda>sh. if sh_keep sh then sh\<lparr>sh_display := False\<rparr> else sh\<lparr>sh_in := None\<rparr>) st))"
proof -
  let ?g = "\<lambda>sh. if sh_keep sh then sh\<lparr>sh_display := False\<rparr> else sh\<lparr>sh_in := None\<rparr>"
  let ?t = "put_sheet s ?g st"
  have "finish (SheetOut s e) st = (None, hear s [''Hidden''] (animate (LayerOut l') ?t))"
    using assms by (simp add: sheet_leave_def Let_def layer_hide_def put_sheet_def)
  moreover have "d_run (sheet_hide s st) = [SheetOut s e]" "(sheet_hide s st)\<lparr>d_run := []\<rparr> = st"
    using assms(1,2) by (simp_all add: sheet_hide_def animate_def)
  ultimately have "settle (sheet_hide s st) = settle (hear s [''Hidden''] (animate (LayerOut l') ?t))"
    by (simp add: settle_Cons)
  also have "d_run (hear s [''Hidden''] (animate (LayerOut l') ?t)) = [LayerOut l']"
    using assms(1) by (simp add: hear_def animate_def put_sheet_def)
  then have "settle (hear s [''Hidden''] (animate (LayerOut l') ?t)) =
      settle (layer_destroy l' ((hear s [''Hidden''] (animate (LayerOut l') ?t))\<lparr>d_run := []\<rparr>))"
    by (simp add: settle_Cons)
  also have "(hear s [''Hidden''] (animate (LayerOut l') ?t))\<lparr>d_run := []\<rparr> = hear s [''Hidden''] ?t"
    using assms(1) by (simp add: hear_def animate_def put_sheet_def)
  finally show ?thesis
    using assms(1) by (simp add: hear_def put_sheet_def layer_destroy_def)
qed

lemma destroy_new_layer:
  assumes "\<forall>l'\<in>fst ` set (d_layers st). l' \<noteq> l"
  shows "filter (\<lambda>(l', _). l' \<noteq> l) (d_layers st) = d_layers st"
  using assms by (auto simp: filter_id_conv)

text \<open>A layer no sheet refers to, whose fading out is not under way, stays.\<close>

definition orphan :: "nat \<Rightarrow> dialogs \<Rightarrow> bool" where
  "orphan l st =
     (l \<in> fst ` set (d_layers st) \<and> l < d_next st \<and> (\<forall>s. sh_layer (d_sheets st s) \<noteq> Some l) \<and> LayerOut l \<notin> set (d_run st))"

lemma orphan_destroy: "orphan l st \<Longrightarrow> l' \<noteq> l \<Longrightarrow> orphan l (layer_destroy l' st)"
  by (force simp: orphan_def layer_destroy_def Let_def split: option.splits)

lemma orphan_finish:
  assumes "orphan l st" "a \<noteq> LayerOut l"
  shows "orphan l (snd (finish a st))"
proof (cases a)
  case (LayerIn s)
  then show ?thesis
    using assms by (auto simp: orphan_def sheet_enter_def Let_def put_sheet_def animate_def hear_def split: option.splits)
next
  case (SheetOut s e)
  then show ?thesis
    using assms
    by (auto simp: orphan_def sheet_leave_def layer_hide_def Let_def put_sheet_def animate_def hear_def
        split: option.splits sum.splits if_splits)
qed (use assms orphan_destroy in \<open>auto simp: orphan_def hear_def hud_leave_def\<close>)

interpretation blocked: machine "orphan l" dialog_step "orphan l" for l
proof
  fix s t
  show "orphan l s \<Longrightarrow> dialog_step s t \<Longrightarrow> orphan l t"
  proof (erule dialog_step.cases)
    fix st xs a ys
    assume st: "orphan l s" "s = st" "t = snd (finish a (st\<lparr>d_run := xs @ ys\<rparr>))" "d_run st = xs @ a # ys"
    then have "orphan l (st\<lparr>d_run := xs @ ys\<rparr>)" "a \<noteq> LayerOut l" by (auto simp: orphan_def)
    with st(3) show "orphan l t" using orphan_finish by blast
  qed (auto simp: orphan_def sheet_show_def sheet_hide_def hud_show_def hud_hide_def Let_def put_sheet_def animate_def
      hear_def layer_show_def nextZIndex_def split: option.splits)
qed

subsection \<open>Properties\<close>

text \<open>Property C10. In every state that showing, hiding and the ends of animations can lead to, no two
  layers or panels share a height, and a layer or a panel that is shown comes above all of
  them.\<close>

theorem shown_on_top:
  assumes "dialog_step\<^sup>*\<^sup>* (no_dialogs keep) st"
  shows "distinct (map snd (d_layers st) @ map snd (d_huds st)) \<and>
         d_layers (sheet_show s st) = (d_next st, css_z + d_z st) # d_layers st \<and>
         (\<forall>z\<in>snd ` set (d_layers st) \<union> snd ` set (d_huds st). z < css_z + d_z st) \<and>
         (h \<notin> fst ` set (d_huds st) \<longrightarrow> d_huds (hud_show h st) = (h, css_z + d_z st) # d_huds st)"
proof -
  have "stack_ok st" using dialogs.reachable_inv assms by (auto simp: dialogs_ok_def)
  then show ?thesis
    by (simp add: stack_ok_def heights_def sheet_show_def hud_show_def dialog_defs Let_def Un_iff ball_Un)
qed

theorem shown_on_top_witness:
  "d_huds (hud_show ''hud'' (sheet_show ''ask'' (no_dialogs (\<lambda>_. False)))) = [(''hud'', 202)]"
proof -
  let ?st = "sheet_show ''ask'' (no_dialogs (\<lambda>_. False))"
  have "dialog_step\<^sup>*\<^sup>* (no_dialogs (\<lambda>_. False)) ?st" by (rule r_into_rtranclp) (rule ds_show)
  from shown_on_top [OF this, of "''s''" "''hud''"] show ?thesis
    by (simp add: sheet_show_def dialog_defs no_dialogs_def Let_def css_z_def)
qed

text \<open>Property C11. A sheet that is shown and hidden, with the animations at their end, leaves the document
  as it was: its layer is gone, the other layers, panels and sheets are as before, and it was heard
  to be drawn, shown and hidden. Its element is gone even when it was to be kept in the document,
  since it is destroyed with the layer that holds it.\<close>

theorem sheet_roundtrip:
  assumes "dialog_step\<^sup>*\<^sup>* (no_dialogs keep) st" "d_run st = []" "sh_in (d_sheets st s) = None"
    and "t = settle (sheet_hide s (settle (sheet_show s st)))"
  shows "d_layers t = d_layers st \<and> d_huds t = d_huds st \<and> d_run t = [] \<and> sh_in (d_sheets t s) = None \<and>
         (\<forall>s'. s' \<noteq> s \<longrightarrow> d_sheets t s' = d_sheets st s') \<and>
         d_heard t = d_heard st @ [(s, ''AddedToDom''), (s, ''Shown''), (s, ''Hidden'')]"
proof -
  have ok: "dialogs_ok st" using dialogs.reachable_inv assms(1) by blast
  then have new: "\<forall>l'\<in>fst ` set (d_layers st). l' \<noteq> d_next st" by (auto simp: ok_defs)
  have other: "sh_in (d_sheets st s') = Some (e, l) \<Longrightarrow> l \<noteq> d_next st" for s' e l
    using ok_sheet [OF ok, of s'] new by (auto simp: sheet_ok_def)
  let ?u = "settle (sheet_show s st)"
  have u: "d_run ?u = []" "sh_in (d_sheets ?u s) = Some (Suc (d_next st), d_next st)" "sh_layer (d_sheets ?u s) = Some (d_next st)"
    "d_next st \<in> fst ` set (d_layers ?u)"
    using assms(2) show_settled [OF assms(2,3)] by simp_all
  from hide_settled [OF u] show ?thesis
    using assms(2-4) other show_settled [OF assms(2,3)] destroy_new_layer [OF new]
    by (auto simp: layer_destroy_def put_sheet_def hear_def Let_def split: option.splits)
qed

theorem sheet_roundtrip_witness:
  "d_layers (settle (sheet_hide ''ask'' (settle (sheet_show ''ask'' (no_dialogs (\<lambda>_. True)))))) = []"
  using sheet_roundtrip [of "\<lambda>_. True" "no_dialogs (\<lambda>_. True)" "''ask''"] by (simp add: no_dialogs_def)

text \<open>Property C36. A sheet that is shown a second time before it was hidden leaves a layer over the page that
  nothing ever removes: hiding takes away the second layer, and the first one is in the document in
  every later state.\<close>

theorem sheet_shown_twice_blocks:
  assumes "dialog_step\<^sup>*\<^sup>* (no_dialogs keep) st" "d_run st = []" "sh_in (d_sheets st s) = None"
    and "dialog_step\<^sup>*\<^sup>* (settle (sheet_show s (settle (sheet_show s st)))) t"
  shows "d_next st \<in> fst ` set (d_layers t)"
proof -
  let ?u = "settle (sheet_show s st)" and ?v = "settle (sheet_show s (settle (sheet_show s st)))"
  have ok: "dialogs_ok st" using dialogs.reachable_inv assms(1) by blast
  have "sh_layer (d_sheets st s') \<noteq> Some (d_next st)" for s'
    using ok_sheet [OF ok, of s'] by (auto simp: sheet_ok_def)
  moreover have "d_run ?u = []" "sh_in (d_sheets ?u s) = Some (Suc (d_next st), d_next st)"
    using assms(2) show_settled [OF assms(2,3)] by simp_all
  ultimately have "orphan (d_next st) ?v"
    using assms(2) show_again_settled [of ?u s] show_settled [OF assms(2,3)] by (simp add: orphan_def)
  then show ?thesis
    using blocked.reachable_inv [of "d_next st" ?v t] assms(4) by (simp add: orphan_def)
qed

theorem sheet_shown_twice_blocks_witness:
  "0 \<in> fst ` set (d_layers (settle (sheet_hide ''ask'' (settle (sheet_show ''ask'' (settle (sheet_show ''ask'' (no_dialogs (\<lambda>_. False)))))))))"
proof -
  let ?v = "settle (sheet_show ''ask'' (settle (sheet_show ''ask'' (no_dialogs (\<lambda>_. False)))))"
  have "dialog_step\<^sup>*\<^sup>* ?v (settle (sheet_hide ''ask'' ?v))"
    using settle_steps ds_hide by (rule converse_rtranclp_into_rtranclp [rotated])
  from sheet_shown_twice_blocks [OF rtranclp.rtrancl_refl _ _ this] show ?thesis by (simp add: no_dialogs_def)
qed

text \<open>Hiding a panel that is in the document removes it once the animation has ended, with its
  four events in the documented order; hiding a panel that is not shown does nothing, and so does
  showing one that is.\<close>

lemma hud_hide_events:
  assumes "dialog_step\<^sup>*\<^sup>* (no_dialogs keep) st" "d_run st = []"
  shows "(h \<in> fst ` set (d_huds st) \<longrightarrow> hud_show h st = st \<and>
            h \<notin> fst ` set (d_huds (settle (hud_hide h st))) \<and> d_layers (settle (hud_hide h st)) = d_layers st \<and>
            d_heard (settle (hud_hide h st)) =
              d_heard st @ [(h, ''Hiding''), (h, ''RemovingFromDom''), (h, ''RemovedFromDom''), (h, ''Hidden'')]) \<and>
         (h \<notin> fst ` set (d_huds st) \<longrightarrow> hud_hide h st = st \<and> d_huds (settle (hud_hide h (settle (hud_show h st)))) = d_huds st)"
proof (cases "h \<in> fst ` set (d_huds st)")
  case True
  then obtain z where z: "map_of (d_huds st) h = Some z"
    by (metis map_of_eq_None_iff not_None_eq)
  have "distinct (map fst (d_huds st))" using dialogs.reachable_inv assms(1) by (auto simp: dialogs_ok_def)
  then have "(h, z') \<in> set (d_huds st) \<Longrightarrow> z' = z" for z'
    using z by (metis map_of_is_SomeI option.inject)
  then have "h \<notin> fst ` set (filter (\<lambda>x. x \<noteq> (h, z)) (d_huds st))" by auto
  with True z assms(2) show ?thesis
    by (simp add: hud_show_def hud_hide_def dialog_defs settle_Cons)
next
  case False
  then have "map_of (d_huds st) h = None" by (simp add: map_of_eq_None_iff)
  moreover have "filter (\<lambda>x. x \<noteq> (h, z)) (d_huds st) = d_huds st" for z using False by (force simp: filter_id_conv)
  ultimately show ?thesis
    using False assms(2) by (simp add: hud_show_def hud_hide_def dialog_defs settle_Cons)
qed

end
