(* ===== verification/CI_Panels.thy ===== *)
theory CI_Panels
  imports CI_View CI_Style
begin

section \<open>Panels, titles, toolbars and the drawing of trees of components\<close>

text \<open>
  \<open>CIText\<close>, \<open>CIPanelBase\<close> with \<open>CIHPanel\<close> and \<open>CIVPanel\<close>, \<open>CIVFlow\<close>, \<open>CIToolbar\<close>, \<open>CITitle\<close> and
  \<open>CICurtainPanel\<close>. A component that holds others is a tree; \<open>CIObject.element\<close> draws a component only
  when no element with its id is in the document, so drawing goes through the document with the list of
  the ids that are in it. A component of another kind is a leaf with the element it draws for itself.
  The drawer of a curtain panel is moved by \<open>Fx.Slide\<close>, whose animations can be cut short.
\<close>

subsection \<open>Trees of components\<close>

text \<open>What a panel knows about the cell of a child.\<close>

record cell_conf =
  cc_valign :: jsval
  cc_styles :: props

record panel_conf =
  pc_id :: string
  pc_class :: string
  pc_styles :: props
  pc_padding :: jsval
  pc_spacing :: jsval
  pc_valign :: jsval

datatype widget =
    Leaf string string props
  | Text string string props jsval
  | Indicator string props props
  | HPanel panel_conf "(cell_conf \<times> widget) list"
  | VPanel panel_conf "(cell_conf \<times> widget) list"
  | VFlow string props props "widget list"
  | Toolbar string string props "widget list"
  | Title string string string props props jsval jsval jsval "widget list"

text \<open>The ids of a tree, a component before what it holds.\<close>

fun widget_ids :: "widget \<Rightarrow> string list" where
  "widget_ids (Leaf i t as) = [i]"
| "widget_ids (Text i cls st txt) = [i]"
| "widget_ids (Indicator i st style) = [i]"
| "widget_ids (HPanel c ws) = pc_id c # concat (map (\<lambda>(cc, w). widget_ids w) ws)"
| "widget_ids (VPanel c ws) = pc_id c # concat (map (\<lambda>(cc, w). widget_ids w) ws)"
| "widget_ids (VFlow i fr st ws) = i # concat (map widget_ids ws)"
| "widget_ids (Toolbar i cls st ws) = i # concat (map widget_ids ws)"
| "widget_ids (Title i ind ti fr st txt gap al ws) = i # ind # ti # concat (map widget_ids ws)"

subsection \<open>Constructors\<close>

text \<open>\<open>CIText\<close> is given a string, nothing, or a configuration.\<close>

definition text_of :: "jsval \<Rightarrow> jsval" where
  "text_of options =
     (case options of
        JStr s \<Rightarrow> JStr s
      | JUndef \<Rightarrow> JUndef
      | JNull \<Rightarrow> JNull
      | JObj p \<Rightarrow> js_or (js_or (get_prop p ''html'') (get_prop p ''text'')) (JStr [])
      | _ \<Rightarrow> JStr [])"

text \<open>\<open>CIPanelBase\<close>: padding and spacing default to \<open>0\<close>.\<close>

definition panel_new :: "string \<Rightarrow> string \<Rightarrow> props \<Rightarrow> props option \<Rightarrow> panel_conf" where
  "panel_new i cls styles options =
     (let opt = (\<lambda>k. case options of None \<Rightarrow> JNum 0 | Some p \<Rightarrow> js_or (get_prop p k) (JNum 0))
      in \<lparr>pc_id = i, pc_class = cls, pc_styles = styles, pc_padding = opt ''padding'', pc_spacing = opt ''spacing'',
          pc_valign = (case options of None \<Rightarrow> JStr ''top'' | Some p \<Rightarrow> get_prop p ''valign'')\<rparr>)"

subsection \<open>Drawing\<close>

definition toolbar_style :: "props \<Rightarrow> props \<Rightarrow> props" where
  "toolbar_style style el =
     (let px = (\<lambda>k d. toInt (js_or (hash_get style k) (JNum d)))
      in applyBordersOntoElement style ''dotted'' (applyBordersOntoElement style ''solid''
           (AList.update ''height'' (px ''height'' 18) (AList.update ''padding'' (px ''padding'' 0)
             (AList.update ''background-color'' (hash_get style ''backgroundColor'') el)))))"

definition title_style :: "props \<Rightarrow> props \<Rightarrow> props" where
  "title_style style el =
     interpolateRoundedCornerMaskOntoElement style (interpolateBorderStyleMaskOntoElement style ''dotted''
       (applyBordersOntoElement style ''solid''
         (AList.update ''background-color'' (hash_get style ''backgroundColor'') (AList.update ''padding'' (hash_get style ''padding'')
           (AList.update ''min-height'' (JNum 20)
             (if truthy (hash_get style ''hidden'') then AList.update ''display'' (JStr ''none'') el else el))))))"

definition text_node :: "string \<Rightarrow> string \<Rightarrow> props \<Rightarrow> jsval \<Rightarrow> dom" where
  "text_node i cls styles txt =
     Node ''p'' [(''id'', JStr i), (''styles'', JObj styles), (''class'', JStr (''CIText '' @ cls)), (''html'', txt)] []"

definition indicator_node :: "string \<Rightarrow> props \<Rightarrow> props \<Rightarrow> dom" where
  "indicator_node i styles style =
     indicator_element i [] (AList.update ''height'' (js_or (hash_get style ''height'') (JStr ''auto''))
       (AList.update ''width'' (js_or (hash_get style ''width'') (JStr ''auto'')) styles)) (hash_get style ''image'') ''Working...''"

text \<open>\<open>CIObject.element\<close> for a component that holds no others.\<close>

definition draw_leaf :: "string \<Rightarrow> dom \<Rightarrow> string list \<Rightarrow> dom list \<times> string list" where
  "draw_leaf i e ids = (if i \<in> set ids then ([], ids) else ([e], ids @ [i]))"

text \<open>A title draws its indicator and its text before the content; the text gets the size the style
  gives.\<close>

definition title_parts :: "string \<Rightarrow> string \<Rightarrow> props \<Rightarrow> jsval \<Rightarrow> string list \<Rightarrow> dom list \<times> string list" where
  "title_parts ind ti style txt ids =
     (case draw_leaf ind (indicator_node ind [(''float'', JStr ''left'')] []) ids of (d1, ids1) \<Rightarrow>
      case draw_leaf ti (text_node ti ''CITitleText'' [(''float'', JStr ''left''), (''font-size'', hash_get style ''textSize'')]
             (text_of (JObj [(''text'', txt)]))) ids1 of (d2, ids2) \<Rightarrow> (d1 @ d2, ids2))"

definition panel_attrs :: "string \<Rightarrow> panel_conf \<Rightarrow> props" where
  "panel_attrs kind c =
     [(''id'', JStr (pc_id c)), (''class'', JStr (''CIPanelBase '' @ kind @ '' '' @ pc_class c)),
      (''cellpadding'', pc_padding c), (''cellspacing'', pc_spacing c), (''styles'', JObj (pc_styles c))]"

definition cell_node :: "jsval \<Rightarrow> cell_conf \<Rightarrow> dom list \<Rightarrow> dom" where
  "cell_node valign cc content =
     Node ''td'' [(''valign'', js_or (js_or (cc_valign cc) valign) (JStr ''top'')), (''styles'', JObj (interpretStyles (cc_styles cc)))] content"

text \<open>\<open>draw_widget ids w\<close>: the elements put into the parent (none when the component is in the document
  already) and the ids in the document afterwards. The element of a component is in the document before
  its children are drawn.\<close>

fun draw_widget :: "string list \<Rightarrow> widget \<Rightarrow> dom list \<times> string list"
  and draw_children :: "string list \<Rightarrow> widget list \<Rightarrow> dom list list \<times> string list" where
  "draw_widget ids (Leaf i t as) = draw_leaf i (Node t ((''id'', JStr i) # as) []) ids"
| "draw_widget ids (Text i cls st txt) = draw_leaf i (text_node i cls st txt) ids"
| "draw_widget ids (Indicator i st style) = draw_leaf i (indicator_node i st style) ids"
| "draw_widget ids (HPanel c ws) =
     (if pc_id c \<in> set ids then ([], ids)
      else case draw_children (ids @ [pc_id c]) (map snd ws) of (cs, ids') \<Rightarrow>
        ([Node ''table'' (panel_attrs ''CIHBox'' c) [Node ''tr'' [] (map2 (cell_node (pc_valign c)) (map fst ws) cs)]], ids'))"
| "draw_widget ids (VPanel c ws) =
     (if pc_id c \<in> set ids then ([], ids)
      else case draw_children (ids @ [pc_id c]) (map snd ws) of (cs, ids') \<Rightarrow>
        ([Node ''table'' (panel_attrs ''CIVBox'' c) (map2 (\<lambda>cc d. Node ''tr'' [] [cell_node JUndef cc d]) (map fst ws) cs)], ids'))"
| "draw_widget ids (VFlow i frame style ws) =
     (if i \<in> set ids then ([], ids)
      else case draw_children (ids @ [i]) ws of (cs, ids') \<Rightarrow>
        ([Node ''table'' [(''id'', JStr i), (''class'', JStr ''CIVFlow''), (''styles'', JObj frame),
             (''cellpadding'', hash_get style ''padding''), (''cellspacing'', hash_get style ''spacing'')]
            (map (\<lambda>d. Node ''tr'' [] [Node ''td'' [(''valign'', hash_get style ''valign'')] d]) cs)], ids'))"
| "draw_widget ids (Toolbar i cls style ws) =
     (if i \<in> set ids then ([], ids)
      else case draw_children (ids @ [i]) ws of (cs, ids') \<Rightarrow>
        ([Node ''div'' [(''id'', JStr i), (''class'', JStr (''CIToolbar '' @ cls)),
             (''styles'', JObj (toolbar_style style (if ws = [] then [(''display'', JStr ''none'')] else [])))] (concat cs)], ids'))"
| "draw_widget ids (Title i ind ti frame style txt gap align ws) =
     (if i \<in> set ids then ([], ids)
      else case title_parts ind ti style txt (ids @ [i]) of (parts, ids1) \<Rightarrow> case draw_children ids1 ws of (cs, ids') \<Rightarrow>
        ([Node ''div'' [(''id'', JStr i), (''class'', JStr ''CITitle''), (''styles'', JObj (title_style style frame))]
            (parts @
             [Node ''div'' [(''class'', JStr ''CITitleContent''), (''styles'', JObj [(''float'', align)])]
                (map (\<lambda>d. Node ''div'' [(''class'', JStr ''CITitleContentItemContainer''),
                   (''styles'', JObj [(''margin-left'', gap), (''float'', JStr ''left'')])] d) cs)])], ids'))"
| "draw_children ids [] = ([], ids)"
| "draw_children ids (w # ws) =
     (case draw_widget ids w of (d, ids1) \<Rightarrow> case draw_children ids1 ws of (ds, ids2) \<Rightarrow> (d # ds, ids2))"

subsection \<open>The ids in the document\<close>

fun dom_ids :: "dom \<Rightarrow> string list" where
  "dom_ids (Node t as cs) = (case get_prop as ''id'' of JStr i \<Rightarrow> [i] | _ \<Rightarrow> []) @ concat (map dom_ids cs)"

definition ids_in :: "dom list \<Rightarrow> string list" where
  "ids_in ds = concat (map dom_ids ds)"

lemma ids_in_simps [simp]: "ids_in [] = []" "ids_in (d # ds) = dom_ids d @ ids_in ds" "ids_in (ds @ es) = ids_in ds @ ids_in es"
  by (simp_all add: ids_in_def)

lemma dom_ids_bare [simp]: "dom_ids (Node t [] cs) = ids_in cs"
  by (simp add: get_prop_def ids_in_def)

lemma dom_ids_anon: "get_prop as ''id'' = JUndef \<Longrightarrow> dom_ids (Node t as cs) = ids_in cs"
  by (simp add: ids_in_def)

lemma dom_ids_node [simp]:
  "dom_ids (Node t ((''id'', JStr i) # as) cs) = i # ids_in cs"
  "dom_ids (cell_node v cc cs) = ids_in cs"
  "dom_ids (text_node i cls st txt) = [i]" "dom_ids (indicator_node i st style) = [i]"
  by (simp_all add: get_prop_def ids_in_def cell_node_def text_node_def indicator_node_def indicator_element_def)

declare dom_ids.simps [simp del]

lemma ids_in_cells:
  "length ccs = length cs \<Longrightarrow> ids_in (map2 (cell_node v) ccs cs) = ids_in (concat cs)"
  "length ccs = length cs \<Longrightarrow> ids_in (map2 (\<lambda>cc d. Node ''tr'' [] [cell_node v cc d]) ccs cs) = ids_in (concat cs)"
  by (induction ccs cs rule: list_induct2) (simp_all add: get_prop_def)

lemma ids_in_wrapped:
  "get_prop as ''id'' = JUndef \<Longrightarrow> ids_in (map (\<lambda>d. Node t as d) cs) = ids_in (concat cs)"
  "get_prop as ''id'' = JUndef \<Longrightarrow> ids_in (map (\<lambda>d. Node ''tr'' [] [Node t as d]) cs) = ids_in (concat cs)"
  by (induction cs) (simp_all add: dom_ids.simps get_prop_def ids_in_def)

lemma draw_children_length: "length (fst (draw_children ids ws)) = length ws"
  by (induction ws arbitrary: ids) (auto simp: case_prod_beta)

text \<open>Drawing adds to the document exactly the ids of the elements it makes, which were not there.\<close>

definition tracks :: "string list \<Rightarrow> dom list \<Rightarrow> string list \<Rightarrow> bool" where
  "tracks ids ds ids' = (ids' = ids @ ids_in ds \<and> (distinct ids \<longrightarrow> distinct ids'))"

lemma tracks_leaf: "dom_ids e = [i] \<Longrightarrow> draw_leaf i e ids = (ds, ids') \<Longrightarrow> tracks ids ds ids'"
  by (auto simp: draw_leaf_def tracks_def split: if_splits)

lemma tracks_trans: "tracks ids ds ids1 \<Longrightarrow> tracks ids1 es ids2 \<Longrightarrow> tracks ids (ds @ es) ids2"
  by (auto simp: tracks_def)

lemma tracks_nil [simp]: "tracks ids [] ids"
  by (simp add: tracks_def)

lemma tracks_node:
  "i \<notin> set ids \<Longrightarrow> tracks (ids @ [i]) ds ids' \<Longrightarrow> dom_ids e = i # ids_in ds \<Longrightarrow> tracks ids [e] ids'"
  by (auto simp: tracks_def)

lemma title_parts_tracks:
  assumes "title_parts ind ti style txt ids = (ds, ids')"
  shows "tracks ids ds ids'"
proof -
  let ?e1 = "indicator_node ind [(''float'', JStr ''left'')] []"
  let ?e2 = "text_node ti ''CITitleText'' [(''float'', JStr ''left''), (''font-size'', hash_get style ''textSize'')]
             (text_of (JObj [(''text'', txt)]))"
  obtain d1 ids1 d2 where "draw_leaf ind ?e1 ids = (d1, ids1)" "draw_leaf ti ?e2 ids1 = (d2, ids')" "ds = d1 @ d2"
    using assms by (auto simp: title_parts_def split: prod.splits)
  then show ?thesis
    using tracks_leaf [of ?e1 ind ids d1 ids1] tracks_leaf [of ?e2 ti ids1 d2 ids'] by (simp add: tracks_trans)
qed

lemma panel_tracks:
  assumes "\<And>cs ids1. pc_id c \<notin> set ids \<Longrightarrow> draw_children (ids @ [pc_id c]) (map snd ws) = (cs, ids1) \<Longrightarrow>
      tracks (ids @ [pc_id c]) (concat cs) ids1"
  shows "draw_widget ids (HPanel c ws) = (ds, ids') \<Longrightarrow> tracks ids ds ids'"
    and "draw_widget ids (VPanel c ws) = (ds, ids') \<Longrightarrow> tracks ids ds ids'"
proof -
  obtain cs ids1 where cs: "draw_children (ids @ [pc_id c]) (map snd ws) = (cs, ids1)" by fastforce
  moreover have "length cs = length ws" using draw_children_length [of "ids @ [pc_id c]" "map snd ws"] cs by simp
  ultimately show "draw_widget ids (HPanel c ws) = (ds, ids') \<Longrightarrow> tracks ids ds ids'"
      "draw_widget ids (VPanel c ws) = (ds, ids') \<Longrightarrow> tracks ids ds ids'"
    using assms [OF _ cs]
    by (auto simp: panel_attrs_def ids_in_cells split: if_splits intro!: tracks_node [of "pc_id c" ids "concat cs"])
qed

lemma title_tracks:
  assumes "\<And>parts ids1 cs ids2. i \<notin> set ids \<Longrightarrow> title_parts ind ti style label (ids @ [i]) = (parts, ids1) \<Longrightarrow>
      draw_children ids1 ws = (cs, ids2) \<Longrightarrow> tracks ids1 (concat cs) ids2"
    and "draw_widget ids (Title i ind ti frame style label gap align ws) = (ds, ids')"
  shows "tracks ids ds ids'"
proof (cases "i \<in> set ids")
  case False
  obtain parts ids1 cs ids2 where ps: "title_parts ind ti style label (ids @ [i]) = (parts, ids1)"
      and cs: "draw_children ids1 ws = (cs, ids2)" by fastforce
  then have "tracks (ids @ [i]) (parts @ concat cs) ids2"
    using title_parts_tracks [OF ps] assms(1) [OF False ps cs] by (blast intro: tracks_trans)
  then show ?thesis
    using assms(2) False ps cs
    by (auto simp: ids_in_wrapped dom_ids_anon get_prop_def intro!: tracks_node [of i ids "parts @ concat cs"])
qed (use assms(2) in simp)

lemma draw_tracks:
  "draw_widget ids w = (ds, ids') \<Longrightarrow> tracks ids ds ids'"
  "draw_children ids ws = (cs, ids') \<Longrightarrow> tracks ids (concat cs) ids'"
proof (induction ids w and ids ws arbitrary: ds ids' and cs ids' rule: draw_widget_draw_children.induct)
  case (1 ids i t as)
  then show ?case using tracks_leaf [of "Node t ((''id'', JStr i) # as) []" i ids ds ids'] by simp
next
  case (2 ids i cls st label)
  then show ?case using tracks_leaf [of "text_node i cls st label" i ids ds ids'] by simp
next
  case (3 ids i st style)
  then show ?case using tracks_leaf [of "indicator_node i st style" i ids ds ids'] by simp
next
  case (7 ids i cls style ws)
  obtain cs ids1 where cs: "draw_children (ids @ [i]) ws = (cs, ids1)" by fastforce
  with 7 show ?case
    by (cases "i \<in> set ids") (auto simp del: draw_children.simps intro!: tracks_node [of i ids "concat cs"])
next
  case (4 ids c ws)
  show ?case using panel_tracks(1) [OF "4.IH" "4.prems"] .
next
  case (5 ids c ws)
  show ?case using panel_tracks(2) [OF "5.IH" "5.prems"] .
next
  case (8 ids i ind ti frame style label gap align ws)
  show ?case by (rule title_tracks [OF _ "8.prems"]) (rule "8.IH" [OF _ sym])
next
  case (10 ids w ws)
  then show ?case by (fastforce split: prod.splits intro: tracks_trans)
qed (auto split: prod.splits if_splits simp: ids_in_wrapped get_prop_def intro!: tracks_node)

text \<open>A tree whose ids are new and different is drawn whole.\<close>

lemma draw_fresh:
  "distinct (ids @ widget_ids w) \<Longrightarrow> snd (draw_widget ids w) = ids @ widget_ids w \<and> length (fst (draw_widget ids w)) = 1"
  "distinct (ids @ concat (map widget_ids ws)) \<Longrightarrow> snd (draw_children ids ws) = ids @ concat (map widget_ids ws)"
proof (induction ids w and ids ws rule: draw_widget_draw_children.induct)
  case (4 ids c ws)
  then show ?case by (auto simp: comp_def case_prod_beta case_prod_beta')
next
  case (5 ids c ws)
  then show ?case by (auto simp: comp_def case_prod_beta case_prod_beta')
next
  case (8 ids i ind ti frame style label gap align ws)
  obtain parts where ps: "title_parts ind ti style label (ids @ [i]) = (parts, ids @ [i, ind, ti])"
    using "8.prems" by (auto simp: title_parts_def draw_leaf_def)
  then have "snd (draw_children (ids @ [i, ind, ti]) ws) = (ids @ [i, ind, ti]) @ concat (map widget_ids ws)"
    using "8.prems" by (intro "8.IH" [OF _ ps [symmetric]]) auto
  with "8.prems" ps show ?case by (auto simp: case_prod_beta)
next
  case (10 ids w ws)
  then have "distinct (ids @ widget_ids w)" by auto
  then have w: "snd (draw_widget ids w) = ids @ widget_ids w" using "10.IH"(1) by blast
  have "snd (draw_children (ids @ widget_ids w) ws) = (ids @ widget_ids w) @ concat (map widget_ids ws)"
    using "10.prems" w by (intro "10.IH"(2) [of "fst (draw_widget ids w)"]) (auto simp: prod_eq_iff)
  with w show ?case by (simp add: case_prod_beta)
qed (auto simp: draw_leaf_def case_prod_beta)

lemma drawn_is_there: "hd (widget_ids w) \<in> set (snd (draw_widget ids w))"
proof -
  have "set ids \<subseteq> set (snd (draw_widget ids w))"
    using draw_tracks(1) [of ids w "fst (draw_widget ids w)" "snd (draw_widget ids w)"] by (auto simp: tracks_def)
  moreover have "hd (widget_ids w) \<notin> set ids \<Longrightarrow> \<exists>d ds. fst (draw_widget ids w) = d # ds \<and> hd (widget_ids w) \<in> set (dom_ids d)"
    by (cases w) (auto simp: draw_leaf_def case_prod_beta panel_attrs_def)
  moreover have "snd (draw_widget ids w) = ids @ ids_in (fst (draw_widget ids w))"
    using draw_tracks(1) [of ids w] by (simp add: tracks_def)
  ultimately show ?thesis by (metis UnCI append_Cons in_mono ids_in_simps(2) set_append)
qed

lemma drawn_again: "hd (widget_ids w) \<in> set ids \<Longrightarrow> draw_widget ids w = ([], ids)"
  by (cases w) (auto simp: draw_leaf_def)

subsection \<open>Toolbars\<close>

text \<open>A toolbar that is drawn: its items and what its element holds.\<close>

record toolbar_state =
  tbr_content :: "widget list"
  tbr_nodes :: "dom list"

definition toolbar_isEmpty :: "toolbar_state \<Rightarrow> bool" where
  "toolbar_isEmpty tb = (length (tbr_content tb) = 0)"

definition addItemToLeft :: "widget \<Rightarrow> string list \<Rightarrow> toolbar_state \<Rightarrow> toolbar_state \<times> string list" where
  "addItemToLeft item ids tb =
     (case draw_widget ids item of (ds, ids') \<Rightarrow>
        (\<lparr>tbr_content = item # tbr_content tb, tbr_nodes = tbr_nodes tb @ ds\<rparr>, ids'))"

subsection \<open>Curtain panels\<close>

text \<open>The slide of the drawer: whether it was last found open, the direction the next toggle takes if it is
  remembered, where the drawer is, and the animation under way. A new animation cancels the one
  under way.\<close>

record slide =
  sl_open :: bool
  sl_flag :: "bool option"
  sl_shown :: bool
  sl_run :: "bool option"

record curtain =
  cu_label :: jsval
  cu_openState :: "string option"
  cu_slide :: "slide option"

definition curtain_new :: "jsval \<Rightarrow> string option \<Rightarrow> curtain" where
  "curtain_new label openState =
     \<lparr>cu_label = js_or label (JStr ''Click to reveal.''), cu_openState = openState, cu_slide = None\<rparr>"

text \<open>\<open>Element.slide\<close> with \<open>in\<close>, \<open>out\<close>, \<open>hide\<close> and \<open>toggle\<close>; the end of the animation.\<close>

datatype slide_how = SlideIn | SlideOut | SlideHide | SlideToggle

fun slide_do :: "slide_how \<Rightarrow> slide \<Rightarrow> slide" where
  "slide_do SlideIn sl = sl\<lparr>sl_run := Some True, sl_flag := None\<rparr>"
| "slide_do SlideOut sl = sl\<lparr>sl_run := Some False, sl_flag := None\<rparr>"
| "slide_do SlideHide sl = sl\<lparr>sl_open := False, sl_shown := False, sl_flag := None\<rparr>"
| "slide_do SlideToggle sl =
     (let c = (case sl_flag sl of None \<Rightarrow> sl_open sl | Some b \<Rightarrow> b)
      in sl\<lparr>sl_run := Some (\<not> c), sl_flag := Some (\<not> c)\<rparr>)"

definition slide_end :: "slide \<Rightarrow> slide" where
  "slide_end sl = (case sl_run sl of None \<Rightarrow> sl | Some b \<Rightarrow> sl\<lparr>sl_run := None, sl_shown := b, sl_open := b\<rparr>)"

text \<open>A curtain is drawn with its drawer hidden; the handler of \<open>AddedToDom\<close> then calls the method the
  configuration names.\<close>

definition curtain_method :: "string \<Rightarrow> slide \<Rightarrow> js_error + slide" where
  "curtain_method name sl =
     (if name = ''reveal'' then Inr (slide_do SlideIn sl)
      else if name = ''conceal'' then Inr (slide_do SlideOut sl)
      else if name = ''toggle'' then Inr (slide_do SlideToggle sl)
      else Inl TypeError)"

definition curtain_draw :: "curtain \<Rightarrow> js_error + curtain" where
  "curtain_draw cu =
     (let sl = slide_do SlideHide \<lparr>sl_open = True, sl_flag = None, sl_shown = True, sl_run = None\<rparr>
      in case cu_openState cu of
           None \<Rightarrow> Inr (cu\<lparr>cu_slide := Some sl\<rparr>)
         | Some m \<Rightarrow>
             if m = [] then Inr (cu\<lparr>cu_slide := Some sl\<rparr>)
             else bindE (curtain_method m sl) (\<lambda>sl'. Inr (cu\<lparr>cu_slide := Some sl'\<rparr>)))"

definition curtain_slide :: "slide_how \<Rightarrow> curtain \<Rightarrow> js_error + curtain" where
  "curtain_slide how cu =
     (case cu_slide cu of None \<Rightarrow> Inl TypeError | Some sl \<Rightarrow> Inr (cu\<lparr>cu_slide := Some (slide_do how sl)\<rparr>))"

definition curtain_setLabel :: "jsval \<Rightarrow> curtain \<Rightarrow> js_error + curtain" where
  "curtain_setLabel l cu = (if cu_slide cu = None then Inl TypeError else Inr (cu\<lparr>cu_label := l\<rparr>))"

definition curtain_element :: "string \<Rightarrow> string \<Rightarrow> props \<Rightarrow> jsval \<Rightarrow> string \<Rightarrow> props \<Rightarrow> dom list \<Rightarrow> curtain \<Rightarrow> dom" where
  "curtain_element i cls styles width contentClass contentStyles content cu =
     Node ''div'' [(''id'', JStr i), (''class'', JStr (''CICurtainPanel '' @ cls)),
         (''styles'', JObj (hash_extend [(''width'', js_or width (JNum 150))] styles))]
       [Node ''p'' [(''html'', cu_label cu), (''class'', JStr ''CICurtainPanelLabel'')] [],
        Node ''div'' [(''class'', JStr (''CICurtainPanelBody '' @ contentClass)), (''styles'', JObj contentStyles)] content]"

inductive slide_step :: "slide \<Rightarrow> slide \<Rightarrow> bool" where
  sl_call: "how \<noteq> SlideHide \<Longrightarrow> slide_step sl (slide_do how sl)"
| sl_end: "slide_step sl (slide_end sl)"

text \<open>What is remembered agrees with the animation under way, or with the drawer at rest.\<close>

definition slide_ok :: "slide \<Rightarrow> bool" where
  "slide_ok sl =
     (case sl_run sl of
        None \<Rightarrow> sl_open sl = sl_shown sl \<and> (\<forall>b. sl_flag sl = Some b \<longrightarrow> b = sl_shown sl)
      | Some d \<Rightarrow> \<forall>b. sl_flag sl = Some b \<longrightarrow> b = d)"

definition drawer_closed :: slide where
  "drawer_closed = slide_do SlideHide \<lparr>sl_open = True, sl_flag = None, sl_shown = True, sl_run = None\<rparr>"

interpretation drawer: machine "\<lambda>sl. sl = drawer_closed" slide_step slide_ok
proof
  fix s t
  assume "slide_ok s" and "slide_step s t"
  from this(2,1) show "slide_ok t"
  proof cases
    case (sl_call how)
    with \<open>slide_ok s\<close> show ?thesis by (cases how) (auto simp: slide_ok_def Let_def split: option.splits)
  next
    case sl_end
    with \<open>slide_ok s\<close> show ?thesis by (auto simp: slide_ok_def slide_end_def split: option.splits)
  qed
qed (simp add: slide_ok_def drawer_closed_def)

subsection \<open>Properties\<close>

text \<open>Property C4. However components are nested, and whichever of them are in the document already, drawing
  never puts an id into the document twice, and drawing a component again draws nothing; a tree
  of components with new ids is drawn whole, as one element, with the components in the order of the
  tree.\<close>

theorem draw_tree:
  assumes "distinct ids"
  shows "distinct (snd (draw_widget ids w)) \<and>
         snd (draw_widget ids w) = ids @ concat (map dom_ids (fst (draw_widget ids w))) \<and>
         draw_widget (snd (draw_widget ids w)) w = ([], snd (draw_widget ids w)) \<and>
         (distinct (widget_ids w) \<longrightarrow> set (widget_ids w) \<inter> set ids = {} \<longrightarrow>
            (\<exists>e. fst (draw_widget ids w) = [e] \<and> dom_ids e = widget_ids w))"
proof -
  have t: "tracks ids (fst (draw_widget ids w)) (snd (draw_widget ids w))"
    using draw_tracks(1) [of ids w] by simp
  have "\<exists>e. fst (draw_widget ids w) = [e] \<and> dom_ids e = widget_ids w"
    if "distinct (widget_ids w)" "set (widget_ids w) \<inter> set ids = {}"
  proof -
    have "distinct (ids @ widget_ids w)" using assms that by auto
    from draw_fresh(1) [OF this] obtain e where "fst (draw_widget ids w) = [e]" "snd (draw_widget ids w) = ids @ widget_ids w"
      by (metis length_0_conv length_Suc_conv One_nat_def)
    with t show ?thesis by (auto simp: tracks_def)
  qed
  moreover have "distinct (snd (draw_widget ids w))" "snd (draw_widget ids w) = ids @ concat (map dom_ids (fst (draw_widget ids w)))"
    using t assms unfolding tracks_def ids_in_def by blast+
  ultimately show ?thesis using drawn_again [OF drawn_is_there] by blast
qed

theorem draw_tree_witness:
  "let w = HPanel (panel_new ''p'' [] [] None) [(\<lparr>cc_valign = JUndef, cc_styles = []\<rparr>, Leaf ''a'' ''img'' []),
                                              (\<lparr>cc_valign = JUndef, cc_styles = []\<rparr>, Text ''b'' [] [] (JStr ''x''))]
   in \<exists>e. fst (draw_widget [] w) = [e] \<and> dom_ids e = [''p'', ''a'', ''b'']"
  using draw_tree [of "[]" "HPanel (panel_new ''p'' [] [] None) [(\<lparr>cc_valign = JUndef, cc_styles = []\<rparr>, Leaf ''a'' ''img'' []),
                                              (\<lparr>cc_valign = JUndef, cc_styles = []\<rparr>, Text ''b'' [] [] (JStr ''x''))]"]
  by (simp add: panel_new_def Let_def del: draw_widget.simps)

text \<open>An item added to the left of a toolbar that is drawn appears at its right end: it is the
  first of the items and the last in the document, until the toolbar is drawn anew.\<close>

lemma toolbar_left_is_right:
  assumes "distinct (ids @ widget_ids item)" "addItemToLeft item ids tb = (tb', ids')"
  shows "hd (tbr_content tb') = item \<and>
         (\<exists>e. tbr_nodes tb' = tbr_nodes tb @ [e] \<and> dom_ids e = widget_ids item)"
proof -
  obtain e where "fst (draw_widget ids item) = [e]" "snd (draw_widget ids item) = ids @ widget_ids item"
    using draw_fresh(1) [OF assms(1)] by (metis length_0_conv length_Suc_conv One_nat_def)
  then show ?thesis
    using assms(2) draw_tracks(1) [of ids item "[e]" "ids @ widget_ids item"]
    by (auto simp: addItemToLeft_def tracks_def case_prod_beta prod_eq_iff)
qed

text \<open>However often a curtain is clicked, revealed and concealed, and however these calls cut
  the animations of each other short, a click on a drawer at rest moves it: when the animation has
  ended an open drawer is closed and a closed one open.\<close>

lemma curtain_click_moves:
  assumes "slide_step\<^sup>*\<^sup>* drawer_closed sl" "sl_run sl = None"
  shows "sl_shown (slide_end (slide_do SlideToggle sl)) = (\<not> sl_shown sl) \<and>
         sl_shown (slide_end (slide_do SlideIn sl)) \<and> \<not> sl_shown (slide_end (slide_do SlideOut sl))"
proof -
  have "slide_ok sl" using drawer.reachable_inv assms(1) by blast
  with assms(2) show ?thesis by (auto simp: slide_ok_def slide_end_def Let_def split: option.splits)
qed

end
