(* ===== verification/CI_Resize.thy ===== *)
theory CI_Resize
  imports CI_View CI_Style
begin

section \<open>Resizing a tree of views\<close>

text \<open>
  \<open>CIView._viewResized\<close>, \<open>render\<close>, \<open>unrender\<close> and \<open>applyStyle\<close>: the size of a view is computed from its
  frame, from the window or from what its superview reports, and the views it holds follow. A view
  that is not drawn is skipped with everything it holds. The superview is asked for its size when a
  dimension of a subview depends on it; a view without a width has none to report.
\<close>

subsection \<open>Views\<close>

text \<open>A dimension: none, a given value, or the one of the window or of the superview, with amounts added
  and subtracted.\<close>

datatype vdim =
    VNone
  | VFixed jsval
  | VWindow "jsval list" "jsval list"
  | VSuper "jsval list" "jsval list"

record vframe =
  vf_width :: vdim
  vf_height :: vdim
  vf_x :: jsval
  vf_y :: jsval
  vf_clip :: jsval

datatype view = View string vframe bool rat props "view list"

text \<open>The dimension as the frame evaluates it, in a window of the given size.\<close>

definition vdim_at :: "rat \<Rightarrow> vdim \<Rightarrow> dimension" where
  "vdim_at win d =
     (case d of
        VNone \<Rightarrow> NoDim
      | VFixed v \<Rightarrow> Fixed v
      | VWindow as ss \<Rightarrow> Elastic \<lparr>rb_target = Some (JNum win), additions = as, subtractions = ss, willReceiveView = False\<rparr>
      | VSuper as ss \<Rightarrow> Elastic \<lparr>rb_target = None, additions = as, subtractions = ss, willReceiveView = True\<rparr>)"

definition vframe_at :: "rat \<Rightarrow> rat \<Rightarrow> vframe \<Rightarrow> cirect" where
  "vframe_at ww wh f =
     \<lparr>rect_width = vdim_at ww (vf_width f), rect_height = vdim_at wh (vf_height f),
      rect_x = vf_x f, rect_y = vf_y f, rect_clip = vf_clip f\<rparr>"

text \<open>What a view reports for its width and its height, given what its own superview reports: without a
  width in the frame there is an error, without a height the height of the element.\<close>

definition view_getWidth :: "rat \<Rightarrow> jsval option \<Rightarrow> vframe \<Rightarrow> js_error + jsval" where
  "view_getWidth ww sw f =
     (case vf_width f of VNone \<Rightarrow> Inl TypeError | d \<Rightarrow> Inr (dim_toInteger sw (vdim_at ww d)))"

definition view_getHeight :: "rat \<Rightarrow> jsval option \<Rightarrow> vframe \<Rightarrow> rat \<Rightarrow> jsval" where
  "view_getHeight wh sh f elem_h =
     (case vf_height f of VNone \<Rightarrow> JNum elem_h | d \<Rightarrow> dim_toInteger sh (vdim_at wh d))"

fun asks_super :: "vdim \<Rightarrow> bool" where
  "asks_super (VSuper as ss) = True"
| "asks_super _ = False"

fun frame_of :: "view \<Rightarrow> vframe" where
  "frame_of (View i f drawn h st vs) = f"

fun styles_of :: "view \<Rightarrow> props" where
  "styles_of (View i f drawn h st vs) = st"

fun drawn_of :: "view \<Rightarrow> bool" where
  "drawn_of (View i f drawn h st vs) = drawn"

text \<open>\<open>_viewResized\<close>, with what the superview reports where the frame asks for it.\<close>

fun view_resized :: "rat \<Rightarrow> rat \<Rightarrow> jsval option \<Rightarrow> jsval option \<Rightarrow> view \<Rightarrow> js_error + view"
  and views_resized :: "rat \<Rightarrow> rat \<Rightarrow> vframe \<Rightarrow> rat \<Rightarrow> jsval option \<Rightarrow> jsval option \<Rightarrow> view list \<Rightarrow> js_error + view list" where
  "view_resized ww wh sw sh (View i f drawn h st vs) =
     (if drawn
      then bindE (views_resized ww wh f h sw sh vs) (\<lambda>vs'.
             Inr (View i f drawn h (fold (\<lambda>(k, v). AList.update k v) (toCssStylesObject [] sw sh (vframe_at ww wh f)) st) vs'))
      else Inr (View i f drawn h st vs))"
| "views_resized ww wh f h sw sh [] = Inr []"
| "views_resized ww wh f h sw sh (v # vs) =
     bindE (if drawn_of v \<and> asks_super (vf_width (frame_of v)) then bindE (view_getWidth ww sw f) (\<lambda>x. Inr (Some x)) else Inr None) (\<lambda>sw'.
     bindE (view_resized ww wh sw' (if asks_super (vf_height (frame_of v)) then Some (view_getHeight wh sh f h) else None) v) (\<lambda>v'.
     bindE (views_resized ww wh f h sw sh vs) (\<lambda>vs'. Inr (v' # vs'))))"

text \<open>The handler of the window's event, registered for a resizable view.\<close>

definition windowResized :: "rat \<Rightarrow> rat \<Rightarrow> view \<Rightarrow> js_error + view" where
  "windowResized ww wh v = view_resized ww wh None None v"

text \<open>\<open>setResizable\<close>: whether the handler is registered.\<close>

definition setResizable :: "bool \<Rightarrow> string list \<Rightarrow> string \<Rightarrow> string list" where
  "setResizable isResizable registered v = (if isResizable then List.insert v registered else removeAll v registered)"

text \<open>\<open>render\<close>: the subviews that are not drawn are drawn, with what they hold, then the view is resized.
  (A subview resizes itself when it is drawn, before it knows its superview; the resizing of the view
  then sets the same styles once more.) \<open>unrender\<close> empties the element.\<close>

fun draw_view :: "rat \<Rightarrow> rat \<Rightarrow> view \<Rightarrow> view" where
  "draw_view ww wh (View i f drawn h st vs) =
     (if drawn then View i f drawn h st vs
      else View i f True h (AList.update ''position'' (JStr ''relative'') (toCssStylesObject [] None None (vframe_at ww wh f)))
             (map (draw_view ww wh) vs))"

fun undraw_view :: "view \<Rightarrow> view" where
  "undraw_view (View i f drawn h st vs) = View i f False h [] (map undraw_view vs)"

fun view_render :: "rat \<Rightarrow> rat \<Rightarrow> view \<Rightarrow> js_error + view" where
  "view_render ww wh (View i f drawn h st vs) =
     (if drawn then view_resized ww wh None None (View i f drawn h st (map (draw_view ww wh) vs)) else Inr (View i f drawn h st vs))"

fun view_unrender :: "view \<Rightarrow> view" where
  "view_unrender (View i f drawn h st vs) =
     (if drawn then View i f drawn h st (map undraw_view vs) else View i f drawn h st vs)"

definition view_applyStyle :: "props \<Rightarrow> props \<Rightarrow> props" where
  "view_applyStyle style el =
     interpolateRoundedCornerMaskOntoElement style (interpolateBorderStyleMaskOntoElement style ''dotted''
       (applyBordersOntoElement style ''solid'' (AList.update ''background-color'' (hash_get style ''backgroundColor'') el)))"

subsection \<open>Lemmas\<close>

lemma get_prop_put_all: "k \<notin> fst ` set new \<Longrightarrow> get_prop (fold (\<lambda>(k, v). AList.update k v) new st) k = get_prop st k"
  by (induction new arbitrary: st) auto

lemma get_prop_put_all_in:
  "distinct (map fst new) \<Longrightarrow> get_prop new k = v \<Longrightarrow> v \<noteq> JUndef \<Longrightarrow>
   get_prop (fold (\<lambda>(k, v). AList.update k v) new st) k = v"
proof (induction new arbitrary: st)
  case (Cons x new)
  obtain k' v' where x: "x = (k', v')" by (cases x)
  show ?case
  proof (cases "k' = k")
    case True
    then have "k \<notin> fst ` set new" "v = v'" using Cons.prems x by (auto simp: get_prop_def)
    with x True get_prop_put_all [of k new] show ?thesis by simp
  next
    case False
    then have "get_prop new k = v" using Cons.prems(2) x by (simp add: get_prop_def)
    with Cons x show ?thesis by simp
  qed
qed (simp add: get_prop_def)

lemma toInt_nat [simp]: "toInt (JNum (of_nat n)) = JNum (of_nat n)"
  using parseInt_nat_digits [of n] by (simp add: toInt_def num_to_string_def num_result_def)

lemma js_minus_num [simp]: "js_minus (JNum a) (JNum b) = JNum (a - b)"
  by (simp add: js_minus_def to_number_def to_prim_def)

lemma minus_all:
  "foldl (\<lambda>x s. js_minus x (toInt s)) (JNum a) (map (\<lambda>n. JNum (of_nat n)) ns) = JNum (a - of_nat (sum_list ns))"
  by (induction ns arbitrary: a) (simp_all add: algebra_simps)

text \<open>The width a frame comes to when its dimension asks the window or a superview of a known width.\<close>

lemma dim_minus:
  "dim_toInteger (Some (JNum a)) (vdim_at ww (VSuper [] (map (\<lambda>n. JNum (of_nat n)) ns))) = JNum (a - of_nat (sum_list ns))"
  "dim_toInteger None (vdim_at ww (VWindow [] (map (\<lambda>n. JNum (of_nat n)) ns))) = JNum (ww - of_nat (sum_list ns))"
  by (simp_all add: dim_toInteger_def vdim_at_def resize_toInteger_def Let_def targetValue_def minus_all)

lemma distinct_css: "distinct (map fst (toCssStylesObject [] sw sh r))"
proof -
  have "distinct (map fst s) \<Longrightarrow> distinct (map fst (put_size d v s))" for d v s
    by (simp add: put_size_def distinct_update)
  then show ?thesis by (simp add: toCssStylesObject_def Let_def distinct_update)
qed

lemma css_width:
  assumes "rect_width r \<noteq> NoDim"
  shows "get_prop (toCssStylesObject [] sw sh r) ''width'' = dim_toInteger sw (rect_width r)"
  using assms by (simp add: toCssStylesObject_def Let_def put_size_def) (simp add: get_prop_def)

text \<open>A tree of drawn views that take the width of their superviews, less some pixels.\<close>

fun elastic :: "view \<Rightarrow> bool" where
  "elastic (View i f drawn h st vs) =
     (drawn \<and> (\<exists>ns. vf_width f = VSuper [] (map (\<lambda>n. JNum (of_nat n)) ns)) \<and> list_all elastic vs)"

definition px_less :: "vdim \<Rightarrow> rat" where
  "px_less d =
     (case d of
        VSuper as ss \<Rightarrow> sum_list (map (\<lambda>s. case s of JNum x \<Rightarrow> x | _ \<Rightarrow> 0) ss)
      | VWindow as ss \<Rightarrow> sum_list (map (\<lambda>s. case s of JNum x \<Rightarrow> x | _ \<Rightarrow> 0) ss)
      | _ \<Rightarrow> 0)"

fun fits :: "rat \<Rightarrow> view \<Rightarrow> bool" where
  "fits a (View i f drawn h st vs) =
     (get_prop st ''width'' = JNum (a - px_less (vf_width f)) \<and> list_all (fits (a - px_less (vf_width f))) vs)"

lemma px_less_nat [simp]:
  "px_less (VSuper as (map (\<lambda>n. JNum (of_nat n)) ns)) = of_nat (sum_list ns)"
  "px_less (VWindow as (map (\<lambda>n. JNum (of_nat n)) ns)) = of_nat (sum_list ns)"
  by (induction ns) (simp_all add: px_less_def)

lemma styled_width:
  assumes "rect_width r \<noteq> NoDim" "dim_toInteger sw (rect_width r) = JNum x"
  shows "get_prop (fold (\<lambda>(k, v). AList.update k v) (toCssStylesObject [] sw sh r) st) ''width'' = JNum x"
  using css_width [OF assms(1), of sw sh] assms(2) by (intro get_prop_put_all_in distinct_css) auto

lemma resized_fits:
  "sw = Some (JNum a) \<Longrightarrow> elastic v \<Longrightarrow> \<exists>v'. view_resized ww wh sw sh v = Inr v' \<and> fits a v'"
  "view_getWidth ww sw f = Inr (JNum a) \<Longrightarrow> list_all elastic vs \<Longrightarrow>
     \<exists>vs'. views_resized ww wh f h sw sh vs = Inr vs' \<and> list_all (fits a) vs'"
proof (induction ww wh sw sh v and ww wh f h sw sh vs arbitrary: a and a rule: view_resized_views_resized.induct)
  case (1 ww wh sw sh i f drawn h st vs)
  obtain ns where d: "drawn" "vf_width f = VSuper [] (map (\<lambda>n. JNum (of_nat n)) ns)" "list_all elastic vs"
    using "1.prems" by auto
  let ?a = "a - of_nat (sum_list ns)"
  have w: "view_getWidth ww sw f = Inr (JNum ?a)"
    using "1.prems" d by (simp add: view_getWidth_def dim_minus)
  obtain vs' where "views_resized ww wh f h sw sh vs = Inr vs'" "list_all (fits ?a) vs'"
    using "1.IH" [OF d(1) w d(3)] by blast
  moreover have "get_prop (fold (\<lambda>(k, v). AList.update k v) (toCssStylesObject [] sw sh (vframe_at ww wh f)) st) ''width'' = JNum ?a"
    using "1.prems" d by (intro styled_width) (simp_all add: vframe_at_def dim_minus, simp add: vdim_at_def)
  ultimately show ?case using d by simp
next
  case (3 ww wh f h sw sh v vs)
  have v: "drawn_of v" "asks_super (vf_width (frame_of v))" using "3.prems" by (cases v; auto)+
  obtain v' where v': "view_resized ww wh (Some (JNum a))
      (if asks_super (vf_height (frame_of v)) then Some (view_getHeight wh sh f h) else None) v = Inr v'" "fits a v'"
    using "3.IH"(1) [of "Some (JNum a)" a] "3.prems" v by auto
  moreover obtain vs' where "views_resized ww wh f h sw sh vs = Inr vs'" "list_all (fits a) vs'"
    using "3.IH"(2) [of a] "3.prems" v v' by auto
  ultimately show ?case using "3.prems"(1) v by simp
qed simp

subsection \<open>Properties\<close>

text \<open>Property C27. After the window is resized, every view of a tree of drawn views whose widths follow
  their superviews has the width of the window less the pixels subtracted on the way down to
  it.\<close>

theorem nested_widths:
  assumes "vf_width f = VWindow [] (map (\<lambda>n. JNum (of_nat n)) ns)" "list_all elastic vs"
  shows "\<exists>v'. windowResized ww wh (View i f True h st vs) = Inr v' \<and> fits ww v'"
proof -
  let ?a = "ww - of_nat (sum_list ns)"
  have "view_getWidth ww None f = Inr (JNum ?a)" using assms(1) by (simp add: view_getWidth_def dim_minus)
  then obtain vs' where "views_resized ww wh f h None None vs = Inr vs'" "list_all (fits ?a) vs'"
    using resized_fits(2) [OF _ assms(2)] by blast
  moreover have "get_prop (fold (\<lambda>(k, v). AList.update k v) (toCssStylesObject [] None None (vframe_at ww wh f)) st) ''width'' = JNum ?a"
    using assms(1) by (intro styled_width) (simp_all add: vframe_at_def dim_minus, simp add: vdim_at_def)
  ultimately show ?thesis using assms(1) by (simp add: windowResized_def)
qed

definition bare_frame :: "vdim \<Rightarrow> vframe" where
  "bare_frame d = \<lparr>vf_width = d, vf_height = VNone, vf_x = JUndef, vf_y = JUndef, vf_clip = JStr ''hidden''\<rparr>"

theorem nested_widths_witness:
  "\<exists>v'. windowResized 1000 600 (View ''w'' (bare_frame (VWindow [] (map (\<lambda>n. JNum (of_nat n)) [200]))) True 0 []
           [View ''c'' (bare_frame (VSuper [] (map (\<lambda>n. JNum (of_nat n)) [50, 10]))) True 0 [] []]) = Inr v' \<and> fits 1000 v'"
  using nested_widths [of "bare_frame (VWindow [] (map (\<lambda>n. JNum (of_nat n)) [200]))" "[200]"
      "[View ''c'' (bare_frame (VSuper [] (map (\<lambda>n. JNum (of_nat n)) [50, 10]))) True 0 [] []]" 1000 600 "''w''" 0 "[]"]
  by (simp add: bare_frame_def del: map_map list.map) (metis list.simps(8,9))

text \<open>A drawn view that follows its superview in width, in a drawn view without a width, makes
  every resizing throw, before the views after it are given their sizes.\<close>

lemma unsized_superview_throws:
  assumes "vf_width f = VNone" "drawn_of v" "asks_super (vf_width (frame_of v))"
  shows "windowResized ww wh (View i f True h st (v # vs)) = Inl TypeError"
  using assms by (simp add: windowResized_def view_getWidth_def)

end
