(* ===== verification/CI_Frames.thy ===== *)
theory CI_Frames
  imports CI_Panels CI_Dialogs CI_Button
begin

section \<open>The elements of sheets, floating panels and tables\<close>

text \<open>
  \<open>CISheet._makeElement\<close>, \<open>CIHud._makeElement\<close> and the frame that \<open>CITable._makeElement\<close> draws around the
  rows: each of them makes an element of its own and draws the components it holds (title, content,
  buttons, toolbar) into parts of it, so they are drawn as the trees of \<open>CI_Panels\<close> are. The sizes that
  the browser computes are parameters.
\<close>

subsection \<open>Sheets\<close>


subsection \<open>Floating panels\<close>





subsection \<open>The frame of a table\<close>

text \<open>The height of the inner container: what the title and the toolbar leave, when a style of the table
  has a name with \<open>eight\<close> in it.\<close>

definition inner_height :: "props \<Rightarrow> jsval \<Rightarrow> jsval \<Rightarrow> jsval \<Rightarrow> jsval" where
  "inner_height cssStyles container_h title_h toolbar_h =
     (if list_ex (\<lambda>(k, v). str_contains k ''eight'') cssStyles
      then js_minus (js_minus (toInt container_h) (toInt title_h)) (toInt toolbar_h)
      else JStr ''auto'')"

definition table_frame ::
  "string list \<Rightarrow> string \<Rightarrow> string \<Rightarrow> props \<Rightarrow> jsval \<Rightarrow> jsval \<Rightarrow> widget \<Rightarrow> widget \<Rightarrow> dom list \<Rightarrow> dom list \<times> string list" where
  "table_frame ids i cls styles padding innerHeight title toolbar rows =
     (if i \<in> set ids then ([], ids)
      else case draw_children (ids @ [i]) [title, toolbar] of (cs, ids') \<Rightarrow>
        ([Node ''div'' [(''id'', JStr i), (''class'', JStr (''CITableContainer '' @ cls)), (''styles'', JObj styles)]
            (concat cs @
             [Node ''div'' [(''id'', JStr (i @ ''_innerContainer'')), (''class'', JStr ''CITableInnerContainer''), (''styles'', JObj [(''height'', innerHeight)])]
                [Node ''table'' [(''id'', JStr (i @ ''_table'')), (''cellpadding'', padding), (''cellspacing'', JNum 0), (''styles'', JObj [(''width'', JStr ''100%'')])] rows]])],
         ids' @ [i @ ''_innerContainer'', i @ ''_table'']))"

definition table_applyStyle :: "props \<Rightarrow> props \<Rightarrow> props \<Rightarrow> props \<times> props" where
  "table_applyStyle style container innerc =
     (AList.update ''background-color'' (hash_get style ''backgroundColor'')
        (AList.update ''width'' (js_or (hash_get style ''width'') (JStr ''100%''))
          (if truthy (hash_get style ''hidden'') then AList.update ''display'' (JStr ''none'') container else container)),
      interpolateRoundedCornerMaskOntoElement style (applyBordersOntoElement style ''solid'' innerc))"

definition makeColumnsHashIntoArray :: "(string \<times> props) list \<Rightarrow> props list" where
  "makeColumnsHashIntoArray hash =
     map (\<lambda>(header, col). AList.update ''header'' (js_or (get_prop col ''header'') (JStr header)) col) hash"

subsection \<open>Paginators and filters\<close>

definition paginator_element :: "string \<Rightarrow> string \<Rightarrow> dom" where
  "paginator_element i cls =
     Node ''div'' [(''id'', JStr i), (''class'', JStr (''CIPaginator '' @ cls)),
       (''styles'', JObj [(''width'', JNum 400), (''height'', JNum 18), (''margin'', JStr ''0 auto 0 auto'')])] []"

definition filterset_element :: "string list \<Rightarrow> string \<Rightarrow> props \<Rightarrow> widget list \<Rightarrow> dom list \<times> string list" where
  "filterset_element ids i styles filters =
     (if i \<in> set ids then ([], ids)
      else case draw_children (ids @ [i]) filters of (cs, ids') \<Rightarrow>
        ([Node ''div'' [(''id'', JStr i), (''class'', JStr ''CIFilterSet''), (''styles'', JObj styles)] (concat cs)], ids'))"

subsection \<open>Lemmas\<close>






text \<open>The styles of a table are searched for \<open>eight\<close>, which \<open>font-weight\<close> has as well: the height of a table
  without a height is then computed, from a height that is no number.\<close>

lemma inner_height_font_weight: "inner_height [(''font-weight'', v)] (JStr ''auto'') th bh = JNaN"
proof -
  have "str_contains ''font-weight'' ''eight''" "toInt (JStr ''auto'') = JNaN" by code_simp+
  moreover have "js_minus JNaN v = JNaN" for v by (simp add: js_minus_def to_number_def to_prim_def)
  ultimately show ?thesis by (simp add: inner_height_def)
qed

subsection \<open>Properties\<close>



end
