(* ===== verification/Quote.thy ===== *)
theory Quote
  imports CI_Form
begin

section \<open>The quote pages\<close>

text \<open>
  \<open>getaquote.js\<close> runs on the public pages on which a visitor asks for a quote and buys a plan: it
  validates the two forms, computes the price and the payments of the selected plan with the
  coverages, the contract length and a discount, and applies discount codes.

  The page is the record \<open>qpage\<close>: the values of the elements by identifier (an identifier without an
  entry is not on the page), which are checked or disabled, their \<open>display\<close> styles and their texts,
  the radio buttons of the packages and of the contract lengths, the coverage check boxes, and the
  script's global variables. An element that is read is looked up; the elements that are only written
  are taken to be on the page. A number that is not one (\<open>NaN\<close>) is \<open>None\<close>; so is the result of a
  division by zero, which the language makes an infinity.
\<close>

subsection \<open>The page\<close>

record radio =
  ra_checked :: bool
  ra_value :: string
  ra_price :: string

record qpage =
  q_values :: "(string \<times> string) list"
  q_checked :: "string list"
  q_disabled :: "string list"
  q_display :: "(string \<times> string) list"
  q_texts :: "(string \<times> string) list"
  q_packages :: "radio list"
  q_contracts :: "radio list"
  q_coverages :: "radio list"
  gDiscountAmount :: "rat option"
  gDiscountCode :: string
  gCoverages :: props

definition value_of :: "string \<Rightarrow> qpage \<Rightarrow> js_error + string" where
  "value_of i pg = (case map_of (q_values pg) i of None \<Rightarrow> Inl TypeError | Some v \<Rightarrow> Inr v)"

definition put_value :: "string \<Rightarrow> string \<Rightarrow> qpage \<Rightarrow> qpage" where
  "put_value i v pg = pg\<lparr>q_values := AList.update i v (q_values pg)\<rparr>"

definition put_display :: "string \<Rightarrow> string \<Rightarrow> qpage \<Rightarrow> qpage" where
  "put_display i d pg = pg\<lparr>q_display := AList.update i d (q_display pg)\<rparr>"

definition put_text :: "string \<Rightarrow> string \<Rightarrow> qpage \<Rightarrow> qpage" where
  "put_text i t pg = pg\<lparr>q_texts := AList.update i t (q_texts pg)\<rparr>"

definition put_disabled :: "string \<Rightarrow> bool \<Rightarrow> qpage \<Rightarrow> qpage" where
  "put_disabled i b pg =
     pg\<lparr>q_disabled := (if b then arr_include (=) i (q_disabled pg) else filter (\<lambda>x. x \<noteq> i) (q_disabled pg))\<rparr>"

subsection \<open>Regular expressions\<close>

definition email_local_char :: "char \<Rightarrow> bool" where
  "email_local_char c = (is_upper_az c \<or> is_lower_az c \<or> is_digit c \<or> c \<in> set ''._%+-'')"

definition email_domain_char :: "char \<Rightarrow> bool" where
  "email_domain_char c = (is_upper_az c \<or> is_lower_az c \<or> is_digit c \<or> c \<in> set ''.-'')"

text \<open>\<open>gEmailRegexp\<close>: a local part, the sign, a domain, a dot and two to four letters.\<close>

definition gEmailRegexp :: "string \<Rightarrow> bool" where
  "gEmailRegexp s =
     (let lp = takeWhile (\<lambda>c. c \<noteq> CHR ''@'') s;
          rest = drop 1 (dropWhile (\<lambda>c. c \<noteq> CHR ''@'') s);
          tld = rev (takeWhile (\<lambda>c. c \<noteq> CHR ''.'') (rev rest));
          dmn = rev (drop 1 (dropWhile (\<lambda>c. c \<noteq> CHR ''.'') (rev rest)))
      in CHR ''@'' \<in> set s \<and> CHR ''.'' \<in> set rest \<and> lp \<noteq> [] \<and> list_all email_local_char lp \<and>
         dmn \<noteq> [] \<and> list_all email_domain_char dmn \<and>
         2 \<le> length tld \<and> length tld \<le> 4 \<and> list_all (\<lambda>c. is_upper_az c \<or> is_lower_az c) tld)"

text \<open>\<open>gStateRegexp\<close>: of its alternatives only the first is tied to the beginning, and only the last to
  the end; the others may occur anywhere. Case is ignored.\<close>

definition state_alternatives :: "(string \<times> string) list" where
  "state_alternatives =
     [(''A'', ''LKSZRAEP''), (''C'', ''AOT''), (''D'', ''EC''), (''F'', ''LM''), (''G'', ''AU''), (''H'', ''I''),
      (''I'', ''ADLN''), (''K'', ''SY''), (''L'', ''A''), (''M'', ''ADEHINOPST''), (''N'', ''CDEHJMVY''),
      (''O'', ''HKR''), (''P'', ''ARW''), (''R'', ''I''), (''S'', ''CD''), (''T'', ''NX''), (''U'', ''T''),
      (''V'', ''AIT''), (''W'', ''AIVY'')]"

definition codes_of :: "string \<times> string \<Rightarrow> string list" where
  "codes_of a = map (\<lambda>c. fst a @ [c]) (snd a)"

definition gStateRegexp :: "string \<Rightarrow> bool" where
  "gStateRegexp s0 =
     (let s = map to_upper_char s0
      in list_ex (\<lambda>p. starts_at p s) (codes_of (hd state_alternatives))
         \<or> list_ex (\<lambda>a. list_ex (\<lambda>p. index_of s p \<noteq> None) (codes_of a)) (butlast (tl state_alternatives))
         \<or> list_ex (\<lambda>p. starts_at (rev p) (rev s)) (codes_of (last state_alternatives)))"

subsection \<open>Validation\<close>

text \<open>A validator gives a message, or \<open>None\<close> for \<open>null\<close>, for every field.\<close>

definition validatePresenceOf :: "(string \<times> string) list \<Rightarrow> qpage \<Rightarrow> js_error + string option list" where
  "validatePresenceOf flds pg =
     mapE (\<lambda>(i, msg). bindE (value_of i pg) (\<lambda>v. Inr (if length (str_clean v) = 0 then Some msg else None))) flds"

definition validateLengthEquals :: "(string \<times> nat \<times> string) list \<Rightarrow> qpage \<Rightarrow> js_error + string option list" where
  "validateLengthEquals flds pg =
     mapE (\<lambda>(i, n, msg). bindE (value_of i pg) (\<lambda>v. Inr (if length (str_clean v) = n then None else Some msg))) flds"

definition validateLengthAtLeast :: "(string \<times> nat \<times> string) list \<Rightarrow> qpage \<Rightarrow> js_error + string option list" where
  "validateLengthAtLeast flds pg =
     mapE (\<lambda>(i, n, msg). bindE (value_of i pg) (\<lambda>v. Inr (if length (str_clean v) \<ge> n then None else Some msg))) flds"

definition validateChecked :: "(string list \<times> string) list \<Rightarrow> qpage \<Rightarrow> js_error + string option list" where
  "validateChecked flds pg =
     mapE (\<lambda>(group, msg).
        bindE (mapE (\<lambda>i. value_of i pg) group) (\<lambda>_.
          Inr (if list_ex (\<lambda>i. i \<in> set (q_checked pg)) group then None else Some msg))) flds"

definition validateMatches :: "(string \<times> (string \<Rightarrow> bool) \<times> string) list \<Rightarrow> qpage \<Rightarrow> js_error + string option list" where
  "validateMatches flds pg =
     mapE (\<lambda>(i, re, msg). bindE (value_of i pg) (\<lambda>v. Inr (if re v then None else Some msg))) flds"

definition validationAlert :: "string list \<Rightarrow> string" where
  "validationAlert messages =
     ''Your request could not be submitted. Please correct the following problems and try again:'' @ [CHR 0x0A, CHR 0x0A]
     @ concat (map (\<lambda>m. ''- '' @ m @ [CHR 0x0A]) messages)"

text \<open>The two forms: the form is submitted, or the messages are shown.\<close>

datatype verdict = Submitted qpage | Rejected "string list"

definition intro_messages :: "qpage \<Rightarrow> js_error + string option list" where
  "intro_messages pg =
     bindE (validatePresenceOf
       [(''intro_customer_first_name'', ''A First Name is required.''),
        (''intro_customer_last_name'', ''A Last Name is required.''),
        (''intro_customer_customer_phone'', ''A Phone Number is required.'')] pg) (\<lambda>m1.
     bindE (validateMatches
       [(''intro_customer_email'', gEmailRegexp, ''A valid Email Address is required.'')] pg) (\<lambda>m2.
     bindE (validateLengthEquals
       [(''intro_property_zip_code'', 5, ''A 5-digit Zip Code is required.''),
        (''intro_property_state'', 2, ''A valid US State abbreviation (two characters) is required.'')] pg) (\<lambda>m3.
     bindE (validateMatches
       [(''intro_property_state'', gStateRegexp, ''A valid US State abbreviation (two characters) is required.'')] pg) (\<lambda>m4.
       Inr (m1 @ m2 @ m3 @ m4)))))"

definition validateGetAQuoteIntroForm :: "qpage \<Rightarrow> js_error + verdict" where
  "validateGetAQuoteIntroForm pg =
     bindE (intro_messages pg) (\<lambda>ms.
       let messages = map the (filter (\<lambda>m. m \<noteq> None) ms)
       in Inr (if messages = [] then Submitted (put_disabled ''getaquoteintro_button'' True pg)
               else Rejected messages))"

definition form_messages :: "qpage \<Rightarrow> js_error + string option list" where
  "form_messages pg =
     bindE (validatePresenceOf
       [(''customer_first_name'', ''A First Name is required.''),
        (''customer_last_name'', ''A Last Name is required.''),
        (''customer_customer_phone'', ''A Phone Number is required.''),
        (''customer_billing_first_name'', ''A First Name for Billing is required.''),
        (''customer_billing_last_name'', ''A Last Name for Billing is required.''),
        (''billing_address_address'', ''An Address for Billing is required.''),
        (''billing_address_city'', ''A City for Billing is required.'')] pg) (\<lambda>m1.
     bindE (validateMatches
       [(''customer_email'', gEmailRegexp, ''A valid Email Address is required.'')] pg) (\<lambda>m2.
     bindE (validateLengthEquals
       [(''property_zip_code'', 5, ''The Property'' @ [CHR 0x27] @ ''s 5-digit Zip Code is required.''),
        (''billing_address_zip_code'', 5, ''A 5-digit Zip Code for Billing is required.'')] pg) (\<lambda>m3.
     bindE (validateChecked [([''tc_checkbox''], ''You must agree to the Terms and Conditions.'')] pg) (\<lambda>m4.
       Inr (m1 @ m2 @ m3 @ m4)))))"

definition validateGetAQuoteForm :: "qpage \<Rightarrow> js_error + verdict" where
  "validateGetAQuoteForm pg =
     bindE (form_messages pg) (\<lambda>ms.
       let messages = map the (filter (\<lambda>m. m \<noteq> None) ms);
           pg1 = (if gDiscountAmount pg = Some 0
                  then put_disabled ''applyDiscount_button'' True
                         (put_disabled ''discount_code'' True (put_value ''discount_code'' [] pg))
                  else pg)
       in Inr (if messages = [] then Submitted (put_disabled ''getaquote_button'' True pg1)
               else Rejected messages))"

definition copyBillingInfo :: "qpage \<Rightarrow> js_error + qpage" where
  "copyBillingInfo pg =
     foldE (\<lambda>pg (dst, src). bindE (value_of src pg) (\<lambda>v. Inr (put_value dst v pg))) pg
       [(''customer_billing_first_name'', ''customer_first_name''),
        (''customer_billing_last_name'', ''customer_last_name''),
        (''billing_address_address'', ''property_address''),
        (''billing_address_state'', ''property_state''),
        (''billing_address_city'', ''property_city''),
        (''billing_address_zip_code'', ''property_zip_code'')]"

subsection \<open>Prices\<close>

text \<open>\<open>each\<close> cannot be left early, so the last checked button is the selected one.\<close>

definition selected :: "radio list \<Rightarrow> radio option" where
  "selected rs = foldl (\<lambda>sel r. if ra_checked r then Some r else sel) None rs"

definition getSelectedPackagePrice :: "qpage \<Rightarrow> jsval" where
  "getSelectedPackagePrice pg =
     (case selected (q_packages pg) of None \<Rightarrow> JNull | Some r \<Rightarrow> num_val (parseFloat (ra_value r)))"

definition lift2 :: "(rat \<Rightarrow> rat \<Rightarrow> rat) \<Rightarrow> rat option \<Rightarrow> rat option \<Rightarrow> rat option" where
  "lift2 f a b = (case (a, b) of (Some x, Some y) \<Rightarrow> Some (f x y) | _ \<Rightarrow> None)"

definition js_div :: "rat option \<Rightarrow> rat option \<Rightarrow> rat option" where
  "js_div a b = (if b = Some 0 then None else lift2 (/) a b)"

definition dollars :: "rat option \<Rightarrow> string" where
  "dollars x = CHR ''$'' # to_string (num_val (map_option (num_round 2) x))"

record totals =
  t_price :: "rat option"
  t_savings :: "rat option"
  t_payments :: "int option"
  t_pay :: "rat option"

text \<open>The discount of a one-year contract: an amount up to one is a fraction, a larger one is dollars;
  there is none when twelve payments are made.\<close>

definition discounted :: "rat option \<Rightarrow> int option \<Rightarrow> rat option \<Rightarrow> rat option" where
  "discounted amount payments price =
     (case amount of
        None \<Rightarrow> if payments \<noteq> Some 12 then None else price
      | Some d \<Rightarrow>
          if d \<le> 0 then price
          else if payments \<noteq> Some 12
               then (if d \<le> 1 then lift2 (*) price (Some (1 - d)) else lift2 (-) price (Some d))
               else price)"

text \<open>The totals, from the yearly price of the package with its coverages.\<close>

definition totals_of :: "rat option \<Rightarrow> string \<Rightarrow> rat option \<Rightarrow> string \<Rightarrow> totals" where
  "totals_of base contract amount plan =
     (let total0 = lift2 (*) base (map_option of_int (parseInt contract))
      in if contract = ''1''
         then let dividend = parseFloat plan;
                  n = (case dividend of None \<Rightarrow> None | Some d \<Rightarrow> parseInt (num_to_string d));
                  price = discounted amount n total0
              in \<lparr>t_price = price, t_savings = Some 0, t_payments = n,
                  t_pay = map_option (num_round 2) (js_div price dividend)\<rparr>
         else let savings = lift2 (*) total0 (Some (13 / 100))
              in \<lparr>t_price = total0, t_savings = savings, t_payments = Some 1,
                  t_pay = map_option (num_round 2) (lift2 (-) total0 savings)\<rparr>)"

definition plan_base :: "radio \<Rightarrow> radio list \<Rightarrow> rat option" where
  "plan_base package coverages =
     foldl (\<lambda>t c. if ra_checked c then lift2 (+) t (parseFloat (ra_value c)) else t) (parseFloat (ra_price package)) coverages"

definition plan_totals :: "radio \<Rightarrow> radio \<Rightarrow> radio list \<Rightarrow> rat option \<Rightarrow> string \<Rightarrow> totals" where
  "plan_totals package contract coverages amount plan =
     totals_of (plan_base package coverages) (ra_value contract) amount plan"

text \<open>\<open>toFloat\<close> is a method of numbers and strings; for another price the handler throws.\<close>

definition has_toFloat :: "jsval \<Rightarrow> bool" where
  "has_toFloat v = (case v of JNum _ \<Rightarrow> True | JNaN \<Rightarrow> True | JStr _ \<Rightarrow> True | _ \<Rightarrow> False)"

definition price_label :: "string \<Rightarrow> string" where
  "price_label i = ''customer_coverage_type_'' @ i @ ''_label''"

definition read_prices :: "props \<Rightarrow> qpage \<Rightarrow> js_error + unit" where
  "read_prices packagePrices pg =
     (if list_all (\<lambda>(i, price). map_of (q_texts pg) (price_label i) \<noteq> None \<longrightarrow> has_toFloat price) packagePrices
      then Inr () else Inl TypeError)"

text \<open>\<open>updatePlanTotal\<close>, once the prices have arrived: nothing happens unless a package and a contract
  length are selected.\<close>

definition one_year_view :: "string \<Rightarrow> qpage \<Rightarrow> qpage" where
  "one_year_view blocking pg =
     (let pg1 = put_display ''discount_span'' ''inline'' (put_display ''price_tr'' ''none''
                  (put_display ''yourPrice_tr'' ''none'' (put_display ''savings_tr'' ''none''
                    (put_display ''eachPayment_tr'' blocking (put_display ''paymentPlan_tr'' blocking pg)))))
      in case gDiscountAmount pg of
           Some d \<Rightarrow>
             if d \<le> 0
             then put_value ''discount_code'' [] (put_disabled ''discount_code'' False (put_disabled ''applyDiscount_button'' False pg1))
             else put_disabled ''discount_code'' True (put_disabled ''applyDiscount_button'' True
                    (put_value ''discount_code'' (gDiscountCode pg) pg1))
         | None \<Rightarrow> put_disabled ''discount_code'' True (put_disabled ''applyDiscount_button'' True
                    (put_value ''discount_code'' (gDiscountCode pg) pg1)))"

definition multi_year_view :: "string \<Rightarrow> qpage \<Rightarrow> qpage" where
  "multi_year_view blocking pg =
     (let pg1 = put_display ''price_tr'' blocking (put_display ''yourPrice_tr'' blocking
                  (put_display ''savings_tr'' blocking (put_display ''eachPayment_tr'' ''none''
                    (put_display ''paymentPlan_tr'' ''none'' pg))))
      in if gDiscountAmount pg = Some 0
         then put_value ''discount_code'' ''MULTIYR'' (put_disabled ''applyDiscount_button'' True
                (put_disabled ''discount_code'' True pg1))
         else put_display ''discount_span'' ''none'' (put_value ''discount_code'' ''MULTIYR'' pg1))"

definition show_totals :: "totals \<Rightarrow> qpage \<Rightarrow> qpage" where
  "show_totals t pg =
     put_value ''customer_pay_amount'' (to_string (num_val (t_pay t)))
       (put_value ''customer_num_payments'' (to_string (num_val (map_option of_int (t_payments t))))
         (put_text ''eachPayment_td'' (CHR ''$'' # to_string (num_val (t_pay t)))
           (put_text ''priceYearly'' (dollars (lift2 (-) (t_price t) (t_savings t)))
             (put_text ''price'' (dollars (t_price t))
               (put_text ''savings'' (dollars (t_savings t)) pg)))))"

definition updatePlanTotal :: "bool \<Rightarrow> props \<Rightarrow> qpage \<Rightarrow> js_error + qpage" where
  "updatePlanTotal trident packagePrices pg = bindE (read_prices packagePrices pg) (\<lambda>_.
     case (selected (q_packages pg), selected (q_contracts pg)) of
        (Some package, Some contract) \<Rightarrow>
          let blocking = (if trident then ''block'' else ''table-row'')
          in if ra_value contract = ''1''
             then bindE (value_of ''payment_plan_select'' pg) (\<lambda>plan.
                    Inr (show_totals (plan_totals package contract (q_coverages pg) (gDiscountAmount pg) plan)
                           (one_year_view blocking pg)))
             else Inr (show_totals (plan_totals package contract (q_coverages pg) (gDiscountAmount pg) [])
                         (multi_year_view blocking pg))
      | _ \<Rightarrow> Inr pg)"

subsection \<open>Discounts\<close>

text \<open>\<open>applyDiscount\<close>: what is done (nothing, a message, or a request with parameters), and the handler of
  the response.\<close>

datatype discount_action = Ignored | Alert string | Ask props

definition applyDiscount :: "qpage \<Rightarrow> js_error + discount_action" where
  "applyDiscount pg =
     bindE (value_of ''payment_plan_select'' pg) (\<lambda>plan.
       if plan = ''12'' then Inr Ignored
       else bindE (validatePresenceOf
              [(''discount_code'', ''Please enter the Discount Code you wish to apply.'')] pg) (\<lambda>vs.
         if hd vs \<noteq> None then Inr (Alert (validationAlert (map the (filter (\<lambda>m. m \<noteq> None) vs))))
         else bindE (value_of ''discount_code'' pg) (\<lambda>code.
              bindE (value_of ''customer_id'' pg) (\<lambda>cust.
                let p = [(''discount_code'', JStr code)]
                in Inr (Ask (case parseInt cust of
                      None \<Rightarrow> p
                    | Some n \<Rightarrow> if n = 0 then p else AList.update ''id'' (JNum (of_int n)) p))))))"

definition discount_string :: "rat option \<Rightarrow> string" where
  "discount_string amount =
     (case amount of
        None \<Rightarrow> ''$NaN''
      | Some d \<Rightarrow> if d \<le> 1 then num_to_string (d * 100) @ ''%'' else CHR ''$'' # num_to_string (num_round 2 d))"

definition discount_onSuccess :: "bool \<Rightarrow> props \<Rightarrow> props \<Rightarrow> qpage \<Rightarrow> js_error + qpage \<times> string option" where
  "discount_onSuccess trident packagePrices response pg =
     (if truthy (get_prop response ''validated'') then
        bindE (value_of ''discount_code'' pg) (\<lambda>code.
          let amount = parseFloat (to_string (get_prop response ''validated''));
              pg1 = put_disabled ''discount_code'' True (put_disabled ''applyDiscount_button'' False
                      (put_text ''discount_span'' (''<br/>A '' @ discount_string amount @ '' discount has been applied.'')
                        ((put_value ''discount_id'' (stored_val (get_prop response ''discount_id'')) pg)
                           \<lparr>gDiscountCode := code, gDiscountAmount := amount\<rparr>)))
          in bindE (updatePlanTotal trident packagePrices pg1) (\<lambda>pg2. Inr (pg2, None)))
      else Inr (pg, Some (validationAlert [''The Discount Code you have entered is invalid.''])))"

definition interceptEnterForDiscounts :: "string \<Rightarrow> qpage \<Rightarrow> js_error + bool \<times> discount_action" where
  "interceptEnterForDiscounts key pg =
     (if key = ''enter'' then bindE (applyDiscount pg) (\<lambda>a. Inr (False, a)) else Inr (True, Ignored))"

text \<open>\<open>toggleCoverage\<close>: an identifier that is not in the table gives \<open>null\<close>, which is not \<open>== 0\<close>.\<close>

definition toggleCoverage :: "string \<Rightarrow> string \<Rightarrow> qpage \<Rightarrow> qpage" where
  "toggleCoverage i v pg =
     pg\<lparr>gCoverages :=
        (if js_eq (hash_get (gCoverages pg) i) (JNum 0)
         then hash_set i (num_val (parseFloat v)) (gCoverages pg)
         else hash_set i (JNum 0) (gCoverages pg))\<rparr>"

subsection \<open>Lemmas\<close>

lemma selected_None: "selected rs = None \<longleftrightarrow> \<not> list_ex ra_checked rs"
  by (induction rs rule: rev_induct) (auto simp: selected_def)

text \<open>The price of the package and of the checked coverages, when all are numbers.\<close>

definition priced :: "radio list \<Rightarrow> bool" where
  "priced cs = list_all (\<lambda>c. parseFloat (ra_value c) \<noteq> None) cs"

definition coverage_sum :: "radio list \<Rightarrow> rat" where
  "coverage_sum cs = sum_list (map (\<lambda>c. the (parseFloat (ra_value c))) (filter ra_checked cs))"

lemma coverages_total:
  "priced cs \<Longrightarrow>
   foldl (\<lambda>t c. if ra_checked c then lift2 (+) t (parseFloat (ra_value c)) else t) (Some b) cs = Some (b + coverage_sum cs)"
proof (induction cs arbitrary: b)
  case (Cons c cs)
  then obtain v where "parseFloat (ra_value c) = Some v" by (auto simp: priced_def)
  with Cons show ?case by (simp add: priced_def lift2_def coverage_sum_def algebra_simps)
qed (simp add: coverage_sum_def)

lemma mapE_Inr_list_all:
  "mapE f xs = Inr ys \<Longrightarrow> (\<forall>y\<in>set ys. P y) \<longleftrightarrow> (\<forall>x\<in>set xs. \<exists>y. f x = Inr y \<and> P y)"
  by (induction xs arbitrary: ys) (auto simp: err_simps)

text \<open>The field values the first form wants.\<close>

definition blank :: "string \<Rightarrow> bool" where
  "blank s = list_all is_space s"

definition us_codes :: "string list" where
  "us_codes = concat (map codes_of state_alternatives)"

lemma us_codes_two: "c \<in> set us_codes \<Longrightarrow> length c = 2"
  by (auto simp: us_codes_def codes_of_def state_alternatives_def)

lemma starts_at_full: "length p = length s \<Longrightarrow> starts_at p s \<longleftrightarrow> s = p"
  by (auto simp: starts_at_def)

lemma index_of_full: "length p = length s \<Longrightarrow> index_of s p \<noteq> None \<longleftrightarrow> s = p"
proof
  assume l: "length p = length s" and "index_of s p \<noteq> None"
  then obtain i where "index_of s p = Some i" by auto
  from index_of_Some [OF this] have "s = take i s @ p @ drop (i + length p) s" "i = 0" using l by auto
  with l show "s = p" by simp
next
  assume "length p = length s" "s = p"
  then show "index_of s p \<noteq> None" by (cases s) (auto simp: starts_at_def)
qed

text \<open>On a value of two characters the anchors do not matter.\<close>

lemma gStateRegexp_two:
  assumes "length s = 2"
  shows "gStateRegexp s \<longleftrightarrow> map to_upper_char s \<in> set us_codes"
proof -
  let ?u = "map to_upper_char s"
  have a: "starts_at p ?u \<longleftrightarrow> ?u = p" "index_of ?u p \<noteq> None \<longleftrightarrow> ?u = p"
    "starts_at (rev p) (rev ?u) \<longleftrightarrow> ?u = p" if "length p = 2" for p
    using that assms index_of_full [of p ?u] starts_at_full [of p ?u] starts_at_full [of "rev p" "rev ?u"]
    by simp_all
  have two: "p \<in> set (codes_of x) \<Longrightarrow> x \<in> set state_alternatives \<Longrightarrow> length p = 2" for p x
    using us_codes_two by (auto simp: us_codes_def)
  have split: "state_alternatives = hd state_alternatives # butlast (tl state_alternatives) @ [last state_alternatives]"
    by (simp add: state_alternatives_def)
  have codes: "set us_codes = set (codes_of (hd state_alternatives))
      \<union> (\<Union>x\<in>set (butlast (tl state_alternatives)). set (codes_of x)) \<union> set (codes_of (last state_alternatives))"
    unfolding us_codes_def by (subst split) auto
  have "x \<in> set state_alternatives"
    if "x = hd state_alternatives \<or> x \<in> set (butlast (tl state_alternatives)) \<or> x = last state_alternatives" for x
    using that by (subst split) auto
  note mem = this
  have e: "list_ex (\<lambda>p. starts_at p ?u) (codes_of x) \<longleftrightarrow> ?u \<in> set (codes_of x)"
    "list_ex (\<lambda>p. index_of ?u p \<noteq> None) (codes_of x) \<longleftrightarrow> ?u \<in> set (codes_of x)"
    "list_ex (\<lambda>p. starts_at (rev p) (rev ?u)) (codes_of x) \<longleftrightarrow> ?u \<in> set (codes_of x)"
    if "x \<in> set state_alternatives" for x
    using a two [OF _ that] unfolding list_ex_iff by metis+
  have "list_ex (\<lambda>x. list_ex (\<lambda>p. index_of ?u p \<noteq> None) (codes_of x)) (butlast (tl state_alternatives))
      \<longleftrightarrow> (\<exists>x\<in>set (butlast (tl state_alternatives)). ?u \<in> set (codes_of x))"
    using e(2) mem unfolding list_ex_iff by blast
  with e(1) [of "hd state_alternatives"] e(3) [of "last state_alternatives"] mem codes
  show ?thesis unfolding gStateRegexp_def Let_def by blast
qed

lemma js_div_Some: "c \<noteq> 0 \<Longrightarrow> js_div (Some a) (Some c) = Some (a / c)"
  by (simp add: js_div_def lift2_def)

lemma discounted_Some:
  "discounted (Some d) (Some n) (Some p) =
     Some (if n = 12 \<or> d \<le> 0 then p else if d \<le> 1 then p * (1 - d) else p - d)"
  by (simp add: discounted_def lift2_def)

lemma parse_decimal_nat_digits [simp]: "parse_decimal (nat_digits n) = Some (of_nat n, [])"
proof -
  obtain c cs where s: "nat_digits n = c # cs" by (cases "nat_digits n") auto
  have "is_digit c" using nat_digits_digits [of n] s by simp
  then have "parse_sign (nat_digits n) = (1, nat_digits n)"
    by (auto simp: s parse_sign_def is_digit_def)
  then show ?thesis
    by (simp add: parse_decimal_def takeWhile_digits dropWhile_digits nat_digits_digits Let_def parse_exponent_def)
qed

lemma parseFloat_nat_digits [simp]: "parseFloat (nat_digits n) = Some (of_nat n)"
proof -
  obtain c cs where s: "nat_digits n = c # cs" by (cases "nat_digits n") auto
  have "is_digit c" using nat_digits_digits [of n] s by simp
  then have "dropWhile is_space (nat_digits n) = nat_digits n" by (auto simp: s is_digit_def is_space_def)
  then show ?thesis by (simp add: parseFloat_def)
qed

lemma num_to_string_of_nat [simp]: "num_to_string (of_nat n) = nat_digits n"
  by (simp add: num_to_string_def)

subsection \<open>Properties\<close>

text \<open>Property C29. The first form is submitted exactly when the names and the phone number are not blank,
  the address passes the pattern, the zip code has five characters and the state is one of the
  abbreviations, in any case; otherwise the visitor is told. (The state is given without white
  space.)\<close>

theorem intro_form_verdict:
  assumes "value_of ''intro_customer_first_name'' pg = Inr fn" "value_of ''intro_customer_last_name'' pg = Inr lname"
    and "value_of ''intro_customer_customer_phone'' pg = Inr ph" "value_of ''intro_customer_email'' pg = Inr em"
    and "value_of ''intro_property_zip_code'' pg = Inr zipc" "value_of ''intro_property_state'' pg = Inr stt"
    and "str_clean stt = stt"
  shows "\<exists>r. validateGetAQuoteIntroForm pg = Inr r \<and>
           ((\<exists>pg'. r = Submitted pg') \<longleftrightarrow>
              \<not> blank fn \<and> \<not> blank lname \<and> \<not> blank ph \<and> gEmailRegexp em \<and> length (str_clean zipc) = 5 \<and>
              map to_upper_char stt \<in> set us_codes)"
proof -
  have st: "length stt = 2 \<and> gStateRegexp stt \<longleftrightarrow> map to_upper_char stt \<in> set us_codes"
    using gStateRegexp_two [of stt] us_codes_two [of "map to_upper_char stt"] by auto
  have b: "str_clean v = [] \<longleftrightarrow> blank v" for v by (simp add: str_clean_Nil_iff blank_def)
  show ?thesis
    unfolding st [symmetric] b [symmetric]
    using assms
    by (auto simp: validateGetAQuoteIntroForm_def intro_messages_def validatePresenceOf_def validateMatches_def
        validateLengthEquals_def Let_def)
qed

definition sample_page :: qpage where
  "sample_page =
     \<lparr>q_values = [(''intro_customer_first_name'', ''Ann''), (''intro_customer_last_name'', ''Lee''),
        (''intro_customer_customer_phone'', ''555''), (''intro_customer_email'', ''a@b.com''),
        (''intro_property_zip_code'', ''07030''), (''intro_property_state'', ''nj'')],
      q_checked = [], q_disabled = [], q_display = [], q_texts = [], q_packages = [], q_contracts = [],
      q_coverages = [], gDiscountAmount = Some 0, gDiscountCode = [], gCoverages = []\<rparr>"

lemma sample_page_checks:
  "gEmailRegexp ''a@b.com''" "length (str_clean ''07030'') = 5" "str_clean ''nj'' = ''nj''"
  "map to_upper_char ''nj'' \<in> set us_codes" "\<not> blank ''Ann''" "\<not> blank ''Lee''" "\<not> blank ''555''"
  by code_simp+

theorem intro_form_verdict_witness:
  "\<exists>pg'. validateGetAQuoteIntroForm sample_page = Inr (Submitted pg')"
  using intro_form_verdict [of sample_page "''Ann''" "''Lee''" "''555''" "''a@b.com''" "''07030''" "''nj''"]
    sample_page_checks
  by (auto simp: value_of_def sample_page_def)

text \<open>The pattern for states accepts any text that holds an abbreviation somewhere, such as
  one of the state of New York: the anchors bind to the first and the last alternative only.\<close>

lemma state_pattern_unanchored: "gStateRegexp (a @ ''NY'' @ b)"
proof -
  have "index_of (map to_upper_char (a @ ''NY'' @ b)) ''NY'' \<noteq> None"
    by (auto simp: index_of_None to_upper_char_def)
  moreover have "(''N'', ''CDEHJMVY'') \<in> set (butlast (tl state_alternatives))" "''NY'' \<in> set (codes_of (''N'', ''CDEHJMVY''))"
    by (simp_all add: state_alternatives_def codes_of_def)
  ultimately show ?thesis
    unfolding gStateRegexp_def Let_def list_ex_iff by blast
qed

text \<open>Property C28. The price of a one-year plan is the package and the checked coverages, less the
  discount: none for twelve payments, a fraction of the price for an amount up to one, and dollars
  above. Each payment is within half a cent of the price over the number of payments. (An amount of
  one dollar counts as the whole price.)\<close>

theorem one_year_price:
  assumes "parseFloat (ra_price pk) = Some b" "priced cs" "ra_value ct = ''1''" "0 < n"
  shows "\<exists>t pay. plan_totals pk ct cs (Some d) (nat_digits n) = t \<and>
           t_price t = Some (let p = b + coverage_sum cs
                             in if n = 12 \<or> d \<le> 0 then p else if d \<le> 1 then p * (1 - d) else p - d) \<and>
           t_payments t = Some (int n) \<and> t_savings t = Some 0 \<and>
           t_pay t = Some pay \<and> \<bar>pay - the (t_price t) / of_nat n\<bar> \<le> 1 / 200"
proof -
  let ?p = "b + coverage_sum cs"
  let ?q = "if n = 12 \<or> d \<le> 0 then ?p else if d \<le> 1 then ?p * (1 - d) else ?p - d"
  have "parseInt ''1'' = Some 1" by code_simp
  then have t: "plan_totals pk ct cs (Some d) (nat_digits n) =
      \<lparr>t_price = Some ?q, t_savings = Some 0, t_payments = Some (int n), t_pay = Some (num_round 2 (?q / of_nat n))\<rparr>"
    using assms
    by (simp add: plan_totals_def plan_base_def totals_of_def Let_def coverages_total lift2_def discounted_Some js_div_Some)
  have "\<bar>num_round 2 (?q / of_nat n) - ?q / of_nat n\<bar> \<le> 1 / (2 * 10 ^ 2)" by (rule num_round_error)
  then show ?thesis
    unfolding t by (simp add: Let_def)
qed

theorem one_year_price_witness:
  "\<exists>t pay. plan_totals \<lparr>ra_checked = True, ra_value = [], ra_price = nat_digits 400\<rparr>
       \<lparr>ra_checked = True, ra_value = ''1'', ra_price = []\<rparr>
       [\<lparr>ra_checked = True, ra_value = nat_digits 50, ra_price = []\<rparr>] (Some (1 / 10)) (nat_digits 3) = t \<and>
     t_price t = Some 405 \<and> t_pay t = Some pay \<and> \<bar>pay - 135\<bar> \<le> 1 / 200"
  using one_year_price [of "\<lparr>ra_checked = True, ra_value = [], ra_price = nat_digits 400\<rparr>" 400
      "[\<lparr>ra_checked = True, ra_value = nat_digits 50, ra_price = []\<rparr>]"
      "\<lparr>ra_checked = True, ra_value = ''1'', ra_price = []\<rparr>" 3 "1 / 10"]
  by (auto simp: priced_def coverage_sum_def Let_def)

text \<open>A plan of several years costs its yearly price times the years, less thirteen percent,
  in one payment; a discount code changes nothing.\<close>

lemma multi_year_price:
  assumes "parseFloat (ra_price pk) = Some b" "priced cs" "ra_value ct = nat_digits k" "k \<noteq> 1"
  shows "plan_totals pk ct cs amount plan =
           (let p = (b + coverage_sum cs) * of_nat k
            in \<lparr>t_price = Some p, t_savings = Some (p * (13 / 100)), t_payments = Some 1,
                t_pay = Some (num_round 2 (p - p * (13 / 100)))\<rparr>)"
proof -
  have "nat_digits 1 = ''1''" by code_simp
  then have "nat_digits k \<noteq> ''1''" using assms(4) by (metis nat_digits_inject)
  with assms show ?thesis
    by (simp add: plan_totals_def plan_base_def totals_of_def Let_def coverages_total lift2_def mult.commute)
qed

end
