(* ===== verification/Quote_Ports.thy ===== *)
theory Quote_Ports
  imports Quote
begin

section \<open>The other versions of the quote page\<close>

text \<open>
  Two more scripts do the work of \<open>getaquote.js\<close> on other pages: \<open>nhw.js\<close>, which takes the price of the
  package from the answer of the server and asks for more fields, and \<open>getaquote_jquery.js\<close> (with
  \<open>affilates.js\<close>), in which \<open>$\<close> is jQuery. What is the same as in \<open>getaquote.js\<close> is taken from there;
  the definitions here are the parts that differ, and the properties compare the versions.

  A jQuery selector finds the element with an identifier when it is written with \<open>#\<close>; without, it is the
  name of a tag that no element has. An empty selection has no value (reading a property of it throws),
  and setting a value or a style of it does nothing; \<open>disabled\<close> and \<open>checked\<close> are not properties of a
  selection at all.
\<close>

subsection \<open>The page of \<open>nhw.js\<close>\<close>

definition nhw_intro_messages :: "qpage \<Rightarrow> js_error + string option list" where
  "nhw_intro_messages pg =
     bindE (validatePresenceOf
       [(''intro_customer_first_name'', ''A First Name is required.''),
        (''intro_customer_last_name'', ''A Last Name is required.''),
        (''intro_property_address'', ''An Address is required.''),
        (''intro_property_city'', ''A City is required.''),
        (''intro_customer_customer_phone'', ''A Phone Number is required.'')] pg) (\<lambda>m1.
     bindE (validateMatches
       [(''intro_customer_email'', gEmailRegexp, ''A valid Email Address is required.'')] pg) (\<lambda>m2.
     bindE (validateLengthEquals
       [(''intro_property_zip_code'', 5, ''A 5-digit Zip Code is required.'')] pg) (\<lambda>m3.
       Inr (m1 @ m2 @ m3))))"

definition nhw_validateGetAQuoteIntroForm :: "qpage \<Rightarrow> js_error + verdict" where
  "nhw_validateGetAQuoteIntroForm pg =
     bindE (nhw_intro_messages pg) (\<lambda>ms.
       let messages = map the (filter (\<lambda>m. m \<noteq> None) ms)
       in Inr (if messages = [] then Submitted (put_disabled ''getaquoteintro_button'' True pg) else Rejected messages))"

definition nhw_form_messages :: "qpage \<Rightarrow> js_error + string option list" where
  "nhw_form_messages pg =
     bindE (validatePresenceOf
       [(''customer_first_name'', ''A First Name is required.''),
        (''customer_last_name'', ''A Last Name is required.''),
        (''customer_customer_phone'', ''A Phone Number is required.''),
        (''customer_billing_first_name'', ''A First Name for Billing is required.''),
        (''customer_billing_last_name'', ''A Last Name for Billing is required.''),
        (''property_address'', ''The Property'' @ [CHR 0x27] @ ''s Address is required.''),
        (''property_city'', ''The Property'' @ [CHR 0x27] @ ''s City is required.''),
        (''billing_address_address'', ''An Address for Billing is required.''),
        (''billing_address_city'', ''A City for Billing is required.'')] pg) (\<lambda>m1.
     bindE (validateMatches
       [(''customer_email'', gEmailRegexp, ''A valid Email Address is required.'')] pg) (\<lambda>m2.
     bindE (validateLengthEquals
       [(''property_zip_code'', 5, ''The Property'' @ [CHR 0x27] @ ''s 5-digit Zip Code is required.''),
        (''billing_address_zip_code'', 5, ''A 5-digit Zip Code for Billing is required.'')] pg) (\<lambda>m3.
     bindE (validateChecked
       [([''customer_coverage_type_1'', ''customer_coverage_type_2'', ''customer_coverage_type_3'', ''customer_coverage_type_4''],
           ''You must select a Package.''),
        ([''tc_checkbox''], ''You must agree to the Terms and Conditions.'')] pg) (\<lambda>m4.
       Inr (m1 @ m2 @ m3 @ m4)))))"

definition nhw_validateGetAQuoteForm :: "qpage \<Rightarrow> js_error + verdict" where
  "nhw_validateGetAQuoteForm pg =
     bindE (nhw_form_messages pg) (\<lambda>ms.
       let messages = map the (filter (\<lambda>m. m \<noteq> None) ms);
           pg1 = (if gDiscountAmount pg = Some 0
                  then put_disabled ''applyDiscount_button'' True
                         (put_disabled ''discount_code'' True (put_value ''discount_code'' [] pg))
                  else pg)
       in Inr (if messages = [] then Submitted (put_disabled ''getaquote_button'' True pg1)
               else Rejected messages))"





subsection \<open>The page of \<open>getaquote_jquery.js\<close>\<close>

definition jq_read :: "string \<Rightarrow> qpage \<Rightarrow> js_error + string" where
  "jq_read sel pg = (case sel of [] \<Rightarrow> Inl TypeError | c # i \<Rightarrow> if c = CHR ''#'' then value_of i pg else Inl TypeError)"

definition jq_put :: "string \<Rightarrow> string \<Rightarrow> qpage \<Rightarrow> qpage" where
  "jq_put sel v pg = (case sel of [] \<Rightarrow> pg | c # i \<Rightarrow> if c = CHR ''#'' then put_value i v pg else pg)"

definition jq_validatePresenceOf :: "(string \<times> string) list \<Rightarrow> qpage \<Rightarrow> js_error + string option list" where
  "jq_validatePresenceOf flds pg =
     mapE (\<lambda>(i, msg). bindE (jq_read i pg) (\<lambda>v. Inr (if length v = 0 then Some msg else None))) flds"

definition jq_validateLengthEquals :: "(string \<times> nat \<times> string) list \<Rightarrow> qpage \<Rightarrow> js_error + string option list" where
  "jq_validateLengthEquals flds pg =
     mapE (\<lambda>(i, n, msg). bindE (jq_read i pg) (\<lambda>v. Inr (if length v = n then None else Some msg))) flds"

definition jq_validateLengthAtLeast :: "(string \<times> nat \<times> string) list \<Rightarrow> qpage \<Rightarrow> js_error + string option list" where
  "jq_validateLengthAtLeast flds pg =
     mapE (\<lambda>(i, n, msg). bindE (jq_read i pg) (\<lambda>v. Inr (if length v \<ge> n then None else Some msg))) flds"

text \<open>\<open>checked\<close> of a selection is undefined, which is not \<open>==\<close> to the empty string.\<close>

definition jq_validateChecked :: "(string list \<times> string) list \<Rightarrow> qpage \<Rightarrow> js_error + string option list" where
  "jq_validateChecked flds pg =
     Inr (map (\<lambda>(group, msg).
       if list_ex (\<lambda>_. \<not> js_eq JUndef (JStr []) \<or> \<not> js_eq JUndef (JBool False)) group then None else Some msg) flds)"

definition jq_validateMatches :: "(string \<times> (string \<Rightarrow> bool) \<times> string) list \<Rightarrow> qpage \<Rightarrow> js_error + string option list" where
  "jq_validateMatches flds pg =
     mapE (\<lambda>(i, re, msg). bindE (jq_read i pg) (\<lambda>v. Inr (if re v then None else Some msg))) flds"

definition jq_intro_messages :: "qpage \<Rightarrow> js_error + string option list" where
  "jq_intro_messages pg =
     bindE (jq_validatePresenceOf
       [(''#intro_customer_first_name'', ''A First Name is required.''),
        (''#intro_customer_last_name'', ''A Last Name is required.''),
        (''#intro_customer_customer_phone'', ''A Phone Number is required.'')] pg) (\<lambda>m1.
     bindE (jq_validateMatches
       [(''#intro_customer_email'', gEmailRegexp, ''A valid Email Address is required.'')] pg) (\<lambda>m2.
     bindE (jq_validateLengthEquals
       [(''#intro_property_zip_code'', 5, ''A 5-digit Zip Code is required.'')] pg) (\<lambda>m3.
     bindE (jq_validateMatches
       [(''#intro_property_state'', gStateRegexp, ''A valid US State abbreviation (two characters) is required.'')] pg) (\<lambda>m4.
       Inr (m1 @ m2 @ m3 @ m4)))))"

text \<open>The button is not disabled: \<open>disabled\<close> is set on the selection.\<close>

definition jq_validateGetAQuoteIntroForm :: "qpage \<Rightarrow> js_error + verdict" where
  "jq_validateGetAQuoteIntroForm pg =
     bindE (jq_intro_messages pg) (\<lambda>ms.
       let messages = map the (filter (\<lambda>m. m \<noteq> None) ms)
       in Inr (if messages = [] then Submitted pg else Rejected messages))"

definition jq_form_messages :: "qpage \<Rightarrow> js_error + string option list" where
  "jq_form_messages pg =
     bindE (jq_validatePresenceOf
       [(''#customer_first_name'', ''A First Name is required.''),
        (''#customer_last_name'', ''A Last Name is required.''),
        (''#customer_customer_phone'', ''A Phone Number is required.''),
        (''#customer_billing_first_name'', ''A First Name for Billing is required.''),
        (''#customer_billing_last_name'', ''A Last Name for Billing is required.''),
        (''#billing_address_address'', ''An Address for Billing is required.''),
        (''#billing_address_city'', ''A City for Billing is required.'')] pg) (\<lambda>m1.
     bindE (jq_validateMatches
       [(''customer_email'', gEmailRegexp, ''A valid Email Address is required.'')] pg) (\<lambda>m2.
     bindE (jq_validateLengthEquals
       [(''#property_zip_code'', 5, ''The Property'' @ [CHR 0x27] @ ''s 5-digit Zip Code is required.''),
        (''#billing_address_zip_code'', 5, ''A 5-digit Zip Code for Billing is required.'')] pg) (\<lambda>m3.
     bindE (jq_validateChecked [([''tc_checkbox''], ''You must agree to the Terms and Conditions.'')] pg) (\<lambda>m4.
       Inr (m1 @ m2 @ m3 @ m4)))))"

definition jq_validateGetAQuoteForm :: "qpage \<Rightarrow> js_error + verdict" where
  "jq_validateGetAQuoteForm pg =
     bindE (jq_form_messages pg) (\<lambda>ms.
       let messages = map the (filter (\<lambda>m. m \<noteq> None) ms);
           pg1 = (if gDiscountAmount pg = Some 0 then jq_put ''discount_code'' [] pg else pg)
       in Inr (if messages = [] then Submitted pg1 else Rejected messages))"

text \<open>Every selector here lacks the \<open>#\<close>; the values read are undefined, and setting them does nothing.\<close>

definition jq_copyBillingInfo :: "qpage \<Rightarrow> qpage" where
  "jq_copyBillingInfo pg =
     fold (\<lambda>sel pg. jq_put sel [] pg)
       [''customer_billing_first_name'', ''customer_billing_last_name'', ''billing_address_address'', ''billing_address_state'',
        ''billing_address_city'', ''billing_address_zip_code''] pg"

text \<open>The payment plan is looked up without \<open>#\<close>, so it is never \<open>== '12'\<close>.\<close>

definition jq_applyDiscount :: "qpage \<Rightarrow> js_error + discount_action" where
  "jq_applyDiscount pg =
     bindE (jq_validatePresenceOf
       [(''#discount_code'', ''Please enter the Discount Code you wish to apply.'')] pg) (\<lambda>vs.
       if hd vs \<noteq> None then Inr (Alert (validationAlert (map the (filter (\<lambda>m. m \<noteq> None) vs))))
       else bindE (jq_read ''#discount_code'' pg) (\<lambda>code.
            bindE (jq_read ''#customer_id'' pg) (\<lambda>cust.
              let p = [(''discount_code'', JStr code)]
              in Inr (Ask (case parseInt cust of
                    None \<Rightarrow> p
                  | Some n \<Rightarrow> if n = 0 then p else AList.update ''id'' (JNum (of_int n)) p)))))"





text \<open>\<open>affilates.js\<close> has the same first form.\<close>

definition validateAffiliatesIntroForm :: "qpage \<Rightarrow> js_error + verdict" where
  "validateAffiliatesIntroForm pg =
     bindE (jq_validatePresenceOf
       [(''#intro_customer_first_name'', ''A First Name is required.''),
        (''#intro_customer_last_name'', ''A Last Name is required.''),
        (''#intro_customer_customer_phone'', ''A Phone Number is required.'')] pg) (\<lambda>m1.
     bindE (jq_validateMatches
       [(''#intro_customer_email'', gEmailRegexp, ''A valid Email Address is required.'')] pg) (\<lambda>m2.
     bindE (jq_validateLengthEquals
       [(''#intro_property_zip_code'', 5, ''A 5-digit Zip Code is required.'')] pg) (\<lambda>m3.
     bindE (jq_validateMatches
       [(''#intro_property_state'', gStateRegexp, ''A valid US State abbreviation (two characters) is required.'')] pg) (\<lambda>m4.
       let messages = map the (filter (\<lambda>m. m \<noteq> None) (m1 @ m2 @ m3 @ m4))
       in Inr (if messages = [] then Submitted pg else Rejected messages)))))"

subsection \<open>Lemmas\<close>



lemma put_text_keeps [simp]:
  "q_packages (put_text i v pg) = q_packages pg" "q_contracts (put_text i v pg) = q_contracts pg"
  "q_coverages (put_text i v pg) = q_coverages pg" "gDiscountAmount (put_text i v pg) = gDiscountAmount pg"
  "value_of k (put_text i v pg) = value_of k pg"
  by (simp_all add: put_text_def value_of_def)



text \<open>The check boxes of the page are never looked at.\<close>

lemma jq_checked_passes: "list_all (\<lambda>(group, msg). group \<noteq> []) flds \<Longrightarrow> jq_validateChecked flds pg = Inr (map (\<lambda>_. None) flds)"
  by (auto simp: jq_validateChecked_def js_eq_def list_ex_iff list_all_iff neq_Nil_conv)

lemma nhw_intro_verdict:
  assumes "value_of ''intro_customer_first_name'' pg = Inr fn" "value_of ''intro_customer_last_name'' pg = Inr lname"
    and "value_of ''intro_property_address'' pg = Inr addr" "value_of ''intro_property_city'' pg = Inr city"
    and "value_of ''intro_customer_customer_phone'' pg = Inr ph" "value_of ''intro_customer_email'' pg = Inr em"
    and "value_of ''intro_property_zip_code'' pg = Inr zipc"
  shows "\<exists>r. nhw_validateGetAQuoteIntroForm pg = Inr r \<and>
           ((\<exists>pg'. r = Submitted pg') \<longleftrightarrow>
              \<not> blank fn \<and> \<not> blank lname \<and> \<not> blank addr \<and> \<not> blank city \<and> \<not> blank ph \<and> gEmailRegexp em \<and> length (str_clean zipc) = 5)"
  using assms
  by (auto simp: nhw_validateGetAQuoteIntroForm_def nhw_intro_messages_def validatePresenceOf_def validateMatches_def
      validateLengthEquals_def Let_def str_clean_Nil_iff blank_def)

lemma affiliates_same_form: "validateAffiliatesIntroForm pg = jq_validateGetAQuoteIntroForm pg"
  by (cases "jq_intro_messages pg")
     (auto simp: validateAffiliatesIntroForm_def jq_validateGetAQuoteIntroForm_def jq_intro_messages_def err_simps)

subsection \<open>Properties\<close>



text \<open>On a page without stray white space, the first form of \<open>getaquote.js\<close> is submitted exactly when
  the one of the jQuery version is and the state has two characters.\<close>

lemma jq_intro_weaker:
  assumes "value_of ''intro_customer_first_name'' pg = Inr fn" "value_of ''intro_customer_last_name'' pg = Inr lname"
    and "value_of ''intro_customer_customer_phone'' pg = Inr ph" "value_of ''intro_customer_email'' pg = Inr em"
    and "value_of ''intro_property_zip_code'' pg = Inr zipc" "value_of ''intro_property_state'' pg = Inr stt"
    and "list_all (\<lambda>v. str_clean v = v) [fn, lname, ph, zipc, stt]"
  shows "\<exists>moo jq. validateGetAQuoteIntroForm pg = Inr moo \<and> jq_validateGetAQuoteIntroForm pg = Inr jq \<and>
           ((\<exists>pg'. moo = Submitted pg') \<longleftrightarrow> jq = Submitted pg \<and> length stt = 2)"
  using assms
  by (simp add: validateGetAQuoteIntroForm_def intro_messages_def validatePresenceOf_def validateMatches_def
      validateLengthEquals_def jq_validateGetAQuoteIntroForm_def jq_intro_messages_def jq_validatePresenceOf_def
      jq_validateMatches_def jq_validateLengthEquals_def jq_read_def Let_def)

text \<open>In the jQuery version the form of the purchase is never submitted: its handler throws on every
  page, whatever is filled in.\<close>

lemma jq_purchase_throws:
  "jq_validateGetAQuoteForm pg = Inl TypeError \<and> jq_copyBillingInfo pg = pg"
proof -
  have "jq_validateMatches [(''customer_email'', re, msg)] pg = Inl TypeError" for re msg
    by (simp add: jq_validateMatches_def jq_read_def)
  moreover have "jq_validatePresenceOf flds pg = Inl e \<Longrightarrow> e = TypeError" for flds e
    unfolding jq_validatePresenceOf_def
    by (induction flds) (auto simp: err_simps jq_read_def value_of_def split: list.splits if_splits option.splits)
  ultimately have "jq_form_messages pg = Inl TypeError"
    unfolding jq_form_messages_def by (auto split: sum.splits simp: bindE_Inl_iff) (metis sum.exhaust)
  then show ?thesis by (simp add: jq_validateGetAQuoteForm_def jq_copyBillingInfo_def jq_put_def)
qed

end
