(* ===== verification/Admin.thy ===== *)
theory Admin
  imports CI_Table CI_Button
begin

section \<open>The administration pages\<close>

text \<open>
  \<open>admin.js\<close>: the columns of the customer lists, the editing of texts in place, the editor of page
  contents, the quick email, the faxes, the form that relates customers, and the small functions
  of these pages. The columns are columns of \<open>CITable\<close>; what waits for the server is a step relation
  whose steps are the actions of the user and the answers.
\<close>

subsection \<open>The columns of the customer lists\<close>

abbreviation dq :: string where
  "dq \<equiv> [CHR 0x22]"

abbreviation sq :: string where
  "sq \<equiv> [CHR 0x27]"

definition html_cell :: "string \<Rightarrow> string list \<Rightarrow> rendered" where
  "html_cell html td_classes = \<lparr>rd_content = JStr html, rd_td = td_classes, rd_tr = []\<rparr>"

definition field :: "jsval \<Rightarrow> string \<Rightarrow> jsval" where
  "field r k = (case r of JObj p \<Rightarrow> get_prop p k | _ \<Rightarrow> JUndef)"

text \<open>A renderer is called with the value, the record, the table, its data, the cell and the row. The
  renderers that mark a record take the cell for the row.\<close>

definition edit_renderer :: "jsval \<Rightarrow> jsval \<Rightarrow> rendered" where
  "edit_renderer i customer = html_cell (''<a href='' @ dq @ ''/admin/customers/edit/'' @ to_string i @ dq @ ''>Edit</a>'') []"

definition mail_renderer :: "jsval \<Rightarrow> jsval \<Rightarrow> rendered" where
  "mail_renderer email customer =
     (if truthy email \<and> \<not> js_eq email (JStr [])
      then \<lparr>rd_content = JObj [(''src'', JStr ''/assets/icons/mail_write.png''), (''alt'', JStr ''Quick Email''), (''customer'', customer)],
            rd_td = [], rd_tr = []\<rparr>
      else html_cell ''&nbsp;'' [])"

definition status_renderer :: "jsval \<Rightarrow> jsval \<Rightarrow> rendered" where
  "status_renderer status customer =
     \<lparr>rd_content = status, rd_td = (if truthy (field customer ''isWebOrder'') then [''webOrder''] else []), rd_tr = []\<rparr>"

definition standing_renderer :: "jsval \<Rightarrow> jsval \<Rightarrow> rendered" where
  "standing_renderer standing customer =
     (if truthy standing
      then html_cell (''<center><span class='' @ sq @ ''credit_button credit_'' @ to_string standing @ sq @ ''>''
             @ capitalize (to_string standing) @ ''</span></center>'') []
      else html_cell ''&nbsp;'' [])"

definition email_renderer :: "jsval \<Rightarrow> jsval \<Rightarrow> rendered" where
  "email_renderer email customer =
     html_cell (''<a href='' @ dq @ ''mailto:'' @ to_string email @ dq @ ''>'' @ to_string email @ ''</a>'')
       ((if truthy (field customer ''isduplicate'') then [''emailDuplicate''] else []) @
        (if truthy (field customer ''isduplicate_with24_hr'') then [''emailDuplicate24hr''] else []))"

definition checkbox_renderer :: "jsval \<Rightarrow> jsval \<Rightarrow> rendered" where
  "checkbox_renderer i customer =
     html_cell (''<input type='' @ dq @ ''checkbox'' @ dq @ '' name='' @ dq @ ''customer_id_cbox'' @ dq @ '' class='' @ dq
       @ ''CIFormFieldCBx'' @ dq @ '' value='' @ dq @ to_string i @ dq @ ''>'') []"

definition text_column :: "string \<Rightarrow> string \<Rightarrow> props \<Rightarrow> column" where
  "text_column header property more_props = column_new ([(''header'', JStr header), (''property'', JStr property)] @ more_props) None None"

definition custom_column :: "props \<Rightarrow> (jsval \<Rightarrow> jsval \<Rightarrow> rendered) \<Rightarrow> column" where
  "custom_column cfg rd = column_new cfg (Some rd) None"

definition CustomerListColumns :: "column list" where
  "CustomerListColumns =
     [custom_column [(''property'', JStr ''id''), (''width'', JNum 25)] edit_renderer,
      custom_column [(''property'', JStr ''email''), (''width'', JNum 22)] mail_renderer,
      text_column ''Contract #'' ''contract'' [(''width'', JNum 100)],
      custom_column [(''header'', JStr ''Cust Status''), (''property'', JStr ''status''), (''width'', JNum 125)] status_renderer,
      custom_column [(''header'', JStr ''$tatus''), (''property'', JStr ''standing''), (''width'', JNum 80)] standing_renderer,
      text_column ''Date'' ''date'' [], text_column ''Name'' ''name'' [],
      text_column ''Main Phone Number'' ''phoneNumber'' [(''width'', JNum 130)],
      text_column ''State'' ''customer_state'' [],
      custom_column [(''header'', JStr ''Email''), (''property'', JStr ''email''), (''width'', JNum 200)] email_renderer]"

definition CustomerListColumns2 :: "column list" where
  "CustomerListColumns2 =
     custom_column [(''header'', JStr (''<input type='' @ dq @ ''checkbox'' @ dq @ '' name='' @ dq @ ''customer_id_cbox_all'' @ dq
         @ '' class='' @ dq @ ''CIFormFieldCBall'' @ dq @ '' value='' @ dq @ ''0'' @ dq @ ''>'')),
       (''property'', JStr ''id''), (''width'', JNum 25)] checkbox_renderer
     # CustomerListColumns @ [text_column ''Last Updated'' ''last_updated_info'' []]"

subsection \<open>Editing a text in place\<close>

text \<open>The cell and its link, the text areas made so far with what they hold (each click of \<open>Edit\<close> makes
  a new one), the one in the cell, the text kept in \<open>gEditingTable\<close>, and the saves that wait for
  an answer, by their text areas.\<close>

record inline =
  il_text :: string
  il_area :: "nat option"
  il_areas :: "string list"
  il_kept :: "string option"
  il_link :: string
  il_saves :: "nat list"

definition inline_new :: "string \<Rightarrow> inline" where
  "inline_new s = \<lparr>il_text = s, il_area = None, il_areas = [], il_kept = None, il_link = ''Edit'', il_saves = []\<rparr>"

text \<open>\<open>inlineEditTextarea\<close>: a cell that is being edited gets the kept text back; otherwise its text is kept
  and a text area takes its place.\<close>

definition inlineEditTextarea :: "inline \<Rightarrow> inline" where
  "inlineEditTextarea il =
     (case il_area il of
        Some _ \<Rightarrow> il\<lparr>il_text := (case il_kept il of None \<Rightarrow> ''undefined'' | Some s \<Rightarrow> s), il_area := None, il_kept := None, il_link := ''Edit''\<rparr>
      | None \<Rightarrow> il\<lparr>il_kept := Some (il_text il), il_areas := il_areas il @ [il_text il], il_area := Some (length (il_areas il)),
                 il_text := [], il_link := ''Cancel Editing''\<rparr>)"

definition inline_type :: "string \<Rightarrow> inline \<Rightarrow> inline" where
  "inline_type s il = (case il_area il of None \<Rightarrow> il | Some a \<Rightarrow> il\<lparr>il_areas := (il_areas il)[a := s]\<rparr>)"

text \<open>The save button sends what its text area holds; the answer stores what it holds by then.\<close>

definition inline_save :: "inline \<Rightarrow> inline" where
  "inline_save il = (case il_area il of None \<Rightarrow> il | Some a \<Rightarrow> il\<lparr>il_saves := il_saves il @ [a]\<rparr>)"

definition inline_saved :: "nat \<Rightarrow> inline \<Rightarrow> inline" where
  "inline_saved a il =
     (if a \<in> set (il_saves il) then inlineEditTextarea (il\<lparr>il_saves := remove1 a (il_saves il), il_kept := Some (il_areas il ! a)\<rparr>) else il)"

definition inline_params :: "jsval \<Rightarrow> string \<Rightarrow> string option \<Rightarrow> string \<Rightarrow> props" where
  "inline_params i ob property v =
     [(''id'', i), (ob @ ''['' @ (case property of None \<Rightarrow> ob @ ''_text'' | Some p \<Rightarrow> if p = [] then ob @ ''_text'' else p) @ '']'', JStr v)]"

subsection \<open>The editor of page contents\<close>

text \<open>The page that is edited, the text area, and the loads that wait for an answer.\<close>

record content_editor =
  gEditingPage :: "string option"
  ce_text :: string
  ce_loads :: "string list"

definition editContent :: "string \<Rightarrow> content_editor \<Rightarrow> content_editor" where
  "editContent page ce = ce\<lparr>ce_loads := ce_loads ce @ [page]\<rparr>"

definition content_loaded :: "string \<Rightarrow> string \<Rightarrow> content_editor \<Rightarrow> content_editor" where
  "content_loaded page content ce = ce\<lparr>ce_loads := remove1 page (ce_loads ce), gEditingPage := Some page, ce_text := content\<rparr>"

text \<open>The parameters of the save, if a page is edited.\<close>

definition saveContent :: "content_editor \<Rightarrow> props option" where
  "saveContent ce =
     (case gEditingPage ce of None \<Rightarrow> None | Some p \<Rightarrow> Some [(''page'', JStr p), (''content'', JStr (ce_text ce))])"

definition save_message :: "string \<Rightarrow> content_editor \<Rightarrow> string" where
  "save_message st ce =
     (let page = (case gEditingPage ce of None \<Rightarrow> ''null'' | Some p \<Rightarrow> p)
      in if st = ''saved'' then ''Saved content for /'' @ page
         else ''Could not save content for /'' @ page @ '':'' @ [CHR 0x0A, CHR 0x0A] @ st @ [CHR 0x0A, CHR 0x0A] @ ''Is it chmod 666?'')"

inductive content_step :: "(string \<Rightarrow> string) \<Rightarrow> content_editor \<Rightarrow> content_editor \<Rightarrow> bool" for server where
  cs_edit: "content_step server ce (editContent page ce)"
| cs_load: "page \<in> set (ce_loads ce) \<Longrightarrow> content_step server ce (content_loaded page (server page) ce)"

inductive_cases content_stepE: "content_step server s t"

subsection \<open>The quick email\<close>








subsection \<open>The form that relates customers\<close>

datatype related = RelAlert string | RelStopped | RelSubmitted

text \<open>\<open>validateRelatedForm\<close>, with the answers to the two questions.\<close>

definition validateRelatedForm :: "bool \<Rightarrow> bool \<Rightarrow> string list \<Rightarrow> related" where
  "validateRelatedForm confirm1 confirm2 actions =
     (let primaryCount = length (filter (\<lambda>a. a = ''primary'') actions)
      in if primaryCount > 1 then RelAlert ''Only one Customer may be made the primary account.''
         else if primaryCount = 0 \<and> \<not> confirm1 then RelStopped
         else if confirm2 then RelSubmitted else RelStopped)"

subsection \<open>Faxes\<close>

definition faxes_url :: "string \<Rightarrow> string option \<Rightarrow> string \<Rightarrow> string" where
  "faxes_url key forResource resourceId =
     (case forResource of
        None \<Rightarrow> ''/admin/faxes/async_list/'' @ key
      | Some res \<Rightarrow> if res = [] then ''/admin/faxes/async_list/'' @ key
                   else ''/admin/faxes/async_list_for_'' @ res @ ''/'' @ resourceId)"

definition assign_params :: "jsval \<Rightarrow> jsval \<Rightarrow> props" where
  "assign_params faxId r = [(''id'', faxId), (''assignable_id'', field r ''id''), (''assignable_type'', field r ''ruby_type'')]"

text \<open>The search of the panel that assigns a fax: the button while the request runs and after it.\<close>

definition doSearch :: "'o cibutton \<Rightarrow> 'o cibutton \<times> js_error option" where
  "doSearch b = (case disable None b of (b', None) \<Rightarrow> (setLabel ''Searching...'' b', None) | (b', Some e) \<Rightarrow> (b', Some e))"

definition searchGotData :: "'o cibutton \<Rightarrow> 'o cibutton \<times> js_error option" where
  "searchGotData b = (case enable None b of (b', None) \<Rightarrow> (setLabel ''Search'' b', None) | (b', Some e) \<Rightarrow> (b', Some e))"

subsection \<open>The finder of contractors\<close>

text \<open>The panel with its button and the values of its two fields, and the form of the page behind it: its two fields
  and how often it was submitted.\<close>

record 'o finder =
  cf_button :: "'o cibutton"
  cf_radius :: string
  cf_location :: string
  cf_form :: "string \<times> string"
  cf_submits :: nat

definition finder_new :: "'o finder" where
  "finder_new =
     \<lparr>cf_button = button_new ''searchBtn'' (Some ''Find Contractors'') None False False [] [],
      cf_radius = ''15'', cf_location = [], cf_form = ([], []), cf_submits = 0\<rparr>"

text \<open>\<open>submit\<close>, which the key in either field calls. The handler the button is given is undefined, and the button has
  no request.\<close>

definition finder_submit :: "'o finder \<Rightarrow> 'o finder \<times> js_error option" where
  "finder_submit cf =
     (case disable None (setLabel ''Searching...'' (cf_button cf)) of
        (b, Some e) \<Rightarrow> (cf\<lparr>cf_button := b\<rparr>, Some e)
      | (b, None) \<Rightarrow> (cf\<lparr>cf_button := b, cf_form := (cf_radius cf, cf_location cf), cf_submits := Suc (cf_submits cf)\<rparr>, None))"

definition finder_click :: "'o finder \<Rightarrow> string option" where
  "finder_click cf = requests (button_onClick (cf_button cf))"

subsection \<open>Small functions\<close>

definition appendPlaceholder :: "string \<Rightarrow> string \<Rightarrow> string" where
  "appendPlaceholder placeholder body = body @ ''{'' @ placeholder @ ''}''"

definition setClaimStatus :: "jsval \<Rightarrow> jsval \<Rightarrow> props" where
  "setClaimStatus i st = [(''id'', i), (''claim[claim_approve]'', st)]"

definition copyBillingAddressFromCoverage :: "(string \<times> string) list \<Rightarrow> js_error + (string \<times> string) list" where
  "copyBillingAddressFromCoverage page =
     foldE (\<lambda>pg fld. case (map_of pg (''billing_'' @ fld), map_of pg (''property_'' @ fld)) of
                       (Some _, Some v) \<Rightarrow> Inr (AList.update (''billing_'' @ fld) v pg)
                     | _ \<Rightarrow> Inl TypeError) page [''address'', ''city'', ''state'', ''zip_code'']"

text \<open>The slug of an article, from its title.\<close>

definition slug_char :: "char \<Rightarrow> bool" where
  "slug_char c = (is_space c \<or> c \<in> set ''._+=*&^#@$!()'')"

definition slug :: "string \<Rightarrow> string" where
  "slug title = to_lower (map (\<lambda>c. if slug_char c then CHR ''-'' else c) title)"

subsection \<open>Lemmas\<close>

text \<open>The form of the finder is submitted with what its fields hold as often as the key is pressed; the button does
  nothing.\<close>

lemma finder_submits:
  "b_drawn (cf_button cf) \<Longrightarrow>
   snd (finder_submit cf) = None \<and> cf_form (fst (finder_submit cf)) = (cf_radius cf, cf_location cf) \<and>
   cf_submits (fst (finder_submit cf)) = Suc (cf_submits cf) \<and> b_drawn (cf_button (fst (finder_submit cf)))"
  by (simp add: finder_submit_def disable_def setDisabled_def setLabel_def)

lemma finder_button_idle: "finder_click finder_new = None"
  by (simp add: finder_click_def finder_new_def button_onClick_def button_new_def requestData_def makeRequestable_def can_def
      requestable_methods_def request_new_def hash_new_def)

text \<open>The class names of the cells of a row, and those the row gets from its cells.\<close>

definition cell_classes :: "column \<Rightarrow> jsval \<Rightarrow> string list" where
  "cell_classes c r =
     ''CITableCell'' # co_css c @ (if cell_editable c r then [''CITableEditableCell''] else []) @ rd_td (cell_content c r)"

definition row_names :: "string set" where
  "row_names = {''CITableRow'', ''CIHoverableSkin'', ''CIEvenSkin'', ''CIOddSkin'', ''CISelectableTableRow''}"

lemma make_cells_classes:
  "make_cells height sel ncols nrows k index r cs = (tds, cs', cls) \<Longrightarrow>
   map (\<lambda>td. classes (td_elem td)) tds = map (\<lambda>c. cell_classes c r) cs \<and>
   set cls \<subseteq> row_names \<union> (\<Union>c\<in>set cs. set (rd_tr (cell_content c r)))"
proof (induction cs arbitrary: k tds cs' cls)
  case (Cons c cs)
  obtain tds1 cs1 cls1 where m: "make_cells height sel ncols nrows (Suc k) index r cs = (tds1, cs1, cls1)"
    by (cases "make_cells height sel ncols nrows (Suc k) index r cs")
  have "''CISelectableTableRow'' \<in> row_names" by (simp add: row_names_def)
  with Cons.prems Cons.IH [OF m] m show ?case
    by (auto simp: Let_def table_cell_def cell_classes_def split: if_splits)
qed simp

lemma cell_classes_styles [simp]: "cell_classes (c\<lparr>co_styles := s\<rparr>) r = cell_classes c r"
  by (simp add: cell_classes_def)

lemma same_columns_classes:
  assumes "same_columns cs cs'"
  shows "map (\<lambda>c. cell_classes c r) cs' = map (\<lambda>c. cell_classes c r) cs"
    and "(\<Union>c\<in>set cs'. set (rd_tr (cell_content c r))) = (\<Union>c\<in>set cs. set (rd_tr (cell_content c r)))"
proof -
  have n: "length cs' = length cs" "\<And>i. i < length cs \<Longrightarrow> \<exists>s. cs' ! i = (cs ! i)\<lparr>co_styles := s\<rparr>"
    using assms by (auto simp: same_columns_def list_all2_conv_all_nth)
  have "cell_classes (cs' ! i) r = cell_classes (cs ! i) r" "cell_content (cs' ! i) r = cell_content (cs ! i) r"
    if "i < length cs" for i
    using n(2) [OF that] by auto
  then show "map (\<lambda>c. cell_classes c r) cs' = map (\<lambda>c. cell_classes c r) cs"
    using n(1) by (simp add: list_eq_iff_nth_eq [of "map _ _"])
  have "map (\<lambda>c. cell_content c r) cs' = map (\<lambda>c. cell_content c r) cs"
    using n(1) \<open>\<And>i. i < length cs \<Longrightarrow> cell_content (cs' ! i) r = cell_content (cs ! i) r\<close> by (simp add: list_eq_iff_nth_eq [of "map _ _"])
  then have "(\<lambda>c. cell_content c r) ` set cs' = (\<lambda>c. cell_content c r) ` set cs" by (metis list.set_map)
  then have "(\<lambda>d. set (rd_tr d)) ` (\<lambda>c. cell_content c r) ` set cs' = (\<lambda>d. set (rd_tr d)) ` (\<lambda>c. cell_content c r) ` set cs"
    by (rule arg_cong)
  then show "(\<Union>c\<in>set cs'. set (rd_tr (cell_content c r))) = (\<Union>c\<in>set cs. set (rd_tr (cell_content c r)))"
    unfolding image_image by (rule arg_cong)
qed

lemma fold_addClass: "set (classes (fold addClass cls e)) = set cls \<union> set (classes e)"
  by (induction cls arbitrary: e) (auto simp: addClass_def arr_include_def)

lemma row_classes: "set (classes (row_elem h i cls)) \<subseteq> row_names \<union> set cls"
proof -
  have "set [''CITableRow'', ''CIHoverableSkin'', if i mod 2 = 0 then ''CIEvenSkin'' else ''CIOddSkin''] \<subseteq> row_names"
    by (simp add: row_names_def)
  then show ?thesis unfolding row_elem_def fold_addClass by auto
qed

lemma draw_rows_classes:
  assumes "draw_rows height sel nrows i cols rs = (rows, cols')" "j < length rs"
  shows "map (\<lambda>td. classes (td_elem td)) (tr_cells (rows ! j)) = map (\<lambda>c. cell_classes c (rs ! j)) cols \<and>
         set (classes (tr_elem (rows ! j))) \<subseteq>
           row_names \<union>
           (\<Union>c\<in>set cols. set (rd_tr (cell_content c (rs ! j))))"
  using assms
proof (induction rs arbitrary: i cols rows cols' j)
  case (Cons r rs)
  obtain tds cols1 cls where mc: "make_cells height sel (length cols) nrows 0 (Some i) r cols = (tds, cols1, cls)"
    by (cases "make_cells height sel (length cols) nrows 0 (Some i) r cols")
  obtain rows2 cols2 where dr: "draw_rows height sel nrows (Suc i) cols1 rs = (rows2, cols2)" by fastforce
  have rows: "rows = \<lparr>tr_elem = row_elem height i cls, tr_index = Some i, tr_cells = tds\<rparr> # rows2"
    using Cons.prems(1) mc dr by simp
  have same: "same_columns cols cols1" using make_cells_shows [OF mc] by simp
  show ?case
  proof (cases j)
    case 0
    then show ?thesis using make_cells_classes [OF mc] rows row_classes [of height i cls] by simp blast
  next
    case (Suc m)
    then have "m < length rs" using Cons.prems(2) by simp
    from Cons.IH [OF dr this] show ?thesis
      unfolding same_columns_classes [OF same] using rows Suc by simp
  qed
qed simp

lemma custom_content: "cell_content (custom_column cfg rd) r = rd (field_of r (custom_column cfg rd)) r"
  by (simp add: cell_content_def custom_column_def column_new_def)

lemma text_content: "rd_td (cell_content (text_column h p q) r) = []" "rd_tr (cell_content (text_column h p q) r) = []"
  by (simp_all add: cell_content_def text_column_def column_new_def)

lemma custom_plain: "co_css (custom_column cfg rd) = (case get_prop cfg ''cssClass'' of JStr (ch # chs) \<Rightarrow> [ch # chs] | _ \<Rightarrow> [])"
  "cell_editable (custom_column cfg rd) r = False"
  by (simp_all add: custom_column_def column_new_def cell_editable_def)

lemma renderers_keep_row [simp]:
  "rd_tr (html_cell h t) = []" "rd_tr (edit_renderer v r) = []" "rd_tr (mail_renderer v r) = []" "rd_tr (status_renderer v r) = []"
  "rd_tr (standing_renderer v r) = []" "rd_tr (email_renderer v r) = []" "rd_tr (checkbox_renderer v r) = []"
  by (simp_all add: html_cell_def edit_renderer_def mail_renderer_def status_renderer_def standing_renderer_def
      email_renderer_def checkbox_renderer_def)

lemma slug_char_code: "slug_char c \<Longrightarrow> code c \<le> 64 \<or> code c = 94 \<or> code c = 95 \<or> code c = 160"
  unfolding slug_char_def is_space_def by (elim disjE) (simp_all, elim disjE, simp_all)

lemma lower_code:
  "code (to_lower_char c) =
     (if (65 \<le> code c \<and> code c \<le> 90) \<or> (192 \<le> code c \<and> code c \<le> 222 \<and> code c \<noteq> 215) then code c + 32 else code c)"
  by (simp add: to_lower_char_def)

lemma slug_lower: "\<not> slug_char c \<Longrightarrow> \<not> slug_char (to_lower_char c)"
proof
  assume c: "\<not> slug_char c" and l: "slug_char (to_lower_char c)"
  then have "to_lower_char c \<noteq> c" by auto
  then have "(65 \<le> code c \<and> code c \<le> 90) \<or> (192 \<le> code c \<and> code c \<le> 222)"
    by (auto simp: to_lower_char_def split: if_splits)
  then show False using slug_char_code [OF l] by (auto simp: lower_code split: if_splits)
qed

lemma to_lower_twice [simp]: "to_lower_char (to_lower_char c) = to_lower_char c"
proof -
  have "code (char_of (code c + 32) :: char) = code c + 32" if "code c \<le> 222" using that by simp
  then show ?thesis by (auto simp: to_lower_char_def)
qed

subsection \<open>Properties\<close>

lemma customer_columns:
  "length CustomerListColumns = 10"
  "CustomerListColumns ! 3 =
     custom_column [(''header'', JStr ''Cust Status''), (''property'', JStr ''status''), (''width'', JNum 125)] status_renderer"
  "CustomerListColumns ! 9 =
     custom_column [(''header'', JStr ''Email''), (''property'', JStr ''email''), (''width'', JNum 200)] email_renderer"
  by (simp_all add: CustomerListColumns_def)

lemma customer_columns_row: "c \<in> set CustomerListColumns \<Longrightarrow> rd_tr (cell_content c r) = []"
  unfolding CustomerListColumns_def set_simps insert_iff empty_iff
  by (elim disjE) (simp_all add: custom_content text_content)

lemma customer_cells:
  "cell_classes (CustomerListColumns ! 3) r = ''CITableCell'' # (if truthy (field r ''isWebOrder'') then [''webOrder''] else [])"
  "cell_classes (CustomerListColumns ! 9) r = ''CITableCell'' #
     ((if truthy (field r ''isduplicate'') then [''emailDuplicate''] else []) @
      (if truthy (field r ''isduplicate_with24_hr'') then [''emailDuplicate24hr''] else []))"
  by (simp_all add: customer_columns cell_classes_def custom_plain custom_content status_renderer_def email_renderer_def
      html_cell_def get_prop_def)

lemma marks_no_row_names: "''webOrder'' \<notin> row_names" "''emailDuplicate'' \<notin> row_names"
  by (simp_all add: row_names_def)

text \<open>In the customer list, the order and the duplicate marks of a record are put on the cell of
  its status and of its email, and never on its row, for which they are meant.\<close>

lemma customer_marks_on_cells:
  assumes "draw_rows height sel nrows i CustomerListColumns rs = (rows, cols')" "j < length rs"
  shows "(''webOrder'' \<in> set (classes (td_elem (tr_cells (rows ! j) ! 3))) \<longleftrightarrow> truthy (field (rs ! j) ''isWebOrder'')) \<and>
         (''emailDuplicate'' \<in> set (classes (td_elem (tr_cells (rows ! j) ! 9))) \<longleftrightarrow> truthy (field (rs ! j) ''isduplicate'')) \<and>
         ''webOrder'' \<notin> set (classes (tr_elem (rows ! j))) \<and> ''emailDuplicate'' \<notin> set (classes (tr_elem (rows ! j)))"
proof -
  let ?r = "rs ! j"
  have m: "map (\<lambda>td. classes (td_elem td)) (tr_cells (rows ! j)) = map (\<lambda>c. cell_classes c ?r) CustomerListColumns"
    and row: "set (classes (tr_elem (rows ! j))) \<subseteq>
           row_names \<union> (\<Union>c\<in>set CustomerListColumns. set (rd_tr (cell_content c ?r)))"
    using draw_rows_classes [OF assms] by blast+
  have len: "length (tr_cells (rows ! j)) = 10" using arg_cong [OF m, of length] by (simp add: customer_columns)
  have cell: "classes (td_elem (tr_cells (rows ! j) ! k)) = cell_classes (CustomerListColumns ! k) ?r" if "k < 10" for k
    using arg_cong [OF m, of "\<lambda>xs. xs ! k"] that by (simp add: len customer_columns)
  have "set (classes (tr_elem (rows ! j))) \<subseteq> row_names" using row by (auto simp: customer_columns_row)
  then have "''webOrder'' \<notin> set (classes (tr_elem (rows ! j)))" "''emailDuplicate'' \<notin> set (classes (tr_elem (rows ! j)))"
    using marks_no_row_names by blast+
  then show ?thesis by (simp add: cell customer_cells)
qed

text \<open>Editing a text in place and cancelling restores the text; saving and waiting for the
  answer shows the new text and ends the edit.\<close>

lemma inline_edit_roundtrip:
  assumes "il_area il = None" "il_kept il = None"
    and "typed = inline_type s (inlineEditTextarea il)"
  shows "il_text (inlineEditTextarea typed) = il_text il \<and> il_area (inlineEditTextarea typed) = None \<and>
         il_kept (inlineEditTextarea typed) = None \<and>
         (\<exists>a. il_area typed = Some a \<and> il_text (inline_saved a (inline_save typed)) = s \<and>
              il_area (inline_saved a (inline_save typed)) = None \<and> il_kept (inline_saved a (inline_save typed)) = None \<and>
              il_link (inline_saved a (inline_save typed)) = ''Edit'')"
  using assms by (simp add: inlineEditTextarea_def inline_type_def inline_save_def inline_saved_def)

text \<open>When an edit is cancelled while its save is under way, the answer opens the editor again,
  with the text before the edit, although the new text was saved.\<close>

lemma inline_late_answer_reopens:
  assumes "il_area il = None" "il_kept il = None"
    and "typed = inline_type s (inlineEditTextarea il)" "il_area typed = Some a"
    and "late = inline_saved a (inlineEditTextarea (inline_save typed))"
  shows "\<exists>b. il_area late = Some b \<and> il_areas late ! b = il_text il \<and> il_kept late = Some (il_text il) \<and>
             il_link late = ''Cancel Editing''"
  using assms by (simp add: inlineEditTextarea_def inline_type_def inline_save_def inline_saved_def nth_append split: if_splits)

interpretation contents_of: machine "\<lambda>ce. gEditingPage ce = None" "content_step server"
  "\<lambda>ce. case gEditingPage ce of None \<Rightarrow> True | Some p \<Rightarrow> ce_text ce = server p" for server
proof
  fix s t
  assume "case gEditingPage s of None \<Rightarrow> True | Some p \<Rightarrow> ce_text s = server p" "content_step server s t"
  then show "case gEditingPage t of None \<Rightarrow> True | Some p \<Rightarrow> ce_text t = server p"
    by (auto elim!: content_stepE simp: editContent_def content_loaded_def split: option.splits)
qed simp

text \<open>However page loads and their answers interleave, what a save would store under a page, when
  nothing is typed, is the content of that page.\<close>

lemma content_saved_to_its_page:
  assumes "gEditingPage ce0 = None" "(content_step server)\<^sup>*\<^sup>* ce0 ce" "saveContent ce = Some params"
  shows "\<exists>p. params = [(''page'', JStr p), (''content'', JStr (server p))]"
  using contents_of.reachable_inv [of ce0 server ce] assms by (auto simp: saveContent_def split: option.splits)






text \<open>The slug of a title has none of the characters that are replaced, and is its own slug.\<close>

lemma slug_clean: "list_all (\<lambda>c. \<not> slug_char c) (slug title) \<and> slug (slug title) = slug title"
proof -
  have d: "\<not> slug_char (CHR ''-'')" by (simp add: slug_char_def is_space_def)
  then have "list_all (\<lambda>c. \<not> slug_char c) (slug title)"
    by (auto simp: slug_def to_lower_def list_all_iff slug_lower)
  moreover have "map (\<lambda>c. if slug_char c then CHR ''-'' else c) (slug title) = slug title"
    using calculation by (intro map_idI) (auto simp: list_all_iff)
  then have "slug (slug title) = to_lower (slug title)" by (simp add: slug_def)
  moreover have "to_lower (slug title) = slug title" by (simp add: slug_def to_lower_def)
  ultimately show ?thesis by simp
qed

text \<open>The form is submitted when at most one customer is the primary one and the questions it raises are
  confirmed.\<close>

lemma related_verdict:
  "validateRelatedForm c1 c2 actions = RelSubmitted \<longleftrightarrow>
     (let n = length (filter (\<lambda>a. a = ''primary'') actions) in n \<le> 1 \<and> (n = 1 \<or> c1) \<and> c2)"
  by (cases "length (filter (\<lambda>a. a = ''primary'') actions)") (auto simp: validateRelatedForm_def Let_def)

end
