(* ===== verification/Contractor_Map.thy ===== *)
theory Contractor_Map
  imports Complex_Main Admin CI_Dialogs
begin

section \<open>Assigning a contractor to a repair\<close>

text \<open>
  \<open>contractor-map.js\<close>: the sheet of a claim with a map, the table of the contractors near the customer, the
  buttons that assign and unassign a contractor, and the sheet for a new contractor. The sheet is
  composed of the models of \<open>CITable\<close> and \<open>CIButton\<close>: its elements are in the document while it is
  open, and the handlers of its buttons and of the table change each other. The animations of the
  sheets are taken at their end. The map itself belongs to Google Maps: a point is a pair of degrees,
  and the distance of two points is a parameter.
\<close>

subsection \<open>The circle on the map\<close>

type_synonym point = "real \<times> real"

definition circle_point :: "real \<Rightarrow> real \<Rightarrow> real \<Rightarrow> point \<Rightarrow> nat \<Rightarrow> point" where
  "circle_point radius latConv lngConv center i =
     (fst center + radius / latConv * cos (real i * pi / 180), snd center + radius / lngConv * sin (real i * pi / 180))"

function circle_from :: "(nat \<Rightarrow> point) \<Rightarrow> nat \<Rightarrow> nat \<Rightarrow> point list" where
  "circle_from p stride i = (if i \<le> 360 \<and> 0 < stride then p i # circle_from p stride (i + stride) else [])"
  by pat_completeness auto
termination
  by (relation "measure (\<lambda>(p, stride, i). 361 - i)") auto

declare circle_from.simps [simp del]

definition drawCircleAtPoint :: "(point \<Rightarrow> point \<Rightarrow> real) \<Rightarrow> real \<Rightarrow> point \<Rightarrow> point list" where
  "drawCircleAtPoint distanceFrom searchRadiusMiles center =
     (let radius = searchRadiusMiles * (1609344 / 1000000);
          nodes = 40;
          latConv = distanceFrom center (fst center + 1 / 10, snd center) / 100;
          lngConv = distanceFrom center (fst center, snd center + 1 / 10) / 100;
          points = circle_from (circle_point radius latConv lngConv center) (360 div nodes) 0
      in points @ [hd points])"

subsection \<open>The contractors\<close>

text \<open>The object the form of a contractor is filled with; reading the address of a contractor without one
  throws.\<close>

definition contractor_object :: "jsval \<Rightarrow> js_error + props" where
  "contractor_object contractor =
     (let top_level = (\<lambda>k. (k, field contractor k))
      in case field contractor ''address'' of
           JUndef \<Rightarrow> Inl TypeError
         | JNull \<Rightarrow> Inl TypeError
         | a \<Rightarrow> Inr (map top_level [''company'', ''email'', ''phone'', ''fax''] @
              [(''address'', field a ''address''), (''city'', field a ''city''), (''state'', field a ''state''), (''zip'', field a ''zip_code'')] @
              map top_level [''rating'', ''flagged'', ''min_claim'', ''min_hour'']))"

definition contractor_fields :: "(string \<times> string \<times> string) list" where
  "contractor_fields =
     [(''Company:'', ''company'', ''contractor[company]''), (''Email:'', ''email'', ''contractor[email]''),
      (''Phone:'', ''phone'', ''contractor[phone]''), (''Fax:'', ''fax'', ''contractor[fax]''),
      (''Address:'', ''address'', ''address[address]''), (''City:'', ''city'', ''address[city]''),
      (''State:'', ''state'', ''address[state]''), (''Zip Code:'', ''zip'', ''address[zip_code]''),
      (''Rating:'', ''rating'', ''contractor[rating]''), (''Flagged?'', ''flagged'', ''contractor[flagged]''),
      (''Min/Claim:'', ''min_claim'', ''contractor[min_claim]''), (''Min/Hour:'', ''min_hour'', ''contractor[min_hour]'')]"

definition contractor_cell :: "jsval \<Rightarrow> string" where
  "contractor_cell r =
     substitute ''<strong>{company}</strong><br/>{email}<br/>Tel: {phone}<br/>Fax: {fax}''
       (map (\<lambda>k. (k, field r k)) [''company'', ''email'', ''phone'', ''fax''])"

definition contractor_marker :: "jsval \<Rightarrow> js_error + jsval \<times> jsval" where
  "contractor_marker contractor =
     (case field contractor ''address'' of
        JUndef \<Rightarrow> Inl TypeError
      | JNull \<Rightarrow> Inl TypeError
      | a \<Rightarrow> Inr (field a ''lat'', field a ''lng''))"

definition search_params :: "jsval \<Rightarrow> jsval \<Rightarrow> jsval \<times> jsval \<Rightarrow> props" where
  "search_params radius key marker =
     [(''radius'', radius), (''searchkey'', key), (''lat'', fst marker), (''lng'', snd marker)]"

subsection \<open>The sheet\<close>

record claim =
  cl_id :: jsval
  cl_repair :: "jsval option"
  cl_lat :: jsval
  cl_lng :: jsval

text \<open>Whether the sheet and the one for a new contractor are open, the claim, the table, the buttons, the
  requests that were sent and how many assignments wait for an answer.\<close>

record 'o repair_page =
  rp_open :: bool
  rp_newOpen :: bool
  rp_claim :: "claim option"
  rp_table :: "'o citable"
  unassignButton :: "'o cibutton"
  assignButton :: "'o cibutton"
  assignNewButton :: "'o cibutton"
  addAssignButton :: "'o cibutton"
  rp_sent :: "(string \<times> props) list"
  rp_waiting :: nat

definition repair_page_new :: "'o citable \<Rightarrow> 'o repair_page" where
  "repair_page_new tb =
     \<lparr>rp_open = False, rp_newOpen = False, rp_claim = None, rp_table = tb,
      unassignButton = button_new ''unassign'' (Some ''Unassign'') None True False
        [(''post'', UrlOnly ''/admin/repairs/async_unassign_contractor_for_claim'')] [],
      assignButton = button_new ''assign'' (Some ''Assign Selected'') None True False
        [(''post'', UrlOnly ''/admin/claims/async_update_claim_or_repair'')] [],
      assignNewButton = button_new ''assignNew'' (Some ''Assign New'') None False False [] [],
      addAssignButton = button_new ''addAssign'' (Some ''Add &amp; Assign'') None False False
        [(''post'', UrlOnly ''/admin/contractors/async_create'')] [],
      rp_sent = [], rp_waiting = 0\<rparr>"

definition set_drawn :: "bool \<Rightarrow> 'o cibutton \<Rightarrow> 'o cibutton" where
  "set_drawn d b = b\<lparr>b_drawn := d\<rparr>"

text \<open>The sheet is drawn for a claim; when it is shown, a claim with a repair enables the button that
  unassigns.\<close>

definition repair_show :: "rat \<Rightarrow> nat \<Rightarrow> claim \<Rightarrow> 'o repair_page \<Rightarrow> js_error + 'o repair_page" where
  "repair_show height now cl st =
     bindE (table_draw height now (rp_table st)) (\<lambda>(tb, ev).
       let st1 = st\<lparr>rp_open := True, rp_claim := Some cl, rp_table := tb, unassignButton := set_drawn True (unassignButton st),
                    assignButton := set_drawn True (assignButton st), assignNewButton := set_drawn True (assignNewButton st)\<rparr>
       in Inr (if cl_repair cl = None then st1 else st1\<lparr>unassignButton := fst (enable None (unassignButton st1))\<rparr>))"

text \<open>Hiding the sheet takes its elements out of the document.\<close>

definition repair_hide :: "'o repair_page \<Rightarrow> 'o repair_page" where
  "repair_hide st =
     st\<lparr>rp_open := False, rp_table := (rp_table st)\<lparr>tb_rows := None\<rparr>, unassignButton := set_drawn False (unassignButton st),
        assignButton := set_drawn False (assignButton st), assignNewButton := set_drawn False (assignNewButton st)\<rparr>"

text \<open>The answer of the geocoder: the point found, the one stored with the claim, or a prompt.\<close>

datatype located = At "jsval \<times> jsval" | Unverified "jsval \<times> jsval" | NotLocated

definition locate :: "(jsval \<times> jsval) option \<Rightarrow> claim \<Rightarrow> located" where
  "locate answer cl =
     (case answer of
        Some p \<Rightarrow> At p
      | None \<Rightarrow> if truthy (cl_lat cl) \<and> truthy (cl_lng cl) then Unverified (cl_lat cl, cl_lng cl) else NotLocated)"

definition repair_gotData :: "rat \<Rightarrow> nat \<Rightarrow> jsval \<Rightarrow> 'o repair_page \<Rightarrow> js_error + 'o repair_page" where
  "repair_gotData height now response st =
     bindE (table_onGotData height now response (rp_table st)) (\<lambda>(tb, ev). Inr (st\<lparr>rp_table := tb\<rparr>))"

text \<open>A click on a row: the handler of \<open>Selected\<close> clicks on the marker of the contractor, which selects the row
  of the contractor again, silently, and enables the button; then it is enabled once more.\<close>

definition marker_click :: "jsval \<Rightarrow> 'o repair_page \<Rightarrow> js_error + 'o repair_page" where
  "marker_click contractor st =
     (case row_number contractor of
        None \<Rightarrow> Inl TypeError
      | Some i \<Rightarrow>
          (case table_selectRow True i (rp_table st) of
             (tb, ev, Some e) \<Rightarrow> Inl e
           | (tb, ev, None) \<Rightarrow> Inr (st\<lparr>rp_table := tb, assignButton := fst (enable None (assignButton st))\<rparr>)))"

definition row_click :: "nat \<Rightarrow> 'o repair_page \<Rightarrow> js_error + 'o repair_page" where
  "row_click i st =
     (case table_selectRow False i (rp_table st) of
        (tb, ev, Some e) \<Rightarrow> Inl e
      | (tb, ev, None) \<Rightarrow>
          bindE (marker_click (tb_selected tb) (st\<lparr>rp_table := tb\<rparr>)) (\<lambda>st1.
            Inr (st1\<lparr>assignButton := fst (enable None (assignButton st1))\<rparr>)))"

text \<open>The parameters of an assignment; reading the identifier of no selection throws.\<close>

definition repair_params :: "'o repair_page \<Rightarrow> js_error + props" where
  "repair_params st =
     (case rp_claim st of
        None \<Rightarrow> Inl TypeError
      | Some cl \<Rightarrow>
          bindE (read_prop (tb_selected (rp_table st)) ''id'') (\<lambda>i.
            Inr [(''id'', cl_id cl), (''repair_id'', case cl_repair cl of None \<Rightarrow> JNull | Some r \<Rightarrow> r), (''repair[contractor_id]'', i)]))"

definition send_assign :: "'o repair_page \<Rightarrow> js_error + 'o repair_page" where
  "send_assign st =
     (if requestData (assignButton st) = None then Inr st
      else bindE (repair_params st) (\<lambda>ps. Inr (st\<lparr>rp_sent := rp_sent st @ [(''assign'', ps)], rp_waiting := Suc (rp_waiting st)\<rparr>)))"

definition assign_clicked :: "'o repair_page \<Rightarrow> 'o repair_page" where
  "assign_clicked st =
     st\<lparr>unassignButton := fst (disable None (unassignButton st)), assignNewButton := fst (disable None (assignNewButton st)),
        assignButton := setLabel ''Working...'' (fst (disable None (assignButton st)))\<rparr>"

text \<open>A click on the button runs its handler and then its request.\<close>

definition assign_click :: "'o repair_page \<Rightarrow> js_error + 'o repair_page" where
  "assign_click st = (if fires (button_onClick (assignButton st)) = [] then Inr st else send_assign (assign_clicked st))"

definition unassign_click :: "'o repair_page \<Rightarrow> 'o repair_page" where
  "unassign_click st =
     (case (requests (button_onClick (unassignButton st)), rp_claim st) of
        (Some _, Some cl) \<Rightarrow> st\<lparr>rp_sent := rp_sent st @ [(''unassign'', [(''id'', cl_id cl)])]\<rparr>
      | _ \<Rightarrow> st)"

text \<open>The answers. The handler of a failure enables one button after the other, and stops at one that is
  not in the document.\<close>

definition assign_posted :: "'o repair_page \<Rightarrow> 'o repair_page" where
  "assign_posted st = repair_hide (st\<lparr>rp_waiting := rp_waiting st - 1\<rparr>)"

definition assign_failed :: "'o repair_page \<Rightarrow> 'o repair_page" where
  "assign_failed st =
     (let st0 = st\<lparr>rp_waiting := rp_waiting st - 1\<rparr>
      in case enable None (unassignButton st0) of
           (u, Some e) \<Rightarrow> st0\<lparr>unassignButton := u\<rparr>
         | (u, None) \<Rightarrow>
             (case enable None (assignNewButton st0) of
                (n, Some e) \<Rightarrow> st0\<lparr>unassignButton := u, assignNewButton := n\<rparr>
              | (n, None) \<Rightarrow>
                  (case enable None (assignButton st0) of
                     (a, Some e) \<Rightarrow> st0\<lparr>unassignButton := u, assignNewButton := n, assignButton := a\<rparr>
                   | (a, None) \<Rightarrow> st0\<lparr>unassignButton := u, assignNewButton := n, assignButton := setLabel ''Assign Selected'' a\<rparr>)))"

text \<open>The sheet for a new contractor.\<close>

definition assignNew_click :: "'o repair_page \<Rightarrow> 'o repair_page" where
  "assignNew_click st =
     (if fires (button_onClick (assignNewButton st)) = [] then st
      else st\<lparr>rp_newOpen := True, addAssignButton := set_drawn True (addAssignButton st)\<rparr>)"

definition new_hide :: "'o repair_page \<Rightarrow> 'o repair_page" where
  "new_hide st = st\<lparr>rp_newOpen := False, addAssignButton := set_drawn False (addAssignButton st)\<rparr>"

definition addAssign_click :: "props \<Rightarrow> 'o repair_page \<Rightarrow> 'o repair_page" where
  "addAssign_click contractor st =
     (if fires (button_onClick (addAssignButton st)) = [] then st
      else st\<lparr>addAssignButton := setLabel ''Working...'' (fst (disable None (addAssignButton st))),
              rp_sent := rp_sent st @ [(''create'', contractor)]\<rparr>)"

definition addAssign_posted :: "jsval \<Rightarrow> 'o repair_page \<Rightarrow> js_error + 'o repair_page" where
  "addAssign_posted contractorId st =
     bindE (send_assign (st\<lparr>rp_table := (rp_table st)\<lparr>tb_selected := JObj [(''id'', contractorId)]\<rparr>\<rparr>)) (\<lambda>st1. Inr (new_hide st1))"

text \<open>The steps of the page: what the user does, and the answers of the server. The rows of an answer are
  objects.\<close>

inductive repair_step :: "'o repair_page \<Rightarrow> 'o repair_page \<Rightarrow> bool" where
  rs_show: "\<not> rp_open st \<Longrightarrow> repair_show h now cl st = Inr st' \<Longrightarrow> repair_step st st'"
| rs_cancel: "rp_open st \<Longrightarrow> repair_step st (repair_hide st)"
| rs_data: "repair_gotData h now (JArr (map JObj ps)) st = Inr st' \<Longrightarrow> list_all (\<lambda>p. distinct (map fst p)) ps \<Longrightarrow> repair_step st st'"
| rs_row: "rp_open st \<Longrightarrow> row_click i st = Inr st' \<Longrightarrow> repair_step st st'"
| rs_assign: "rp_open st \<Longrightarrow> assign_click st = Inr st' \<Longrightarrow> repair_step st st'"
| rs_unassign: "rp_open st \<Longrightarrow> repair_step st (unassign_click st)"
| rs_unassigned: "repair_step st (repair_hide st)"
| rs_posted: "0 < rp_waiting st \<Longrightarrow> repair_step st (assign_posted st)"
| rs_failed: "0 < rp_waiting st \<Longrightarrow> repair_step st (assign_failed st)"
| rs_new: "rp_open st \<Longrightarrow> repair_step st (assignNew_click st)"
| rs_new_hide: "repair_step st (new_hide st)"
| rs_add: "rp_newOpen st \<Longrightarrow> repair_step st (addAssign_click ps st)"
| rs_added: "addAssign_posted i st = Inr st' \<Longrightarrow> repair_step st st'"

subsection \<open>Lemmas on the table\<close>

text \<open>The records of the table are objects, and a drawn table is well-formed.\<close>

definition objects :: "jsval list \<Rightarrow> bool" where
  "objects rs = (\<exists>ps. rs = map JObj ps \<and> list_all (\<lambda>p. distinct (map fst p)) ps)"

definition contractors_ok :: "'o citable \<Rightarrow> bool" where
  "contractors_ok tb = (\<not> tb_paginated tb \<and> objects (tb_collection tb) \<and> (tb_rows tb \<noteq> None \<longrightarrow> table_ok tb))"

lemma objects_nth: "objects rs \<Longrightarrow> i < length rs \<Longrightarrow> \<exists>p. rs ! i = JObj p"
  by (auto simp: objects_def)

lemma clean_objects [simp]: "arr_clean (splat (JArr (map JObj ps))) = map JObj ps"
  by (induction ps) (simp_all add: arr_clean_def moo_defined_def js_eq_def)

lemma objects_numbered: "list_all (\<lambda>p. distinct (map fst p)) ps \<Longrightarrow> objects (numbered (map JObj ps))"
  unfolding objects_def
  by (rule exI [of _ "map2 (\<lambda>i p. AList.update ''__rowIndex'' (JNum (of_nat i)) p) [0..<length ps] ps"])
     (auto simp: numbered_def put_index_def list_all_iff set_zip distinct_update nth_enumerate_eq intro!: nth_equalityI)

lemma wf_objects: "list_all (\<lambda>p. distinct (map fst p)) ps \<Longrightarrow> list_all wf_val (map JObj ps)"
  by (simp add: list_all_iff wf_val_def)

lemma setCollection_contractors:
  assumes "table_setCollection h now (JArr (map JObj ps)) tb = Inr (tb', ev)" "\<not> tb_paginated tb"
    and "list_all (\<lambda>p. distinct (map fst p)) ps"
  shows "contractors_ok tb' \<and> tb_selected tb' = tb_selected tb"
proof (cases "tb_rows tb")
  case None
  with assms show ?thesis
    by (auto simp: table_setCollection_def table_render_def contractors_ok_def objects_def simp del: splat_simps)
next
  case (Some rows0)
  let ?tb = "tb\<lparr>tb_collection := map JObj ps\<rparr>"
  obtain rows cols where dr: "draw_rows h (tb_selectable ?tb) (length (tb_collection ?tb)) 0 (tb_columns ?tb) (numbered (tb_collection ?tb)) = (rows, cols)"
    by fastforce
  have "table_ok tb'"
    using setCollection_ok [OF Some assms(1)] assms(2,3) wf_objects by (simp add: rows_of_response_def)
  moreover have "tb_collection tb' = numbered (map JObj ps)" "tb_selected tb' = tb_selected tb" "tb_paginated tb' = tb_paginated tb"
    using table_render_eq [OF _ dr, of rows0 now] assms(1,2) Some
    by (auto simp: table_setCollection_def simp del: splat_simps)
  ultimately show ?thesis using assms(2,3) objects_numbered by (simp add: contractors_ok_def)
qed

lemma frame_ok_index: "frame_ok n rows \<Longrightarrow> i < length rows \<Longrightarrow> tr_index (rows ! i) = Some j \<Longrightarrow> i < n"
proof -
  assume ok: "frame_ok n rows" and i: "i < length rows" "tr_index (rows ! i) = Some j"
  have "map tr_index rows ! i = Some j" using i by simp
  moreover have "length rows = max 1 n" using frame_ok_length [OF ok] .
  ultimately show ?thesis using ok i(1) by (cases "n = 0") (auto simp: frame_ok_def)
qed

lemma selectRow_contractors:
  assumes "table_selectRow b i tb = (tb', ev, None)" "contractors_ok tb"
  shows "contractors_ok tb' \<and> (\<exists>p. tb_selected tb' = JObj p)"
proof -
  obtain rows data where rows: "tb_rows tb = Some rows" "tb_data tb = Some data"
    using assms(1) by (auto simp: table_selectRow_def table_removeSelection_def split: option.splits sub_ref.splits)
  then have ok: "table_ok tb" using assms(2) by (simp add: contractors_ok_def)
  then have "table_ok tb'" using selectRow_ok [of tb b i] assms(1) by simp
  moreover have "TOb data = tb_collection tb" "frame_ok (length (tb_collection tb)) rows"
    using ok rows by (auto simp: table_ok_def)
  moreover have "tr_index (map_row j unmark rows ! i) = tr_index (rows ! i)" "length (map_row j unmark rows) = length rows" for j
    by (simp_all add: map_row_def nth_list_update)
  then have "i < length rows" "tr_index (rows ! i) = Some i"
    using assms(1) rows
    by (auto simp: table_selectRow_def table_removeSelection_def Let_def split: sub_ref.splits if_splits)
  then have "i < length (tb_collection tb)"
    using calculation(3) frame_ok_index by blast
  moreover from this obtain p where "tb_collection tb ! i = JObj p"
    using assms(2) objects_nth unfolding contractors_ok_def by blast
  ultimately show ?thesis
    using assms rows
    by (auto simp: table_selectRow_def table_removeSelection_def contractors_ok_def Let_def arr_get_def
        split: sub_ref.splits if_splits)
qed

lemma gotData_contractors:
  assumes "repair_gotData h now (JArr (map JObj ps)) st = Inr st'" "contractors_ok (rp_table st)"
    and "list_all (\<lambda>p. distinct (map fst p)) ps"
  shows "\<exists>tb. st' = st\<lparr>rp_table := tb\<rparr> \<and> contractors_ok tb \<and> tb_selected tb = tb_selected (rp_table st)"
proof (cases "tb_doNotSetDataAfterGet (rp_table st)")
  case True
  with assms(1) have "st' = st\<lparr>rp_table := rp_table st\<rparr>" by (simp add: repair_gotData_def table_onGotData_def)
  with assms(2) show ?thesis by blast
next
  case False
  with assms(1) obtain tb ev where "table_setCollection h now (JArr (map JObj ps)) (rp_table st) = Inr (tb, ev)" "st' = st\<lparr>rp_table := tb\<rparr>"
    by (auto simp: repair_gotData_def table_onGotData_def err_simps)
  with setCollection_contractors [OF this(1) _ assms(3)] assms(2) show ?thesis by (auto simp: contractors_ok_def)
qed

lemma draw_contractors:
  assumes "table_draw h now tb = Inr (tb', ev)" "contractors_ok tb"
  shows "contractors_ok tb' \<and> tb_selected tb' = tb_selected tb"
proof (cases "tb_rows tb")
  case None
  obtain ps where ps: "tb_collection tb = map JObj ps" "list_all (\<lambda>p. distinct (map fst p)) ps"
    using assms(2) by (auto simp: contractors_ok_def objects_def)
  with None assms(1) have "table_setCollection h now (JArr (map JObj ps)) (tb\<lparr>tb_rows := Some []\<rparr>) = Inr (tb', ev)"
    by (simp add: table_draw_def)
  with setCollection_contractors [OF this _ ps(2)] assms(2) show ?thesis by (simp add: contractors_ok_def)
qed (use assms in \<open>auto simp: table_draw_def\<close>)

lemma show_page:
  assumes "repair_show h now cl st = Inr st'" "contractors_ok (rp_table st)"
  shows "contractors_ok (rp_table st') \<and> tb_selected (rp_table st') = tb_selected (rp_table st) \<and>
         rp_open st' \<and> rp_claim st' = Some cl \<and> assignButton st' = set_drawn True (assignButton st) \<and>
         assignNewButton st' = set_drawn True (assignNewButton st) \<and> addAssignButton st' = addAssignButton st \<and>
         rp_waiting st' = rp_waiting st \<and> rp_sent st' = rp_sent st"
proof -
  let ?st1 = "\<lambda>tb. st\<lparr>rp_open := True, rp_claim := Some cl, rp_table := tb, unassignButton := set_drawn True (unassignButton st),
      assignButton := set_drawn True (assignButton st), assignNewButton := set_drawn True (assignNewButton st)\<rparr>"
  obtain tb ev where tb: "table_draw h now (rp_table st) = Inr (tb, ev)"
      "st' = (if cl_repair cl = None then ?st1 tb else (?st1 tb)\<lparr>unassignButton := fst (enable None (unassignButton (?st1 tb)))\<rparr>)"
    using assms(1) by (auto simp: repair_show_def Let_def err_simps)
  from draw_contractors [OF tb(1) assms(2)] show ?thesis by (simp add: tb(2))
qed

text \<open>Drawing the sheet and filling its table do not fail.\<close>

lemma setCollection_total: "\<not> tb_paginated tb \<Longrightarrow> \<exists>tb' ev. table_setCollection h now (JArr (map JObj ps)) tb = Inr (tb', ev)"
proof -
  assume p: "\<not> tb_paginated tb"
  let ?tb = "tb\<lparr>tb_collection := map JObj ps\<rparr>"
  obtain rows cols where "draw_rows h (tb_selectable ?tb) (length (tb_collection ?tb)) 0 (tb_columns ?tb) (numbered (tb_collection ?tb)) = (rows, cols)"
    by fastforce
  then have "\<exists>tb' ev. table_render h now ?tb = Inr (tb', ev)"
    using table_render_eq [of ?tb "the (tb_rows tb)"] by (cases "tb_rows tb") (auto simp: table_render_def)
  with p show ?thesis by (simp add: table_setCollection_def del: splat_simps)
qed

lemma show_total: "contractors_ok (rp_table st) \<Longrightarrow> \<exists>st'. repair_show h now cl st = Inr st'"
proof -
  assume "contractors_ok (rp_table st)"
  then obtain ps where "tb_collection (rp_table st) = map JObj ps" "\<not> tb_paginated (rp_table st)"
    by (auto simp: contractors_ok_def objects_def)
  then have "\<exists>tb ev. table_draw h now (rp_table st) = Inr (tb, ev)"
    using setCollection_total [of "(rp_table st)\<lparr>tb_rows := Some []\<rparr>" h now ps] by (simp add: table_draw_def)
  then show ?thesis by (auto simp: repair_show_def Let_def)
qed

lemma gotData_total: "contractors_ok (rp_table st) \<Longrightarrow> \<exists>st'. repair_gotData h now (JArr (map JObj ps)) st = Inr st'"
  using setCollection_total [of "rp_table st" h now ps] by (auto simp: repair_gotData_def table_onGotData_def contractors_ok_def)

subsection \<open>Lemmas on the buttons\<close>

lemma button_states [simp]:
  "b_disabled (fst (enable None b)) = False" "b_disabled (fst (disable None b)) = True" "b_disabled (setLabel l b) = b_disabled b"
  "b_disabled (set_drawn d b) = b_disabled b" "b_label (setLabel l b) = l" "b_label (set_drawn d b) = b_label b"
  "b_request (fst (enable None b)) = b_request b" "b_request (fst (disable None b)) = b_request b"
  "b_request (setLabel l b) = b_request b" "b_request (set_drawn d b) = b_request b"
  by (simp_all add: enable_def disable_def setDisabled_def setLabel_def set_drawn_def split: option.splits)

lemma requestData_cong: "b_request b = b_request b' \<Longrightarrow> requestData b = requestData b'"
  by (simp add: requestData_def)

lemma click_fires [simp]: "fires (button_onClick b) = [] \<longleftrightarrow> b_disabled b"
  by (simp add: button_onClick_def)

lemma row_click_page:
  assumes "row_click i st = Inr st'" "contractors_ok (rp_table st)"
  shows "contractors_ok (rp_table st') \<and> (\<exists>p. tb_selected (rp_table st') = JObj p) \<and> \<not> b_disabled (assignButton st') \<and>
         b_request (assignButton st') = b_request (assignButton st) \<and>
         assignNewButton st' = assignNewButton st \<and> addAssignButton st' = addAssignButton st \<and> rp_open st' = rp_open st \<and>
         rp_claim st' = rp_claim st \<and> rp_waiting st' = rp_waiting st"
proof -
  obtain tb ev where tb: "table_selectRow False i (rp_table st) = (tb, ev, None)"
      "bindE (marker_click (tb_selected tb) (st\<lparr>rp_table := tb\<rparr>)) (\<lambda>st1. Inr (st1\<lparr>assignButton := fst (enable None (assignButton st1))\<rparr>)) = Inr st'"
    using assms(1) by (auto simp: row_click_def split: prod.splits option.splits)
  obtain st1 where st1: "marker_click (tb_selected tb) (st\<lparr>rp_table := tb\<rparr>) = Inr st1"
      "st' = st1\<lparr>assignButton := fst (enable None (assignButton st1))\<rparr>"
    using tb(2) by (auto simp: err_simps)
  obtain j tb2 ev2 where "table_selectRow True j tb = (tb2, ev2, None)"
      "st1 = st\<lparr>rp_table := tb2, assignButton := fst (enable None (assignButton st))\<rparr>"
    using st1(1) by (auto simp: marker_click_def split: prod.splits option.splits)
  with selectRow_contractors [OF tb(1) assms(2)] selectRow_contractors [OF this(1)] st1(2) show ?thesis by simp
qed

lemma send_assign_page:
  "send_assign st = Inr st' \<Longrightarrow>
     rp_table st' = rp_table st \<and> rp_open st' = rp_open st \<and> rp_claim st' = rp_claim st \<and> assignButton st' = assignButton st \<and>
     addAssignButton st' = addAssignButton st \<and> (rp_waiting st' = rp_waiting st \<or> \<not> nullish (tb_selected (rp_table st)))"
  by (auto simp: send_assign_def repair_params_def err_simps split: if_splits option.splits)

lemma failed_page:
  "rp_table (assign_failed st) = rp_table st" "rp_open (assign_failed st) = rp_open st" "rp_claim (assign_failed st) = rp_claim st"
  "rp_waiting (assign_failed st) = rp_waiting st - 1" "addAssignButton (assign_failed st) = addAssignButton st"
  "b_request (assignButton (assign_failed st)) = b_request (assignButton st)"
  by (simp_all add: assign_failed_def Let_def enable_def setDisabled_def setLabel_def split: option.splits)

subsection \<open>The states of the page\<close>

text \<open>Whenever the button that assigns is enabled, or an assignment waits for its answer, a contractor is
  selected.\<close>

definition page_ok :: "'o repair_page \<Rightarrow> bool" where
  "page_ok st =
     (contractors_ok (rp_table st) \<and> requestData (assignButton st) = Some ''post'' \<and> (rp_open st \<longrightarrow> rp_claim st \<noteq> None) \<and>
      (\<not> b_disabled (assignButton st) \<or> 0 < rp_waiting st \<longrightarrow> \<not> nullish (tb_selected (rp_table st))))"

lemma assign_posts: "requestData (assignButton (repair_page_new tb)) = Some ''post''"
  by (simp add: repair_page_new_def button_new_def requestData_def can_def makeRequestable_def requestable_methods_def
      request_new_def add_endpoint_def isValidHTTPMethod_def hash_new_def hash_extend_def hash_set_def hash_proto_def Let_def)

lemma requestData_buttons [simp]:
  "requestData (fst (enable None b)) = requestData b" "requestData (fst (disable None b)) = requestData b"
  "requestData (setLabel l b) = requestData b" "requestData (set_drawn d b) = requestData b"
  by (simp_all add: requestData_def)

lemma ok_hide: "page_ok st \<Longrightarrow> page_ok (repair_hide st)"
  by (simp add: page_ok_def repair_hide_def contractors_ok_def)

lemma ok_send: "page_ok st \<Longrightarrow> send_assign st = Inr st' \<Longrightarrow> page_ok st'"
  using send_assign_page [of st st'] by (auto simp: page_ok_def)

lemma ok_failed: "page_ok st \<Longrightarrow> 0 < rp_waiting st \<Longrightarrow> page_ok (assign_failed st)"
  using requestData_cong [of "assignButton (assign_failed st)" "assignButton st"] by (simp add: page_ok_def failed_page)

interpretation repairs: machine "\<lambda>st. \<exists>tb. st = repair_page_new tb \<and> contractors_ok tb" repair_step page_ok
proof
  fix st :: "'a repair_page"
  assume "\<exists>tb. st = repair_page_new tb \<and> contractors_ok tb"
  then show "page_ok st" using assign_posts by (auto simp: page_ok_def) (simp_all add: repair_page_new_def button_new_def)
next
  fix st st' :: "'a repair_page"
  assume ok: "page_ok st" and "repair_step st st'"
  from this(2) show "page_ok st'"
  proof cases
    case (rs_show h now cl)
    with show_page [OF rs_show(2)] ok show ?thesis by (auto simp: page_ok_def)
  next
    case (rs_data h now ps)
    with gotData_contractors [OF rs_data(1) _ rs_data(2)] ok show ?thesis by (auto simp: page_ok_def)
  next
    case (rs_row i)
    then have "contractors_ok (rp_table st') \<and> requestData (assignButton st') = requestData (assignButton st) \<and>
        (\<exists>p. tb_selected (rp_table st') = JObj p) \<and> rp_claim st' = rp_claim st \<and> rp_open st' = rp_open st"
      using row_click_page [OF rs_row(2)] ok requestData_cong [of "assignButton st'" "assignButton st"] by (simp add: page_ok_def)
    then show ?thesis using ok by (auto simp: page_ok_def)
  next
    case rs_assign
    have "page_ok (assign_clicked st)" if "\<not> b_disabled (assignButton st)"
      using ok that by (simp add: page_ok_def assign_clicked_def)
    with rs_assign ok ok_send show ?thesis by (auto simp: assign_click_def split: if_splits)
  next
    case rs_posted
    with ok show ?thesis by (auto intro!: ok_hide simp: assign_posted_def) (simp add: page_ok_def)
  next
    case (rs_added i)
    then obtain st1 where "send_assign (st\<lparr>rp_table := (rp_table st)\<lparr>tb_selected := JObj [(''id'', i)]\<rparr>\<rparr>) = Inr st1" "st' = new_hide st1"
      by (auto simp: addAssign_posted_def err_simps)
    moreover have "page_ok (st\<lparr>rp_table := (rp_table st)\<lparr>tb_selected := JObj [(''id'', i)]\<rparr>\<rparr>)"
      using ok by (simp add: page_ok_def contractors_ok_def table_ok_def)
    ultimately have "page_ok st1" "st' = new_hide st1" using ok_send by blast+
    then show ?thesis by (simp add: new_hide_def page_ok_def)
  qed (use ok ok_hide ok_failed in \<open>auto simp: unassign_click_def assignNew_click_def new_hide_def addAssign_click_def page_ok_def
         split: option.splits\<close>)
qed

subsection \<open>What stays disabled\<close>

text \<open>Nothing enables the button for a new contractor once it was clicked.\<close>

definition added_once :: "'o repair_page \<Rightarrow> bool" where
  "added_once st = (b_disabled (addAssignButton st) \<and> contractors_ok (rp_table st))"

interpretation adding: machine added_once repair_step added_once
proof
  fix st st' :: "'a repair_page"
  assume ok: "added_once st" and "repair_step st st'"
  from this(2) show "added_once st'"
  proof cases
    case (rs_show h now cl)
    with show_page [OF rs_show(2)] ok show ?thesis by (auto simp: added_once_def)
  next
    case (rs_data h now ps)
    with gotData_contractors [OF rs_data(1) _ rs_data(2)] ok show ?thesis by (auto simp: added_once_def)
  next
    case (rs_row i)
    with row_click_page [OF rs_row(2)] ok show ?thesis by (auto simp: added_once_def)
  next
    case rs_assign
    with ok send_assign_page [of "assign_clicked st" st'] show ?thesis
      by (auto simp: assign_click_def assign_clicked_def added_once_def split: if_splits)
  next
    case (rs_added i)
    then obtain st1 where "send_assign (st\<lparr>rp_table := (rp_table st)\<lparr>tb_selected := JObj [(''id'', i)]\<rparr>\<rparr>) = Inr st1" "st' = new_hide st1"
      by (auto simp: addAssign_posted_def err_simps)
    with send_assign_page [OF this(1)] ok show ?thesis
      by (auto simp: new_hide_def added_once_def contractors_ok_def table_ok_def)
  qed (use ok in \<open>auto simp: added_once_def repair_hide_def unassign_click_def assign_posted_def failed_page assignNew_click_def
         new_hide_def addAssign_click_def contractors_ok_def split: option.splits\<close>)
qed simp

subsection \<open>The points of the circle\<close>

lemma length_circle_from: "0 < s \<Longrightarrow> length (circle_from p s i) = (if i \<le> 360 then Suc ((360 - i) div s) else 0)"
proof (induction p s i rule: circle_from.induct)
  case (1 p s i)
  show ?case
  proof (cases "i + s \<le> 360")
    case True
    then have "(360 - i) div s = Suc ((360 - (i + s)) div s)" using 1(2) by (simp add: le_div_geq)
    with 1 True show ?thesis by (subst circle_from.simps) simp
  next
    case False
    then show ?thesis using 1 by (subst circle_from.simps) simp
  qed
qed

lemma set_circle_from: "set (circle_from p s i) \<subseteq> range p"
proof (induction p s i rule: circle_from.induct)
  case (1 p s i)
  then show ?case by (subst circle_from.simps) auto
qed

subsection \<open>Properties\<close>

text \<open>Property C3. However claims are opened, contractors searched, selected and added, and requests answered or
  lost, a click on \<open>Assign Selected\<close> while it is enabled does not throw: it disables the three buttons and
  sends one request, with the claim that is open and the selected contractor.\<close>

theorem assign_sends_selected:
  assumes "contractors_ok tb0" "repair_step\<^sup>*\<^sup>* (repair_page_new tb0) st" "rp_open st" "\<not> b_disabled (assignButton st)"
  shows "\<exists>cl i st'. rp_claim st = Some cl \<and> read_prop (tb_selected (rp_table st)) ''id'' = Inr i \<and> assign_click st = Inr st' \<and>
           rp_sent st' = rp_sent st @ [(''assign'', [(''id'', cl_id cl), (''repair_id'', case cl_repair cl of None \<Rightarrow> JNull | Some r \<Rightarrow> r),
                                              (''repair[contractor_id]'', i)])] \<and>
           b_disabled (assignButton st') \<and> b_disabled (unassignButton st') \<and> b_disabled (assignNewButton st')"
proof -
  have ok: "page_ok st" using repairs.reachable_inv assms(1,2) by blast
  then obtain cl where cl: "rp_claim st = Some cl" using assms(3) by (auto simp: page_ok_def)
  moreover obtain i where "read_prop (tb_selected (rp_table st)) ''id'' = Inr i"
    using ok assms(4) read_nonnullish [of "tb_selected (rp_table st)" "''id''"] by (auto simp: page_ok_def)
  ultimately show ?thesis
    using ok assms(4) by (auto simp: page_ok_def assign_click_def send_assign_def repair_params_def assign_clicked_def)
qed

definition sample_contractors :: "nat citable" where
  "sample_contractors = table_new (\<lambda>_ _. False) [(''selectable'', JBool True)] [] []"

definition sample_claim :: claim where
  "sample_claim = \<lparr>cl_id = JNum 3, cl_repair = None, cl_lat = JNull, cl_lng = JNull\<rparr>"

lemma sample_contractors_ok: "contractors_ok sample_contractors"
  by (simp add: sample_contractors_def contractors_ok_def objects_def table_new_def get_prop_def arr_clean_def Let_def)

theorem assign_sends_selected_witness:
  "\<exists>st st' ps. repair_step\<^sup>*\<^sup>* (repair_page_new sample_contractors) st \<and> assign_click st = Inr st' \<and>
     rp_sent st' = rp_sent st @ [(''assign'', ps)] \<and> b_disabled (assignButton st')"
proof -
  let ?st0 = "repair_page_new sample_contractors"
  have t0: "contractors_ok (rp_table ?st0)" using sample_contractors_ok by (simp add: repair_page_new_def)
  then obtain st1 where st1: "repair_show 20 0 sample_claim ?st0 = Inr st1" using show_total by blast
  have s1: "rp_open st1" "rp_claim st1 = Some sample_claim" "requestData (assignButton st1) = Some ''post''"
    using show_page [OF st1 t0] assign_posts [of sample_contractors] by simp_all
  have d1: "b_drawn (assignButton st1)" "b_drawn (assignNewButton st1)" "b_drawn (unassignButton st1)"
    using st1 by (auto simp: repair_show_def Let_def set_drawn_def sample_claim_def err_simps)
  then obtain st2 where st2: "addAssign_posted (JNum 7) st1 = Inr st2" "0 < rp_waiting st2" "rp_open st2"
    "b_drawn (assignButton st2)" "b_drawn (assignNewButton st2)" "b_drawn (unassignButton st2)"
    using s1 by (simp add: addAssign_posted_def send_assign_def repair_params_def new_hide_def)
  then have s3: "rp_open (assign_failed st2)" "\<not> b_disabled (assignButton (assign_failed st2))"
    by (simp_all add: assign_failed_def Let_def enable_def setDisabled_def setLabel_def)
  have "\<not> rp_open ?st0" by (simp add: repair_page_new_def)
  from rs_show [OF this st1] rs_added [OF st2(1)] rs_failed [OF st2(2)]
  have steps: "repair_step\<^sup>*\<^sup>* ?st0 (assign_failed st2)" by (meson converse_rtranclp_into_rtranclp rtranclp.rtrancl_refl)
  from assign_sends_selected [OF sample_contractors_ok steps s3] steps show ?thesis by blast
qed

text \<open>Property C33. The selection and the enabled button outlive the claim they were made for: when the sheet is
  cancelled and opened for another claim, and whatever contractors are found near that one, a click
  assigns the contractor selected for the first claim to the second.\<close>

theorem selection_outlives_claim:
  assumes "contractors_ok (rp_table st)" "tb_selected (rp_table st) = JObj p" "\<not> b_disabled (assignButton st)"
    and "requestData (assignButton st) \<noteq> None" "repair_show h now other (repair_hide st) = Inr st1"
    and "repair_gotData h' now' (JArr (map JObj ps)) st1 = Inr st2" "list_all (\<lambda>q. distinct (map fst q)) ps"
  shows "\<exists>st3. assign_click st2 = Inr st3 \<and>
           rp_sent st3 = rp_sent st @ [(''assign'', [(''id'', cl_id other), (''repair_id'', case cl_repair other of None \<Rightarrow> JNull | Some r \<Rightarrow> r),
                                              (''repair[contractor_id]'', get_prop p ''id'')])]"
proof -
  have "contractors_ok (rp_table (repair_hide st))" using assms(1) by (simp add: repair_hide_def contractors_ok_def)
  from show_page [OF assms(5) this] have s1: "contractors_ok (rp_table st1)" "tb_selected (rp_table st1) = JObj p" "rp_claim st1 = Some other"
    "assignButton st1 = set_drawn True (set_drawn False (assignButton st))" "rp_sent st1 = rp_sent st"
    using assms(2) by (simp_all add: repair_hide_def)
  from gotData_contractors [OF assms(6) this(1) assms(7)] obtain tb where "st2 = st1\<lparr>rp_table := tb\<rparr>" "tb_selected tb = JObj p"
    using s1 by auto
  then show ?thesis
    using s1 assms(3,4) by (auto simp: assign_click_def send_assign_def repair_params_def assign_clicked_def)
qed

theorem selection_outlives_claim_witness:
  "\<exists>(st :: nat repair_page) st1 st2 st3. tb_selected (rp_table st) = JObj [(''id'', JNum 5)] \<and> repair_show 20 0 sample_claim (repair_hide st) = Inr st1 \<and>
     repair_gotData 20 0 (JArr (map JObj [[(''id'', JNum 8)]])) st1 = Inr st2 \<and> assign_click st2 = Inr st3 \<and>
     rp_sent st3 = rp_sent st @ [(''assign'', [(''id'', JNum 3), (''repair_id'', JNull), (''repair[contractor_id]'', JNum 5)])]"
proof -
  let ?tb = "sample_contractors\<lparr>tb_selected := JObj [(''id'', JNum 5)]\<rparr>"
  let ?st = "(repair_page_new ?tb)\<lparr>assignButton := fst (enable None (assignButton (repair_page_new ?tb)))\<rparr>"
  have t: "rp_table ?st = ?tb" "contractors_ok ?tb"
    using sample_contractors_ok by (simp_all add: repair_page_new_def contractors_ok_def table_ok_def)
  then have h: "contractors_ok (rp_table (repair_hide ?st))" by (simp add: repair_hide_def contractors_ok_def)
  then obtain st1 where st1: "repair_show 20 0 sample_claim (repair_hide ?st) = Inr st1" using show_total by blast
  moreover obtain st2 where st2: "repair_gotData 20 0 (JArr (map JObj [[(''id'', JNum 8)]])) st1 = Inr st2"
    using gotData_total show_page [OF st1 h] by blast
  moreover have "requestData (assignButton ?st) \<noteq> None" using assign_posts [of ?tb] by simp
  then have "\<exists>st3. assign_click st2 = Inr st3 \<and> rp_sent st3 =
      rp_sent ?st @ [(''assign'', [(''id'', JNum 3), (''repair_id'', JNull), (''repair[contractor_id]'', JNum 5)])]"
    using selection_outlives_claim [OF _ _ _ _ st1 st2, of "[(''id'', JNum 5)]"] t by (simp add: sample_claim_def get_prop_def)
  moreover have "tb_selected (rp_table ?st) = JObj [(''id'', JNum 5)]" by (simp add: t(1))
  ultimately show ?thesis by blast
qed

text \<open>A contractor can be added once: after the first click on \<open>Add & Assign\<close>, and whatever happens
  later, failures included, a click on it does nothing.\<close>

lemma contractor_added_once:
  assumes "contractors_ok (rp_table st)" "repair_step\<^sup>*\<^sup>* (addAssign_click ps st) later"
  shows "addAssign_click qs later = later"
proof -
  have "added_once (addAssign_click ps st)" using assms(1) by (simp add: added_once_def addAssign_click_def)
  from adding.reachable_inv [OF this assms(2)] show ?thesis by (simp add: added_once_def addAssign_click_def)
qed

text \<open>Property C40. The circle around the customer is a closed polygon of forty-two points, each at the radius
  of the search from the center, when distances are measured by the kilometres of a degree there.\<close>

theorem circle_at_radius:
  assumes "latConv = distanceFrom center (fst center + 1 / 10, snd center) / 100" "latConv \<noteq> 0"
    and "lngConv = distanceFrom center (fst center, snd center + 1 / 10) / 100" "lngConv \<noteq> 0"
    and "q \<in> set (drawCircleAtPoint distanceFrom miles center)"
  shows "length (drawCircleAtPoint distanceFrom miles center) = 42 \<and>
         last (drawCircleAtPoint distanceFrom miles center) = hd (drawCircleAtPoint distanceFrom miles center) \<and>
         ((fst q - fst center) * latConv)\<^sup>2 + ((snd q - snd center) * lngConv)\<^sup>2 = (miles * (1609344 / 1000000))\<^sup>2"
proof -
  let ?r = "miles * (1609344 / 1000000)"
  let ?pts = "circle_from (circle_point ?r latConv lngConv center) 9 0"
  have d: "drawCircleAtPoint distanceFrom miles center = ?pts @ [hd ?pts]"
    by (simp add: drawCircleAtPoint_def Let_def assms(1,3))
  have len: "length ?pts = 41" by (simp add: length_circle_from)
  then have ne: "?pts \<noteq> []" by auto
  have "q \<in> set ?pts" using assms(5) hd_in_set [OF ne] unfolding d by auto
  then obtain i where "q = circle_point ?r latConv lngConv center i" using set_circle_from by blast
  then have "((fst q - fst center) * latConv)\<^sup>2 + ((snd q - snd center) * lngConv)\<^sup>2 =
      (?r * cos (real i * pi / 180))\<^sup>2 + (?r * sin (real i * pi / 180))\<^sup>2"
    using assms(2,4) by (simp add: circle_point_def)
  also have "\<dots> = ?r\<^sup>2 * ((cos (real i * pi / 180))\<^sup>2 + (sin (real i * pi / 180))\<^sup>2)" by (simp only: power_mult_distrib distrib_left)
  finally show ?thesis using len ne by (simp add: d)
qed

theorem circle_at_radius_witness:
  "length (drawCircleAtPoint (\<lambda>a b. 1000 * (\<bar>fst a - fst b\<bar> + \<bar>snd a - snd b\<bar>)) 15 (40, -74)) = 42"
proof -
  let ?d = "\<lambda>a b :: point. 1000 * (\<bar>fst a - fst b\<bar> + \<bar>snd a - snd b\<bar>)"
  have "hd (drawCircleAtPoint ?d 15 (40, -74)) \<in> set (drawCircleAtPoint ?d 15 (40, -74))"
    by (rule hd_in_set) (simp add: drawCircleAtPoint_def Let_def)
  from circle_at_radius [of 1 ?d "(40, -74)" 1, OF _ _ _ _ this] show ?thesis by simp
qed

end
