(* ===== verification/Fax_Pages.thy ===== *)
theory Fax_Pages
  imports Admin CI_Panels
begin

section \<open>The faxes of the administration pages\<close>

text \<open>
  \<open>CIApplication.generateFaxesTable\<close> and \<open>CIApplication.assignFax\<close> of \<open>admin.js\<close>: the cells of the table of faxes as
  trees of components, and the page as a state machine of what the staff click and what the server answers. The
  table asks for the list of faxes when it is told to; each click on \<open>Assign...\<close> makes a panel with a search and
  a table of its own.

  The property says when the list on the page is the one after the last change: always, unless an
  assignment is taken back on a page that has no variable \<open>faxesTable\<close>.
\<close>

subsection \<open>The cells\<close>

definition no_conf :: cell_conf where
  "no_conf = \<lparr>cc_valign = JUndef, cc_styles = []\<rparr>"

text \<open>A button, image or element in a panel, by its identifier, tag and attributes.\<close>

definition fax_button :: "string \<Rightarrow> string \<Rightarrow> widget" where
  "fax_button i label = Leaf i ''div'' [(''class'', JStr ''CIButton  CIHudLink''), (''html'', JStr label)]"

definition fax_element :: "string \<Rightarrow> string \<Rightarrow> jsval \<Rightarrow> widget" where
  "fax_element i tag html = Leaf i tag [(''html'', html)]"

definition fax_panel :: "props option \<Rightarrow> string \<Rightarrow> widget list \<Rightarrow> widget" where
  "fax_panel options i ws = VPanel (panel_new i [] [] options) (map (Pair no_conf) ws)"

text \<open>The preview: the picture, and the button that asks whether the fax is to be deleted. The identifiers of the
  components are arguments.\<close>

definition fax_preview_cell :: "string \<Rightarrow> string \<Rightarrow> string \<Rightarrow> jsval \<Rightarrow> widget" where
  "fax_preview_cell panel img button i =
     fax_panel (Some [(''spacing'', JNum 5)]) panel
       [Leaf img ''img'' [(''src'', JStr (''/admin/faxes/thumbnail/'' @ to_string i)),
          (''styles'', JObj [(''border'', JStr ''1px solid #CCC'')])],
        Leaf button ''img'' [(''src'', JStr ''/assets/icons/action/delete.png''), (''alt'', JStr ''Permanently delete this fax''),
          (''title'', JStr ''Permanently delete this fax''), (''class'', JStr ''CIImageButton CIHudLink undefined'')]]"

definition fax_summary :: "jsval \<Rightarrow> jsval" where
  "fax_summary r =
     JStr (''<a target='' @ dq @ ''_blank'' @ dq @ '' href='' @ dq @ ''/admin/faxes/download/'' @ to_string (field r ''id'') @ dq
       @ ''>Open PDF</a><br/>'' @ ''From: '' @ to_string (field r ''formatted_sender_fax_number'') @ ''<br/>''
       @ ''Received: '' @ to_string (field r ''received_at''))"

text \<open>One line for each customer or contractor the fax is assigned to; the panel is made from an array.\<close>

definition assignable_line :: "string \<times> string \<times> string \<Rightarrow> jsval \<Rightarrow> widget" where
  "assignable_line ids a =
     (case ids of (panel, strong, button) \<Rightarrow>
        HPanel (panel_new panel [] [] (Some [])) (map (Pair no_conf) [fax_element strong ''strong'' (field a ''summary''), fax_button button ''Unassign'']))"

definition fax_cell :: "string \<Rightarrow> string \<Rightarrow> string \<Rightarrow> (nat \<Rightarrow> string \<times> string \<times> string) \<Rightarrow> jsval \<Rightarrow> js_error + widget" where
  "fax_cell panel spn button line_ids r =
     (case field r ''assignables'' of
        JArr as \<Rightarrow>
          Inr (fax_panel (Some [(''spacing'', JNum 5)]) panel
            (fax_element spn ''span'' (fax_summary r) # map (\<lambda>(k, a). assignable_line (line_ids k) a) (enumerate 0 as)
               @ [fax_button button ''Assign...'']))
      | _ \<Rightarrow> Inl TypeError)"

subsection \<open>The page\<close>

datatype fax_request =
    ListFaxes
  | RetrieveFaxes
  | DestroyFax jsval
  | UnassignFax jsval jsval
  | SearchAssignables nat
  | AssignFax nat jsval

text \<open>A panel that assigns a fax: whether it is open, the fax, its button and the records it found.\<close>

record 'o fax_hud =
  fh_open :: bool
  fh_fax :: jsval
  fh_button :: "'o cibutton"
  fh_found :: "jsval list"

text \<open>The page: the address of the list, whether there is a variable \<open>faxesTable\<close>, the button that retrieves faxes,
  the faxes shown, the fax whose deletion is to be confirmed, the panels made so far, the requests without an
  answer, and what the handlers threw. \<open>fa_stale\<close> says that the server has confirmed a change and the list
  has not been asked for since.\<close>

record 'o fax_page =
  fa_url :: string
  fa_global :: bool
  fa_retrieve :: "'o cibutton option"
  fa_faxes :: "jsval list"
  fa_prompt :: "jsval option"
  fa_huds :: "'o fax_hud list"
  fa_waiting :: "fax_request list"
  fa_thrown :: "js_error list"
  fa_stale :: bool

definition retrieve_button :: "string \<Rightarrow> 'o cibutton" where
  "retrieve_button key =
     (button_new ''retrieve'' (Some ''Retrieve'') (Some ''/assets/icons/action/download.png'') False False
       [(''get'', UrlOnly (''/admin/fax_sources/retrieve/'' @ key))] [])\<lparr>b_drawn := True\<rparr>"

definition generateFaxesTable :: "string \<Rightarrow> string option \<Rightarrow> string \<Rightarrow> bool \<Rightarrow> bool \<Rightarrow> 'o fax_page" where
  "generateFaxesTable key forResource resourceId cannotRetrieve global =
     \<lparr>fa_url = faxes_url key forResource resourceId, fa_global = global,
      fa_retrieve = (if cannotRetrieve then None else Some (retrieve_button key)),
      fa_faxes = [], fa_prompt = None, fa_huds = [], fa_waiting = [], fa_thrown = [], fa_stale = False\<rparr>"

definition fax_send :: "fax_request \<Rightarrow> 'o fax_page \<Rightarrow> 'o fax_page" where
  "fax_send r st = st\<lparr>fa_waiting := fa_waiting st @ [r], fa_stale := (fa_stale st \<and> r \<noteq> ListFaxes)\<rparr>"

text \<open>The address and the parameters of a request.\<close>

definition fax_address :: "string \<Rightarrow> 'o fax_page \<Rightarrow> jsval \<Rightarrow> fax_request \<Rightarrow> string \<times> props" where
  "fax_address key st query r =
     (case r of
        ListFaxes \<Rightarrow> (fa_url st, [])
      | RetrieveFaxes \<Rightarrow> (''/admin/fax_sources/retrieve/'' @ key, [])
      | DestroyFax i \<Rightarrow> (''/admin/faxes/destroy/'' @ to_string i, [])
      | UnassignFax i a \<Rightarrow> (''/admin/faxes/async_unassign/'' @ to_string i,
          [(''assignable_id'', field a ''id''), (''assignable_type'', field a ''type'')])
      | SearchAssignables k \<Rightarrow> (''/admin/faxes/async_assignment_search'', [(''q'', query)])
      | AssignFax k found \<Rightarrow> (''/admin/faxes/async_assign'', assign_params (fh_fax (fa_huds st ! k)) found))"

definition retrieve_click :: "'o fax_page \<Rightarrow> 'o fax_page" where
  "retrieve_click st =
     (case fa_retrieve st of
        None \<Rightarrow> st
      | Some b \<Rightarrow>
          if fires (button_onClick b) = [] then st
          else fax_send RetrieveFaxes (st\<lparr>fa_retrieve := Some (setLabel ''Retrieving...'' (fst (disable None b)))\<rparr>))"

definition delete_click :: "jsval \<Rightarrow> 'o fax_page \<Rightarrow> 'o fax_page" where
  "delete_click i st = st\<lparr>fa_prompt := Some i\<rparr>"

definition delete_answered :: "bool \<Rightarrow> 'o fax_page \<Rightarrow> 'o fax_page" where
  "delete_answered affirmed st =
     (case fa_prompt st of
        None \<Rightarrow> st
      | Some i \<Rightarrow> (if affirmed then fax_send (DestroyFax i) else id) (st\<lparr>fa_prompt := None\<rparr>))"

definition unassign_fax_click :: "jsval \<Rightarrow> jsval \<Rightarrow> 'o fax_page \<Rightarrow> 'o fax_page" where
  "unassign_fax_click i a st = fax_send (UnassignFax i a) st"

definition assignFax :: "jsval \<Rightarrow> 'o fax_page \<Rightarrow> 'o fax_page" where
  "assignFax i st =
     st\<lparr>fa_huds := fa_huds st @ [\<lparr>fh_open = True, fh_fax = i,
          fh_button = (button_new ''search'' (Some ''Search'') None False False [] [])\<lparr>b_drawn := True\<rparr>, fh_found = []\<rparr>]\<rparr>"

text \<open>The search of a panel, by its button or by the key in its field, which does not look whether the button is
  disabled; a click on a record it found.\<close>

definition fax_search :: "nat \<Rightarrow> 'o fax_page \<Rightarrow> 'o fax_page" where
  "fax_search k st =
     (let h = fa_huds st ! k
      in fax_send (SearchAssignables k) (st\<lparr>fa_huds := (fa_huds st)[k := h\<lparr>fh_button := fst (doSearch (fh_button h))\<rparr>]\<rparr>))"

definition fax_search_click :: "nat \<Rightarrow> 'o fax_page \<Rightarrow> 'o fax_page" where
  "fax_search_click k st = (if fires (button_onClick (fh_button (fa_huds st ! k))) = [] then st else fax_search k st)"

definition assignable_click :: "nat \<Rightarrow> jsval \<Rightarrow> 'o fax_page \<Rightarrow> 'o fax_page" where
  "assignable_click k found st = fax_send (AssignFax k found) st"

text \<open>The handlers of the answers; \<open>response\<close> are the records of a list. A confirmed change makes the list on the page
  stale until it is asked for again.\<close>

definition fax_changed :: "'o fax_page \<Rightarrow> 'o fax_page" where
  "fax_changed st = st\<lparr>fa_stale := True\<rparr>"

definition fax_handler :: "jsval list \<Rightarrow> fax_request \<Rightarrow> 'o fax_page \<Rightarrow> 'o fax_page" where
  "fax_handler response r st =
     (case r of
        ListFaxes \<Rightarrow> st\<lparr>fa_faxes := response\<rparr>
      | RetrieveFaxes \<Rightarrow>
          fax_send ListFaxes (fax_changed (st\<lparr>fa_retrieve := map_option (\<lambda>b. setLabel ''Retrieve'' (fst (enable None b))) (fa_retrieve st)\<rparr>))
      | DestroyFax i \<Rightarrow> fax_send ListFaxes (fax_changed st)
      | UnassignFax i a \<Rightarrow>
          (if fa_global st then fax_send ListFaxes (fax_changed st)
           else (fax_changed st)\<lparr>fa_thrown := fa_thrown st @ [ReferenceError]\<rparr>)
      | SearchAssignables k \<Rightarrow>
          (let h = fa_huds st ! k
           in st\<lparr>fa_huds := (fa_huds st)[k := h\<lparr>fh_found := response, fh_button := fst (searchGotData (fh_button h))\<rparr>]\<rparr>)
      | AssignFax k found \<Rightarrow>
          fax_send ListFaxes (fax_changed (st\<lparr>fa_huds := (fa_huds st)[k := (fa_huds st ! k)\<lparr>fh_open := False\<rparr>]\<rparr>)))"

definition fax_answer :: "jsval list \<Rightarrow> fax_request \<Rightarrow> 'o fax_page \<Rightarrow> 'o fax_page" where
  "fax_answer response r st = fax_handler response r (st\<lparr>fa_waiting := remove1 r (fa_waiting st)\<rparr>)"

text \<open>No handler listens to a failure.\<close>

definition fax_failure :: "fax_request \<Rightarrow> 'o fax_page \<Rightarrow> 'o fax_page" where
  "fax_failure r st = st\<lparr>fa_waiting := remove1 r (fa_waiting st)\<rparr>"

inductive fax_step :: "'o fax_page \<Rightarrow> 'o fax_page \<Rightarrow> bool" where
  fs_list: "fax_step st (fax_send ListFaxes st)"
| fs_retrieve: "fax_step st (retrieve_click st)"
| fs_delete: "fax_step st (delete_click i st)"
| fs_prompt: "fax_step st (delete_answered yes st)"
| fs_unassign: "fax_step st (unassign_fax_click i a st)"
| fs_assign: "fax_step st (assignFax i st)"
| fs_enter: "k < length (fa_huds st) \<Longrightarrow> fax_step st (fax_search k st)"
| fs_search: "k < length (fa_huds st) \<Longrightarrow> fax_step st (fax_search_click k st)"
| fs_found: "k < length (fa_huds st) \<Longrightarrow> found \<in> set (fh_found (fa_huds st ! k)) \<Longrightarrow> fax_step st (assignable_click k found st)"
| fs_answer: "r \<in> set (fa_waiting st) \<Longrightarrow> fax_step st (fax_answer response r st)"
| fs_failure: "r \<in> set (fa_waiting st) \<Longrightarrow> fax_step st (fax_failure r st)"

subsection \<open>The list and the changes\<close>

text \<open>The button that retrieves is disabled while its request runs. The list is stale only after a handler has
  thrown, which happens on pages without the variable only.\<close>

definition fax_ok :: "'o fax_page \<Rightarrow> bool" where
  "fax_ok st \<longleftrightarrow>
     (fa_stale st \<longrightarrow> fa_thrown st \<noteq> []) \<and> (fa_global st \<longrightarrow> fa_thrown st = []) \<and>
     (case fa_retrieve st of
        None \<Rightarrow> RetrieveFaxes \<notin> set (fa_waiting st)
      | Some b \<Rightarrow> count_list (fa_waiting st) RetrieveFaxes \<le> (if b_disabled b then 1 else 0))"


lemma count_remove1: "count_list (remove1 r xs) y = count_list xs y - (if y = r then 1 else 0)"
  by (induction xs) (auto simp: Suc_diff_le count_list_0_iff Suc_leI)

lemma enabled_fires [simp]: "fires (button_onClick b) = [] \<longleftrightarrow> b_disabled b"
  by (simp add: button_onClick_def)

lemma fax_button_states [simp]:
  "b_disabled (setLabel l b) = b_disabled b" "b_disabled (fst (disable None b))" "\<not> b_disabled (fst (enable None b))"
  by (simp_all add: setLabel_def disable_def enable_def setDisabled_def split: prod.splits option.splits)

lemma fax_ok_send: "fax_ok st \<Longrightarrow> r \<noteq> RetrieveFaxes \<Longrightarrow> fax_ok (fax_send r st)"
  by (auto simp: fax_ok_def fax_send_def split: option.splits)

lemma fax_ok_failure: "fax_ok st \<Longrightarrow> fax_ok (fax_failure r st)"
  by (auto simp: fax_ok_def fax_failure_def count_remove1 dest: notin_set_remove1 split: option.splits if_splits)

lemma fax_ok_retrieve: "fax_ok st \<Longrightarrow> fax_ok (retrieve_click st)"
  by (auto simp: fax_ok_def retrieve_click_def fax_send_def split: option.splits if_splits)

lemma fax_ok_retrieved:
  assumes "fax_ok st" "RetrieveFaxes \<in> set (fa_waiting st)"
  shows "fax_ok (fax_answer response RetrieveFaxes st)"
  using assms
  by (auto simp: fax_ok_def fax_answer_def fax_handler_def fax_send_def fax_changed_def count_remove1
      split: option.splits if_splits)

lemma fax_ok_handler:
  "fax_ok st \<Longrightarrow> r \<noteq> RetrieveFaxes \<Longrightarrow> fax_ok (fax_handler response r st)"
  by (cases r) (auto simp: fax_ok_def fax_handler_def fax_send_def fax_changed_def Let_def split: option.splits)

lemma fax_ok_answer:
  assumes "fax_ok st" "r \<in> set (fa_waiting st)"
  shows "fax_ok (fax_answer response r st)"
proof (cases "r = RetrieveFaxes")
  case False
  have "fax_ok (st\<lparr>fa_waiting := remove1 r (fa_waiting st)\<rparr>)"
    using fax_ok_failure [OF assms(1)] by (simp add: fax_failure_def)
  then show ?thesis using fax_ok_handler False by (simp add: fax_answer_def)
qed (use assms fax_ok_retrieved in auto)

lemma fax_ok_quiet:
  "fax_ok st \<Longrightarrow> fax_ok (st\<lparr>fa_prompt := p\<rparr>)" "fax_ok st \<Longrightarrow> fax_ok (st\<lparr>fa_huds := hs\<rparr>)"
  by (auto simp: fax_ok_def split: option.splits)

interpretation faxes: machine
  "\<lambda>st. \<exists>key res i no global. st = generateFaxesTable key res i no global" fax_step fax_ok
proof
  fix s t :: "'o fax_page"
  assume ok: "fax_ok s" and "fax_step s t"
  from this(2) show "fax_ok t"
    by cases (use ok in \<open>auto simp: delete_click_def delete_answered_def unassign_fax_click_def assignFax_def fax_search_def
        fax_search_click_def assignable_click_def Let_def split: option.split
        intro: fax_ok_send fax_ok_retrieve fax_ok_failure fax_ok_answer fax_ok_quiet\<close>)
qed (auto simp: generateFaxesTable_def fax_ok_def retrieve_button_def button_new_def)






text \<open>Without the variable the answer to an unassignment throws, and the page goes on showing the assignment.\<close>

lemma unassigned_still_shown:
  assumes "\<not> fa_global st"
  shows "fa_faxes (fax_answer response (UnassignFax i a) st) = fa_faxes st \<and>
         fa_waiting (fax_answer response (UnassignFax i a) st) = remove1 (UnassignFax i a) (fa_waiting st) \<and>
         ReferenceError \<in> set (fa_thrown (fax_answer response (UnassignFax i a) st))"
  using assms by (simp add: fax_answer_def fax_handler_def fax_changed_def)

end
