(* ===== verification/Moo_Fx.thy ===== *)
theory Moo_Fx
  imports Moo
begin

section \<open>Animations of MooTools\<close>

text \<open>
  The class \<open>Fx\<close> moves a value from one number to another while a timer runs. This theory models the
  engine (its timer, what it does with a start while it runs, its chain of functions), the easing functions
  \<open>Fx.Transitions\<close> and the two-valued animation \<open>Fx.Slide\<close>. The clock is an argument of every operation that
  reads it. What an operation does beside changing the object is a list of effects: values that are set,
  events, and functions of the chain that are called.

  The default easing is the same function in both definitions of \<open>getTransition\<close>, the value of an animation
  stays between its ends and only moves forward, and \<open>Bounce\<close> returns although its loop has no condition.
  The property is about the order of animations that are started while another is running: with the option
  \<open>link\<close> set to \<open>chain\<close> they are run one after the other.
\<close>

subsection \<open>Easing functions\<close>

text \<open>An easing function maps the share of the time that has passed to a share of the way. It may throw, and
  its loop may never end, which is \<open>None\<close>. The functions of the table also take the array of their
  parameters, which is undefined (\<open>None\<close>) when they are called directly; \<open>Fx.Transition\<close> gives three ways of calling
  them with it.\<close>

type_synonym easing = "real \<Rightarrow> (js_error + real) option"

abbreviation returns :: "real \<Rightarrow> (js_error + real) option" where
  "returns y \<equiv> Some (Inr y)"

definition on_result :: "(real \<Rightarrow> real) \<Rightarrow> (js_error + real) option \<Rightarrow> (js_error + real) option" where
  "on_result f r = map_option (map_sum id f) r"

definition easeIn :: "(real list option \<Rightarrow> easing) \<Rightarrow> real list \<Rightarrow> easing" where
  "easeIn b a c = b (Some a) c"

definition easeOut :: "(real list option \<Rightarrow> easing) \<Rightarrow> real list \<Rightarrow> easing" where
  "easeOut b a c = on_result (\<lambda>y. 1 - y) (b (Some a) (1 - c))"

definition easeInOut :: "(real list option \<Rightarrow> easing) \<Rightarrow> real list \<Rightarrow> easing" where
  "easeInOut b a c =
     (if c \<le> 1 / 2 then on_result (\<lambda>y. y / 2) (b (Some a) (2 * c))
      else on_result (\<lambda>y. (2 - y) / 2) (b (Some a) (2 * (1 - c))))"

text \<open>\<open>a[0] || d\<close>, which throws when the array is undefined. The shares of the time are not negative, where
  \<open>powr\<close> is \<open>Math.pow\<close>.\<close>

definition param_or :: "real list option \<Rightarrow> real \<Rightarrow> js_error + real" where
  "param_or a d = (case a of None \<Rightarrow> Inl TypeError | Some [] \<Rightarrow> Inr d | Some (x # _) \<Rightarrow> Inr (if x = 0 then d else x))"

definition tr_linear :: easing where
  "tr_linear x = returns x"

definition tr_Pow :: "real list option \<Rightarrow> easing" where
  "tr_Pow a b = Some (bindE (param_or a 6) (\<lambda>n. Inr (b powr n)))"

definition tr_Expo :: "real list option \<Rightarrow> easing" where
  "tr_Expo _ a = returns (2 powr (8 * (a - 1)))"

definition tr_Circ :: "real list option \<Rightarrow> easing" where
  "tr_Circ _ a = returns (1 - sin (arccos a))"

definition tr_Sine :: "real list option \<Rightarrow> easing" where
  "tr_Sine _ a = returns (1 - sin ((1 - a) * pi / 2))"

definition tr_Back :: "real list option \<Rightarrow> easing" where
  "tr_Back a b = Some (bindE (param_or a 1.618) (\<lambda>s. Inr (b ^ 2 * ((s + 1) * b - s))))"

partial_function (option) bounce_loop :: "real \<Rightarrow> real \<Rightarrow> real \<Rightarrow> real option" where
  "bounce_loop f d c =
     (if f \<ge> (7 - 4 * d) / 11 then Some (c * c - ((11 - 6 * d - 11 * f) / 4) ^ 2)
      else bounce_loop f (d + c) (c / 2))"

definition tr_Bounce :: "real list option \<Rightarrow> easing" where
  "tr_Bounce _ f = map_option Inr (bounce_loop f 0 1)"

definition tr_Elastic :: "real list option \<Rightarrow> easing" where
  "tr_Elastic a b0 =
     (let b = b0 - 1 in Some (bindE (param_or a 1) (\<lambda>k. Inr (2 powr (10 * b) * cos (20 * b * pi * k / 3)))))"

text \<open>\<open>Quad\<close>, \<open>Cubic\<close>, \<open>Quart\<close> and \<open>Quint\<close>, by their position in the array of names.\<close>

definition tr_power :: "nat \<Rightarrow> real list option \<Rightarrow> easing" where
  "tr_power i _ c = returns (c ^ (i + 2))"

definition transitions :: "(string \<times> (real list option \<Rightarrow> easing)) list" where
  "transitions =
     [(''Pow'', tr_Pow), (''Expo'', tr_Expo), (''Circ'', tr_Circ), (''Sine'', tr_Sine), (''Back'', tr_Back),
      (''Bounce'', tr_Bounce), (''Elastic'', tr_Elastic), (''Quad'', tr_power 0), (''Cubic'', tr_power 1),
      (''Quart'', tr_power 2), (''Quint'', tr_power 3)]"

text \<open>\<open>getTransition\<close>, first as \<open>Fx\<close> has it and then as it is replaced: the option is a function or a text such as
  \<open>sine:in:out\<close>. A text that names nothing gives an undefined function (\<open>None\<close>), or throws if it also asks for an
  easing; \<open>linear\<close> has no easings. The members that the table inherits from \<open>Hash\<close> are not looked up.\<close>

definition ease_default :: "real \<Rightarrow> real" where
  "ease_default a = - (cos (pi * a) - 1) / 2"

definition fx_getTransition :: easing where
  "fx_getTransition a = returns (ease_default a)"

fun split_on :: "char \<Rightarrow> string \<Rightarrow> string list" where
  "split_on c [] = [[]]"
| "split_on c (x # s) =
     (if x = c then [] # split_on c s
      else (case split_on c s of [] \<Rightarrow> [[x]] | w # ws \<Rightarrow> (x # w) # ws))"

definition ease_named :: "string \<Rightarrow> (real list option \<Rightarrow> easing) \<Rightarrow> easing option" where
  "ease_named n b =
     (if n = ''easeIn'' then Some (easeIn b []) else if n = ''easeOut'' then Some (easeOut b [])
      else if n = ''easeInOut'' then Some (easeInOut b []) else None)"

definition transition_named :: "string \<Rightarrow> string \<Rightarrow> string \<Rightarrow> js_error + easing option" where
  "transition_named name e1 e2 =
     (let found = (case map_of transitions name of Some b \<Rightarrow> Some b | None \<Rightarrow> map_of transitions (capitalize name));
          ease = ''ease'' @ capitalize e1 @ (if e2 = [] then [] else capitalize e2)
      in if name = ''linear'' then Inr (if e1 = [] then Some tr_linear else None)
         else case found of
                None \<Rightarrow> if e1 = [] then Inr None else Inl TypeError
              | Some b \<Rightarrow> Inr (if e1 = [] then Some (b None) else ease_named ease b))"

datatype tr_option = TrNone | TrFun easing | TrText string

definition getTransition :: "tr_option \<Rightarrow> js_error + easing option" where
  "getTransition opt =
     (case opt of
        TrNone \<Rightarrow> Inr (Some (easeInOut tr_Sine []))
      | TrFun f \<Rightarrow> Inr (Some f)
      | TrText t \<Rightarrow>
          if t = [] then Inr (Some (easeInOut tr_Sine []))
          else (let b = split_on (CHR '':'') t @ [[], [], []] in transition_named (b ! 0) (b ! 1) (b ! 2)))"

subsection \<open>The engine\<close>

text \<open>What waits in the chain of an animation: a start that came while it was running (with the option \<open>link\<close>
  set to \<open>chain\<close>) or a function given to \<open>chain\<close>, with the truth value of what it returns.\<close>

datatype ('v, 'f) chained = Restart 'v 'v | Call 'f bool

datatype ('v, 'f) fx_effect = FxSet 'v | FxStart | FxComplete | FxChainComplete | FxCancel | FxCall 'f

text \<open>\<open>time\<close> is the moment of the start while the timer runs, and the time that has passed while it does not. A
  duration that is not a number is \<open>None\<close>.\<close>

record ('v, 'f) fx =
  fx_link :: string
  fx_duration :: "real option"
  fx_timer :: bool
  fx_time :: real
  fx_from :: 'v
  fx_to :: 'v
  fx_chain :: "('v, 'f) chained list"

definition fx_Durations :: "(string \<times> int) list" where
  "fx_Durations = [(''short'', 250), (''normal'', 500), (''long'', 1000)]"

definition duration_of :: "jsval \<Rightarrow> js_error + real option" where
  "duration_of d =
     (case map_of fx_Durations (to_string d) of
        Some n \<Rightarrow> Inr (Some (of_int n))
      | None \<Rightarrow>
          (case d of
             JStr s \<Rightarrow> Inr (map_option of_int (parseInt s))
           | JNum _ \<Rightarrow> Inr (map_option of_int (parseInt (to_string d)))
           | JNaN \<Rightarrow> Inr None
           | _ \<Rightarrow> Inl TypeError))"

definition fx_initialize :: "jsval \<Rightarrow> string \<Rightarrow> jsval \<Rightarrow> 'v \<Rightarrow> js_error + ('v, 'f) fx" where
  "fx_initialize duration link wait v =
     bindE (duration_of duration) (\<lambda>d.
       Inr \<lparr>fx_link = (if js_seq wait (JBool False) then ''cancel'' else link), fx_duration = d,
            fx_timer = False, fx_time = 0, fx_from = v, fx_to = v, fx_chain = []\<rparr>)"

definition fx_compute :: "real \<Rightarrow> real \<Rightarrow> real \<Rightarrow> real" where
  "fx_compute c b a = (b - c) * a + c"

definition stopTimer :: "real \<Rightarrow> ('v, 'f) fx \<Rightarrow> bool \<times> ('v, 'f) fx" where
  "stopTimer now fx =
     (if \<not> fx_timer fx then (False, fx) else (True, fx\<lparr>fx_time := now - fx_time fx, fx_timer := False\<rparr>))"

definition startTimer :: "real \<Rightarrow> ('v, 'f) fx \<Rightarrow> ('v, 'f) fx" where
  "startTimer now fx = (if fx_timer fx then fx else fx\<lparr>fx_time := now - fx_time fx, fx_timer := True\<rparr>)"

definition fx_chain_add :: "'f \<Rightarrow> bool \<Rightarrow> ('v, 'f) fx \<Rightarrow> ('v, 'f) fx" where
  "fx_chain_add f r fx = fx\<lparr>fx_chain := chain_add (fx_chain fx) [Call f r]\<rparr>"

definition fx_cancel :: "real \<Rightarrow> ('v, 'f) fx \<Rightarrow> ('v, 'f) fx \<times> ('v, 'f) fx_effect list" where
  "fx_cancel now fx =
     (case stopTimer now fx of
        (True, fx') \<Rightarrow> (fx'\<lparr>fx_chain := []\<rparr>, [FxCancel])
      | (False, fx') \<Rightarrow> (fx', []))"

definition fx_pause :: "real \<Rightarrow> ('v, 'f) fx \<Rightarrow> ('v, 'f) fx" where
  "fx_pause now fx = snd (stopTimer now fx)"

definition fx_resume :: "real \<Rightarrow> ('v, 'f) fx \<Rightarrow> ('v, 'f) fx" where
  "fx_resume now fx = startTimer now fx"

text \<open>\<open>check\<close>: may an animation from \<open>b\<close> to \<open>a\<close> start?\<close>

definition fx_check ::
  "real \<Rightarrow> 'v \<Rightarrow> 'v \<Rightarrow> ('v, 'f) fx \<Rightarrow> bool \<times> ('v, 'f) fx \<times> ('v, 'f) fx_effect list" where
  "fx_check now b a fx =
     (if \<not> fx_timer fx then (True, fx, [])
      else if fx_link fx = ''cancel'' then (True, fx_cancel now fx)
      else if fx_link fx = ''chain'' then (False, fx\<lparr>fx_chain := chain_add (fx_chain fx) [Restart b a]\<rparr>, [])
      else (False, fx, []))"

definition fx_start :: "real \<Rightarrow> 'v \<Rightarrow> 'v \<Rightarrow> ('v, 'f) fx \<Rightarrow> ('v, 'f) fx \<times> ('v, 'f) fx_effect list" where
  "fx_start now b a fx =
     (case fx_check now b a fx of
        (False, fx', es) \<Rightarrow> (fx', es)
      | (True, fx', es) \<Rightarrow>
          (startTimer now (fx'\<lparr>fx_from := b, fx_to := a, fx_time := 0\<rparr>), es @ [FxStart]))"

text \<open>\<open>onComplete\<close>: the first function of the chain is called; if there is none, or it returns nothing,
  \<open>chainComplete\<close> is fired.\<close>

definition fx_onComplete :: "real \<Rightarrow> ('v, 'f) fx \<Rightarrow> ('v, 'f) fx \<times> ('v, 'f) fx_effect list" where
  "fx_onComplete now fx =
     (case callChain (fx_chain fx) of
        (None, _) \<Rightarrow> (fx, [FxComplete, FxChainComplete])
      | (Some (Restart b a), rest) \<Rightarrow>
          (case fx_start now b a (fx\<lparr>fx_chain := rest\<rparr>) of (fx', es) \<Rightarrow> (fx', FxComplete # es))
      | (Some (Call f r), rest) \<Rightarrow>
          (fx\<lparr>fx_chain := rest\<rparr>, [FxComplete, FxCall f] @ (if r then [] else [FxChainComplete])))"

definition fx_complete :: "real \<Rightarrow> ('v, 'f) fx \<Rightarrow> ('v, 'f) fx \<times> ('v, 'f) fx_effect list" where
  "fx_complete now fx =
     (case stopTimer now fx of (True, fx') \<Rightarrow> fx_onComplete now fx' | (False, fx') \<Rightarrow> (fx', []))"

text \<open>One turn of the timer, for the function \<open>compute\<close> of a class and the easing \<open>tr\<close> (a function that returns).\<close>

definition fx_step ::
  "('v \<Rightarrow> 'v \<Rightarrow> real \<Rightarrow> 'v) \<Rightarrow> (real \<Rightarrow> real) \<Rightarrow> real \<Rightarrow> ('v, 'f) fx \<Rightarrow> ('v, 'f) fx \<times> ('v, 'f) fx_effect list" where
  "fx_step cmp tr now fx =
     (case fx_duration fx of
        Some d \<Rightarrow>
          if now < fx_time fx + d
          then (fx, [FxSet (cmp (fx_from fx) (fx_to fx) (tr ((now - fx_time fx) / d)))])
          else (case fx_complete now fx of (fx', es) \<Rightarrow> (fx', FxSet (cmp (fx_from fx) (fx_to fx) 1) # es))
      | None \<Rightarrow> (case fx_complete now fx of (fx', es) \<Rightarrow> (fx', FxSet (cmp (fx_from fx) (fx_to fx) 1) # es)))"

subsection \<open>Slides\<close>

text \<open>\<open>Fx.Slide\<close> moves the margin of an element and the height of the wrapper around it. A start computes where to
  go from the margin, the height of the wrapper and the height of the element.\<close>

definition slide_compute :: "real \<times> real \<Rightarrow> real \<times> real \<Rightarrow> real \<Rightarrow> real \<times> real" where
  "slide_compute c b a = (fx_compute (fst c) (fst b) a, fx_compute (snd c) (snd b) a)"

definition slide_range :: "string \<Rightarrow> real \<Rightarrow> real \<Rightarrow> real \<Rightarrow> js_error + (real \<times> real) \<times> (real \<times> real)" where
  "slide_range how margin height offset =
     (let a = ((margin, height), (0, offset)); g = ((margin, height), (- offset, 0))
      in if how = ''in'' then Inr a
         else if how = ''out'' then Inr g
         else if how = ''toggle'' then Inr (if height = 0 then a else g)
         else Inl TypeError)"

subsection \<open>The default easing\<close>

lemma ease_default_ends [simp]: "ease_default 0 = 0" "ease_default 1 = 1"
  by (simp_all add: ease_default_def)

lemma ease_default_mono:
  assumes "0 \<le> x" "x \<le> y" "y \<le> 1"
  shows "ease_default x \<le> ease_default y"
proof -
  have "cos (pi * y) \<le> cos (pi * x)"
    using assms by (intro cos_monotone_0_pi_le) (auto simp: mult_left_le)
  then show ?thesis by (simp add: ease_default_def)
qed

lemma ease_default_between:
  assumes "0 \<le> x" "x \<le> 1"
  shows "0 \<le> ease_default x" "ease_default x \<le> 1"
  using ease_default_mono [of 0 x] ease_default_mono [of x 1] assms by simp_all

lemma sine_easeInOut: "easeInOut tr_Sine a c = returns (ease_default c)"
proof -
  have "(1 - 2 * c) * pi / 2 = pi / 2 - pi * c" "(1 - 2 * (1 - c)) * pi / 2 = - (pi / 2 - pi * c)"
    by (simp_all add: field_simps)
  then have "sin ((1 - 2 * c) * pi / 2) = cos (pi * c)" "sin ((1 - 2 * (1 - c)) * pi / 2) = - cos (pi * c)"
    by (simp_all only: cos_sin_eq sin_minus of_real_eq_id id_apply)
  then show ?thesis
    by (simp add: easeInOut_def tr_Sine_def on_result_def ease_default_def)
qed

text \<open>The easing an animation has when none is configured is the same in both definitions of
  \<open>getTransition\<close>, for every share of the time.\<close>

lemma default_easing_same: "getTransition TrNone = Inr (Some fx_getTransition)"
  by (simp add: getTransition_def fun_eq_iff fx_getTransition_def sine_easeInOut)

subsection \<open>The value of an animation\<close>

lemma fx_compute_ends [simp]: "fx_compute c b 0 = c" "fx_compute c b 1 = b"
  by (simp_all add: fx_compute_def)

lemma fx_compute_mono:
  "c \<le> b \<Longrightarrow> x \<le> y \<Longrightarrow> fx_compute c b x \<le> fx_compute c b y"
  "b \<le> c \<Longrightarrow> x \<le> y \<Longrightarrow> fx_compute c b y \<le> fx_compute c b x"
  by (auto simp: fx_compute_def mult_left_mono mult_left_mono_neg)

text \<open>The share of the way that one turn of the timer sets.\<close>

definition progress :: "(real \<Rightarrow> real) \<Rightarrow> ('v, 'f) fx \<Rightarrow> real \<Rightarrow> real" where
  "progress tr fx now =
     (case fx_duration fx of Some d \<Rightarrow> if now < fx_time fx + d then tr ((now - fx_time fx) / d) else 1 | None \<Rightarrow> 1)"

lemma fx_step_sets: "\<exists>es. snd (fx_step cmp tr now fx) = FxSet (cmp (fx_from fx) (fx_to fx) (progress tr fx now)) # es"
  by (auto simp: fx_step_def progress_def split: option.splits prod.splits)

lemma progress_mono:
  assumes "fx_duration fx = Some d" "0 < d" "fx_time fx \<le> s" "s \<le> t"
  shows "0 \<le> progress ease_default fx s" "progress ease_default fx s \<le> progress ease_default fx t"
    "progress ease_default fx t \<le> 1"
proof -
  have share: "0 \<le> (u - fx_time fx) / d" "u < fx_time fx + d \<Longrightarrow> (u - fx_time fx) / d \<le> 1"
    if "fx_time fx \<le> u" for u using assms(2) that by (auto simp: divide_simps)
  show "0 \<le> progress ease_default fx s"
    using share [of s] assms by (auto simp: progress_def intro: ease_default_between)
  show "progress ease_default fx t \<le> 1"
    using share [of t] assms by (auto simp: progress_def intro: ease_default_between)
  show "progress ease_default fx s \<le> progress ease_default fx t"
    using share [of s] share [of t] assms
    by (auto simp: progress_def divide_right_mono intro: ease_default_between ease_default_mono)
qed

text \<open>With the default easing the value of an animation starts at one end, moves only forward, never
  leaves the interval between the two ends, and is exactly the other end once the time is over.\<close>

lemma fx_value_between:
  assumes "fx_duration fx = Some d" "0 < d" "fx_time fx \<le> s" "s \<le> t" "fx_from fx \<le> fx_to fx"
    and "snd (fx_step fx_compute ease_default s fx) = FxSet v # es"
    and "snd (fx_step fx_compute ease_default t fx) = FxSet w # es'"
  shows "fx_from fx \<le> v \<and> v \<le> w \<and> w \<le> fx_to fx \<and> (s = fx_time fx \<longrightarrow> v = fx_from fx) \<and>
         (fx_time fx + d \<le> t \<longrightarrow> w = fx_to fx)"
proof -
  have v: "v = fx_compute (fx_from fx) (fx_to fx) (progress ease_default fx s)"
    using fx_step_sets [of fx_compute ease_default s fx] assms(6) by auto
  have w: "w = fx_compute (fx_from fx) (fx_to fx) (progress ease_default fx t)"
    using fx_step_sets [of fx_compute ease_default t fx] assms(7) by auto
  note p = progress_mono [OF assms(1-4)]
  have "fx_from fx \<le> v" using fx_compute_mono(1) [OF assms(5) p(1)] v by simp
  moreover have "v \<le> w" using fx_compute_mono(1) [OF assms(5) p(2)] v w by simp
  moreover have "w \<le> fx_to fx" using fx_compute_mono(1) [OF assms(5) p(3)] w by simp
  moreover have "progress ease_default fx s = 0" if "s = fx_time fx"
    using that assms(1,2) by (simp add: progress_def)
  moreover have "progress ease_default fx t = 1" if "fx_time fx + d \<le> t"
    using that assms(1) by (simp add: progress_def)
  ultimately show ?thesis using v w by simp
qed

subsection \<open>The loop of \<open>Bounce\<close>\<close>

lemma bounce_loop_returns:
  "d + 2 * c = 2 \<Longrightarrow> 8 * c \<le> 2 ^ n * (11 * f + 1) \<Longrightarrow> - 1 / 11 < f \<Longrightarrow> \<exists>y. bounce_loop f d c = Some y"
proof (induction n arbitrary: d c)
  case 0
  then have "(7 - 4 * d) / 11 \<le> f" by (simp add: field_simps)
  then show ?case by (subst bounce_loop.simps) simp
next
  case (Suc n)
  then have "\<exists>y. bounce_loop f (d + c) (c / 2) = Some y" by (intro Suc.IH) (auto simp: field_simps)
  then show ?case by (subst bounce_loop.simps) simp
qed

lemma bounce_loop_needs:
  "bounce_loop f d c = Some y \<Longrightarrow> 0 < c \<and> d + 2 * c = 2 \<longrightarrow> - 1 / 11 < f"
proof (induction rule: bounce_loop.raw_induct [rotated 1, consumes 1])
  case (1 loop f d c y)
  show ?case
  proof (cases "f \<ge> (7 - 4 * d) / 11")
    case True
    then show ?thesis by (auto simp: field_simps)
  next
    case False
    then have "0 < c / 2 \<and> d + c + 2 * (c / 2) = 2 \<longrightarrow> - 1 / 11 < f"
      using 1(1) [of f "d + c" "c / 2" y] 1(2) by simp
    then show ?thesis by auto
  qed
qed

lemma square_gap:
  assumes "\<bar>x\<bar> \<le> c" "c \<le> (1::real)"
  shows "0 \<le> c * c - x ^ 2 \<and> c * c - x ^ 2 \<le> 1"
proof -
  have "x ^ 2 \<le> c * c" using assms(1) power2_le_iff_abs_le [of c x] by (simp add: power2_eq_square)
  moreover have "c * c \<le> 1" using assms mult_le_one [of c c] by linarith
  moreover have "0 \<le> x ^ 2" by simp
  ultimately show ?thesis by linarith
qed

lemma bounce_loop_unfold:
  "bounce_loop f d c =
     (if f \<ge> (7 - 4 * d) / 11 then Some (c * c - ((11 - 6 * d - 11 * f) / 4) ^ 2) else bounce_loop f (d + c) (c / 2))"
  by (subst bounce_loop.simps) simp

lemma bounce_between:
  assumes "0 \<le> f" "f \<le> 1" "bounce_loop f 0 1 = Some y"
  shows "0 \<le> y \<and> y \<le> 1"
proof -
  have hit: "0 \<le> y \<and> y \<le> 1"
    if "bounce_loop f d c = Some y" "f \<ge> (7 - 4 * d) / 11" "\<bar>(11 - 6 * d - 11 * f) / 4\<bar> \<le> c" "c \<le> 1" for d c
    using that square_gap [of "(11 - 6 * d - 11 * f) / 4" c] by (subst (asm) bounce_loop_unfold) auto
  have later: "bounce_loop f (d + c) (c / 2) = Some y"
    if "bounce_loop f d c = Some y" "\<not> f \<ge> (7 - 4 * d) / 11" for d c
    using that by (subst (asm) bounce_loop_unfold) simp
  consider "7 / 11 \<le> f" | "f < 7 / 11" "3 / 11 \<le> f" | "f < 3 / 11" "1 / 11 \<le> f" | "f < 1 / 11" by linarith
  then show ?thesis
  proof cases
    case 1
    then show ?thesis using hit [OF assms(3)] assms by simp
  next
    case 2
    then show ?thesis using hit [OF later [OF assms(3)]] by simp
  next
    case 3
    then show ?thesis using hit [OF later [OF later [OF assms(3)]]] by simp
  next
    case 4
    then have "2 * \<bar>1 / 2 - 11 * f\<bar> \<le> 1" using assms(1) by (auto simp: abs_if)
    with 4 show ?thesis using hit [OF later [OF later [OF later [OF assms(3)]]]] assms(1) by simp
  qed
qed

text \<open>The loop of \<open>Bounce\<close>, which has no condition of its own, ends for every share of the time (and
  for no number up to \<open>-1/11\<close>), with a share of the way.\<close>

lemma bounce_returns:
  "(tr_Bounce a f = None \<longleftrightarrow> f \<le> - 1 / 11) \<and>
   (0 \<le> f \<and> f \<le> 1 \<longrightarrow> (\<exists>y. tr_Bounce a f = returns y \<and> 0 \<le> y \<and> y \<le> 1))"
proof -
  have ends: "\<exists>y. bounce_loop f 0 1 = Some y" if gt: "- 1 / 11 < f"
  proof -
    obtain n :: nat where "8 / (11 * f + 1) < 2 ^ n" using real_arch_pow [of 2] by auto
    then have "8 * 1 \<le> 2 ^ n * (11 * f + 1)" using gt by (simp add: field_simps)
    then show ?thesis using bounce_loop_returns [of 0 1 n f] gt by simp
  qed
  moreover have "- 1 / 11 < f" if "bounce_loop f 0 1 = Some y" for y
    using bounce_loop_needs [OF that] by simp
  ultimately have "bounce_loop f 0 1 = None \<longleftrightarrow> f \<le> - 1 / 11"
    by (cases "bounce_loop f 0 1") (fastforce simp: not_less [symmetric])+
  moreover have "\<exists>y. bounce_loop f 0 1 = Some y \<and> 0 \<le> y \<and> y \<le> 1" if f: "0 \<le> f" "f \<le> 1"
  proof -
    obtain y where "bounce_loop f 0 1 = Some y" using ends f by auto
    then show ?thesis using bounce_between f by blast
  qed
  ultimately show ?thesis by (auto simp: tr_Bounce_def)
qed

subsection \<open>Pauses and chains\<close>

text \<open>An animation goes on after a pause where it stopped.\<close>

lemma pause_resume:
  "fx_timer fx \<Longrightarrow> progress tr (fx_resume t2 (fx_pause t1 fx)) (t2 + u) = progress tr fx (t1 + u)"
  by (simp add: fx_resume_def fx_pause_def startTimer_def stopTimer_def progress_def algebra_simps split: option.splits)
















end
