(* ===== verification/Site_Scripts.thy ===== *)
theory Site_Scripts
  imports Moo_Fx
begin

section \<open>The small scripts of the pages\<close>

text \<open>
  Scripts that run on one page each: the sliding sheets of \<open>nhw.js\<close> (over \<open>Fx.Slide\<close>), the testimonials of the
  home page (\<open>testimonials.js\<close>), the texts that stand in empty fields and the stripes of tables
  (\<open>getquote_functions.js\<close>), and the dialogs that send a quick email and change the status of a customer
  (\<open>func/quick_email.js\<close>, \<open>func/edit_customer_status.js\<close>).

  The property of the sheets holds for visitors who wait for one sheet before they ask for the next; the
  lemma after it shows what happens to those who do not. The testimonials never rotate.
\<close>

subsection \<open>The sheets of \<open>nhw.js\<close>\<close>

text \<open>An element that has an identifier: whether it is a sheet, its height when it is displayed, whether it is, whether
  a slide has wrapped it, its margin and the height of the wrapper (\<open>None\<close> until a slide sets it: as high as
  the element).\<close>

record site_sheet =
  sh_id :: string
  sh_class :: bool
  sh_height :: real
  sh_block :: bool
  sh_wrapped :: bool
  sh_margin :: real
  sh_wrapper :: "real option"

definition offsetHeight :: "site_sheet \<Rightarrow> real" where
  "offsetHeight s = (if sh_block s then sh_height s else 0)"

definition wrapper_height :: "site_sheet \<Rightarrow> real" where
  "wrapper_height s = (case sh_wrapper s of None \<Rightarrow> offsetHeight s | Some h \<Rightarrow> h)"

text \<open>How much of an element is to be seen.\<close>

definition seen_height :: "site_sheet \<Rightarrow> real" where
  "seen_height s = (if sh_block s then wrapper_height s else 0)"

text \<open>The functions the page chains to slides.\<close>

datatype sheet_call = DisplayBlock nat | SheetIn string

type_synonym slider = "(real \<times> real, sheet_call) fx"

text \<open>The page: its elements, every slide made so far with the index of its element, and \<open>gCurrentSlider\<close>.\<close>

record sheet_page =
  sp_sheets :: "site_sheet list"
  sp_sliders :: "(slider \<times> nat) list"
  gCurrentSlider :: "nat option"

text \<open>\<open>new Fx.Slide\<close> on element \<open>i\<close>; the slide is the last of the list.\<close>

definition slider_new :: "real \<Rightarrow> nat \<Rightarrow> sheet_page \<Rightarrow> sheet_page" where
  "slider_new duration i pg =
     (let s = sp_sheets pg ! i
      in pg\<lparr>sp_sheets := (sp_sheets pg)[i := s\<lparr>sh_wrapped := True, sh_margin := 0\<rparr>],
            sp_sliders := sp_sliders pg @
              [(\<lparr>fx_link = ''ignore'', fx_duration = Some duration, fx_timer = False, fx_time = 0,
                 fx_from = (0, 0), fx_to = (0, 0), fx_chain = []\<rparr>, i)]\<rparr>)"

text \<open>Lengths are read from the styles as whole numbers.\<close>

definition css_int :: "real \<Rightarrow> real" where
  "css_int x = of_int (if 0 \<le> x then \<lfloor>x\<rfloor> else \<lceil>x\<rceil>)"

lemma css_int_0 [simp]: "css_int 0 = 0"
  by (simp add: css_int_def)

text \<open>\<open>slideIn\<close> and \<open>slideOut\<close>: nothing while the slide is running. The default easing is used throughout.\<close>

definition slider_start :: "string \<Rightarrow> real \<Rightarrow> nat \<Rightarrow> sheet_page \<Rightarrow> sheet_page" where
  "slider_start how now k pg =
     (let (fx, i) = sp_sliders pg ! k; s = sp_sheets pg ! i
      in if fx_timer fx then pg
         else case slide_range how (css_int (sh_margin s)) (css_int (wrapper_height s)) (offsetHeight s) of
                Inl e \<Rightarrow> pg
              | Inr (b, a) \<Rightarrow> pg\<lparr>sp_sliders := (sp_sliders pg)[k := (fst (fx_start now b a fx), i)]\<rparr>)"

definition slider_chain :: "sheet_call \<Rightarrow> nat \<Rightarrow> sheet_page \<Rightarrow> sheet_page" where
  "slider_chain f k pg =
     (let (fx, i) = sp_sliders pg ! k in pg\<lparr>sp_sliders := (sp_sliders pg)[k := (fx_chain_add f False fx, i)]\<rparr>)"

definition slider_put :: "nat \<Rightarrow> real \<times> real \<Rightarrow> sheet_page \<Rightarrow> sheet_page" where
  "slider_put i v pg =
     pg\<lparr>sp_sheets := (sp_sheets pg)[i := (sp_sheets pg ! i)\<lparr>sh_margin := fst v, sh_wrapper := Some (snd v)\<rparr>]\<rparr>"

fun sheet_at :: "string \<Rightarrow> site_sheet list \<Rightarrow> nat option" where
  "sheet_at x [] = None"
| "sheet_at x (s # ss) = (if sh_id s = x then Some 0 else map_option Suc (sheet_at x ss))"

definition layout_id :: "string \<Rightarrow> string" where
  "layout_id name = ''layout_'' @ name"

text \<open>\<open>slideSheetIn\<close>. Without an element of that name the constructor of the slide throws.\<close>

definition slideSheetIn :: "string \<Rightarrow> bool \<Rightarrow> real \<Rightarrow> sheet_page \<Rightarrow> js_error + sheet_page" where
  "slideSheetIn name instantly now pg =
     (case sheet_at (layout_id name) (sp_sheets pg) of
        None \<Rightarrow> Inl TypeError
      | Some i \<Rightarrow>
          let k = length (sp_sliders pg); pg1 = (slider_new 500 i pg)\<lparr>gCurrentSlider := Some k\<rparr>
          in Inr (if instantly then slider_put i (0, offsetHeight (sp_sheets pg1 ! i)) pg1
                  else slider_start ''in'' now k pg1))"

text \<open>The handler of \<open>domready\<close>, for the address of the page. The text after the first question mark, up to the next
  one, is the query.\<close>

definition location_query :: "string \<Rightarrow> string" where
  "location_query location = (case split_on (CHR ''?'') location of _ # q # _ \<Rightarrow> q | _ \<Rightarrow> [])"

definition sheet_ready :: "string \<Rightarrow> real \<Rightarrow> nat \<Rightarrow> sheet_page \<Rightarrow> sheet_page" where
  "sheet_ready location now i pg =
     (let s = sp_sheets pg ! i; k = length (sp_sliders pg)
      in if \<not> sh_class s then pg
         else if str_contains (location_query location) ''getaquote'' \<and> str_contains (sh_id s) ''getaquote''
         then pg\<lparr>sp_sheets := (sp_sheets pg)[i := s\<lparr>sh_block := True\<rparr>]\<rparr>
         else slider_chain (DisplayBlock i) k (slider_start ''out'' now k (slider_new 0 i pg)))"

definition sheets_domready :: "string \<Rightarrow> real \<Rightarrow> site_sheet list \<Rightarrow> sheet_page" where
  "sheets_domready location now sheets =
     fold (sheet_ready location now) [0..<length sheets]
       \<lparr>sp_sheets = sheets, sp_sliders = [], gCurrentSlider = None\<rparr>"

text \<open>A click on a link \<open>a.showsheet\<close>, and one turn of the timer of a slide.\<close>

definition showsheet_click :: "string \<Rightarrow> real \<Rightarrow> sheet_page \<Rightarrow> js_error + sheet_page" where
  "showsheet_click rel now pg =
     (case gCurrentSlider pg of
        Some k \<Rightarrow> Inr (slider_chain (SheetIn rel) k (slider_start ''out'' now k pg))
      | None \<Rightarrow> slideSheetIn rel False now pg)"

fun slider_effect :: "nat \<Rightarrow> real \<Rightarrow> sheet_page \<Rightarrow> (real \<times> real, sheet_call) fx_effect \<Rightarrow> js_error + sheet_page" where
  "slider_effect i now pg (FxSet v) = Inr (slider_put i v pg)"
| "slider_effect i now pg (FxCall (DisplayBlock j)) =
     Inr (pg\<lparr>sp_sheets := (sp_sheets pg)[j := (sp_sheets pg ! j)\<lparr>sh_block := True\<rparr>]\<rparr>)"
| "slider_effect i now pg (FxCall (SheetIn n)) = slideSheetIn n False now pg"
| "slider_effect i now pg _ = Inr pg"

definition slider_tick :: "nat \<Rightarrow> real \<Rightarrow> sheet_page \<Rightarrow> js_error + sheet_page" where
  "slider_tick k now pg =
     (let (fx, i) = sp_sliders pg ! k; (fx', es) = fx_step slide_compute ease_default now fx
      in foldE (slider_effect i now) (pg\<lparr>sp_sliders := (sp_sliders pg)[k := (fx', i)]\<rparr>) es)"

subsection \<open>One sheet at a time\<close>

lemma slide_compute_end [simp]: "slide_compute c b 1 = b"
  by (simp add: slide_compute_def)

lemma fx_step_running:
  assumes "fx_timer fx"
  obtains (moves) v where "fx_step cmp tr now fx = (fx, [FxSet v])"
  | (ends) "fx_step cmp tr now fx =
      (fst (fx_complete now fx), FxSet (cmp (fx_from fx) (fx_to fx) 1) # snd (fx_complete now fx))"
proof (cases "\<exists>d. fx_duration fx = Some d \<and> now < fx_time fx + d")
  case True
  then show ?thesis by (auto simp: fx_step_def intro: moves)
next
  case False
  then show ?thesis by (intro ends) (auto simp: fx_step_def case_prod_beta split: option.splits)
qed

lemma fx_complete_last:
  assumes "fx_timer fx" "fx_chain fx = []"
  shows "snd (fx_complete now fx) = [FxComplete, FxChainComplete]"
    "\<not> fx_timer (fst (fx_complete now fx))" "fx_chain (fst (fx_complete now fx)) = []"
  using assms by (auto simp: fx_complete_def stopTimer_def fx_onComplete_def callChain_def)

lemma fx_complete_call:
  assumes "fx_timer fx" "fx_chain fx = [Call f False]"
  shows "snd (fx_complete now fx) = [FxComplete, FxCall f, FxChainComplete]"
    "\<not> fx_timer (fst (fx_complete now fx))" "fx_chain (fst (fx_complete now fx)) = []"
  using assms by (auto simp: fx_complete_def stopTimer_def fx_onComplete_def callChain_def)

lemma fx_start_idle:
  "\<not> fx_timer fx \<Longrightarrow> fst (fx_start now b a fx) = fx\<lparr>fx_from := b, fx_to := a, fx_time := now, fx_timer := True\<rparr>"
  by (simp add: fx_start_def fx_check_def startTimer_def)

lemma sheet_at_Some: "sheet_at x ss = Some i \<Longrightarrow> i < length ss \<and> sh_id (ss ! i) = x"
  by (induction ss arbitrary: i) (auto split: if_splits)

lemma sheet_at_ids: "map sh_id ss = map sh_id ts \<Longrightarrow> sheet_at x ss = sheet_at x ts"
proof (induction ss arbitrary: ts)
  case (Cons s ss)
  then show ?case by (cases ts) auto
qed simp

text \<open>The visitor clicks on links to sheets while no slide is running; the timers run at any time. The second component
  is the sheet asked for last.\<close>

definition running :: "sheet_page \<Rightarrow> nat \<Rightarrow> bool" where
  "running pg k = (k < length (sp_sliders pg) \<and> fx_timer (fst (sp_sliders pg ! k)))"


inductive sheets_step :: "sheet_page \<times> string option \<Rightarrow> sheet_page \<times> string option \<Rightarrow> bool" where
  sheets_click: "\<forall>k. \<not> running pg k \<Longrightarrow> sheet_at (layout_id rel) (sp_sheets pg) \<noteq> None \<Longrightarrow>
    showsheet_click rel now pg = Inr pg' \<Longrightarrow> sheets_step (pg, l) (pg', Some rel)"
| sheets_tick: "running pg k \<Longrightarrow> slider_tick k now pg = Inr pg' \<Longrightarrow> sheets_step (pg, l) (pg', l)"

text \<open>The elements keep their identifiers and heights; every slide belongs to one of them.\<close>

definition sheets_frame :: "site_sheet list \<Rightarrow> sheet_page \<Rightarrow> bool" where
  "sheets_frame els pg \<longleftrightarrow>
     map sh_id (sp_sheets pg) = map sh_id els \<and> map sh_height (sp_sheets pg) = map sh_height els \<and>
     (\<forall>(fx, i) \<in> set (sp_sliders pg). i < length els)"

definition shut :: "sheet_page \<Rightarrow> nat \<Rightarrow> bool" where
  "shut pg i = (sh_block (sp_sheets pg ! i) \<and> sh_wrapper (sp_sheets pg ! i) = Some 0)"

text \<open>While the page gets ready every sheet has a slide of its own that shuts it.\<close>

definition getting_ready :: "site_sheet list \<Rightarrow> sheet_page \<Rightarrow> bool" where
  "getting_ready els pg \<longleftrightarrow>
     gCurrentSlider pg = None \<and> length (sp_sliders pg) = length els \<and>
     (\<forall>k < length els. snd (sp_sliders pg ! k) = k \<and>
        (if fx_timer (fst (sp_sliders pg ! k))
         then snd (fx_to (fst (sp_sliders pg ! k))) = 0 \<and> fx_chain (fst (sp_sliders pg ! k)) = [Call (DisplayBlock k) False]
         else fx_chain (fst (sp_sliders pg ! k)) = [] \<and> shut pg k))"

text \<open>Afterwards only the current slide can be running: it is opening the sheet asked for last, or shutting the one before.\<close>

definition one_sheet :: "site_sheet list \<Rightarrow> sheet_page \<Rightarrow> string \<Rightarrow> nat \<Rightarrow> bool" where
  "one_sheet els pg l k \<longleftrightarrow>
     gCurrentSlider pg = Some k \<and> k < length (sp_sliders pg) \<and> (\<forall>k'. running pg k' \<longrightarrow> k' = k) \<and>
     (let fx = fst (sp_sliders pg ! k); i = snd (sp_sliders pg ! k); s = sp_sheets pg ! i
      in sh_block s \<and> (\<forall>i' < length els. i' \<noteq> i \<longrightarrow> shut pg i') \<and>
         (if fx_chain fx = []
          then sh_id s = layout_id l \<and> (if fx_timer fx then snd (fx_to fx) = sh_height s else sh_wrapper s = Some (sh_height s))
          else fx_timer fx \<and> fx_chain fx = [Call (SheetIn l) False] \<and> snd (fx_to fx) = 0 \<and>
               sheet_at (layout_id l) (sp_sheets pg) \<noteq> None))"

definition sheets_inv :: "site_sheet list \<Rightarrow> sheet_page \<times> string option \<Rightarrow> bool" where
  "sheets_inv els st = (case st of (pg, l) \<Rightarrow>
     sheets_frame els pg \<and>
     (case l of None \<Rightarrow> getting_ready els pg | Some n \<Rightarrow> \<exists>k. one_sheet els pg n k))"

lemma frame_length: "sheets_frame els pg \<Longrightarrow> length (sp_sheets pg) = length els"
  by (metis sheets_frame_def length_map)

lemma frame_slider:
  assumes "sheets_frame els pg" "k < length (sp_sliders pg)"
  shows "snd (sp_sliders pg ! k) < length els"
proof -
  have "sp_sliders pg ! k \<in> set (sp_sliders pg)" using assms(2) by simp
  with assms(1) show ?thesis by (auto simp: sheets_frame_def case_prod_beta)
qed

text \<open>Once every sheet is shut and no slide is running, \<open>slideSheetIn\<close> opens one.\<close>

lemma slideSheetIn_opens:
  assumes "sheets_frame els pg" "\<forall>k. \<not> running pg k" "\<forall>i < length els. shut pg i"
    and "sheet_at (layout_id n) (sp_sheets pg) \<noteq> None"
  shows "\<exists>pg' k. slideSheetIn n False now pg = Inr pg' \<and> sheets_frame els pg' \<and> one_sheet els pg' n k"
proof -
  obtain i where at: "sheet_at (layout_id n) (sp_sheets pg) = Some i" using assms(4) by auto
  note i = sheet_at_Some [OF at] and len = frame_length [OF assms(1)]
  let ?k = "length (sp_sliders pg)"
  define pg' where "pg' = slider_start ''in'' now ?k ((slider_new 500 i pg)\<lparr>gCurrentSlider := Some ?k\<rparr>)"
  have blk: "sh_block (sp_sheets pg ! i)" "sh_wrapper (sp_sheets pg ! i) = Some 0"
    using assms(3) i len by (simp_all add: shut_def)
  have sheets: "sp_sheets pg' = (sp_sheets pg)[i := (sp_sheets pg ! i)\<lparr>sh_wrapped := True, sh_margin := 0\<rparr>]"
    and cur: "gCurrentSlider pg' = Some ?k"
    and slid: "sp_sliders pg' = sp_sliders pg @
      [(\<lparr>fx_link = ''ignore'', fx_duration = Some 500, fx_timer = True, fx_time = now,
         fx_from = (0, 0), fx_to = (0, sh_height (sp_sheets pg ! i)), fx_chain = []\<rparr>, i)]"
    using i blk
    by (simp_all add: pg'_def slider_start_def slider_new_def slide_range_def Let_def fx_start_idle wrapper_height_def
        offsetHeight_def)
  have "sheets_frame els pg'"
    using assms(1) i len unfolding sheets_frame_def sheets slid by (auto simp: map_put_same)
  moreover have "one_sheet els pg' n ?k"
    using assms(2,3) i len blk cur
    by (auto simp: one_sheet_def Let_def slid sheets running_def shut_def nth_append nth_list_update less_Suc_eq)
  moreover have "slideSheetIn n False now pg = Inr pg'"
    using at by (simp add: slideSheetIn_def pg'_def Let_def)
  ultimately show ?thesis by blast
qed

text \<open>What one turn of the timer does to a page on which slide \<open>k\<close> is running.\<close>

lemma tick_moves:
  assumes "fx_step slide_compute ease_default now (fst (sp_sliders pg ! k)) = (fst (sp_sliders pg ! k), [FxSet v])"
  shows "slider_tick k now pg = Inr (slider_put (snd (sp_sliders pg ! k)) v pg)"
proof -
  obtain fx i where at: "sp_sliders pg ! k = (fx, i)" by (cases "sp_sliders pg ! k")
  then have "(sp_sliders pg)[k := (fx, i)] = sp_sliders pg" by (metis list_update_id)
  with assms at show ?thesis by (simp add: slider_tick_def)
qed

lemma slider_put_simps [simp]:
  "sp_sliders (slider_put i v pg) = sp_sliders pg" "gCurrentSlider (slider_put i v pg) = gCurrentSlider pg"
  "sp_sheets (slider_put i v pg) = (sp_sheets pg)[i := (sp_sheets pg ! i)\<lparr>sh_margin := fst v, sh_wrapper := Some (snd v)\<rparr>]"
  "running (slider_put i v pg) = running pg"
  by (simp_all add: slider_put_def running_def fun_eq_iff)

lemma frame_put [simp]: "sheets_frame els (slider_put i v pg) = sheets_frame els pg"
  by (simp add: sheets_frame_def map_put_same)

lemma shut_put: "i' \<noteq> i \<Longrightarrow> shut (slider_put i v pg) i' = shut pg i'"
  by (simp add: shut_def)

lemma moves_inv:
  assumes "sheets_inv els (pg, l)" "running pg k"
  shows "sheets_inv els (slider_put (snd (sp_sliders pg ! k)) v pg, l)"
proof (cases l)
  case None
  with assms have "length (sp_sheets pg) = length els" by (simp add: sheets_inv_def frame_length)
  with None assms show ?thesis
    by (auto simp: sheets_inv_def getting_ready_def shut_def running_def nth_list_update)
next
  case (Some n)
  then obtain k' where k': "one_sheet els pg n k'" and fr: "sheets_frame els pg"
    using assms(1) by (auto simp: sheets_inv_def)
  then have [simp]: "k' = k" using assms(2) by (auto simp: one_sheet_def)
  have i: "snd (sp_sliders pg ! k) < length (sp_sheets pg)"
    using frame_slider [OF fr] assms(2) frame_length [OF fr] by (simp add: running_def)
  have ids: "map sh_id ((sp_sheets pg)[j := (sp_sheets pg ! j)\<lparr>sh_margin := a, sh_wrapper := b\<rparr>]) = map sh_id (sp_sheets pg)" for j a b
    by (simp add: map_put_same)
  have "one_sheet els (slider_put (snd (sp_sliders pg ! k)) v pg) n k"
    using k' assms(2) i
    by (auto simp: one_sheet_def Let_def shut_put running_def sheet_at_ids [OF ids] simp del: One_nat_def)
  then show ?thesis using Some fr by (auto simp: sheets_inv_def)
qed

text \<open>The slide has come to its end: the last value is set, the first function of its chain is called.\<close>

lemma tick_ends:
  assumes "sp_sliders pg ! k = (fx, i)"
    and "fx_step slide_compute ease_default now fx =
           (fst (fx_complete now fx), FxSet (slide_compute (fx_from fx) (fx_to fx) 1) # snd (fx_complete now fx))"
  shows "slider_tick k now pg =
    foldE (slider_effect i now)
      (slider_put i (fx_to fx) (pg\<lparr>sp_sliders := (sp_sliders pg)[k := (fst (fx_complete now fx), i)]\<rparr>))
      (snd (fx_complete now fx))"
  using assms by (simp add: slider_tick_def)

lemma ready_ends:
  assumes inv: "sheets_inv els (pg, None)" and run: "running pg k" and at: "sp_sliders pg ! k = (fx, i)"
    and ends: "fx_step slide_compute ease_default now fx =
           (fst (fx_complete now fx), FxSet (slide_compute (fx_from fx) (fx_to fx) 1) # snd (fx_complete now fx))"
  shows "\<exists>pg'. slider_tick k now pg = Inr pg' \<and> sheets_inv els (pg', None)"
proof -
  have fr: "sheets_frame els pg" and rd: "getting_ready els pg" using inv by (simp_all add: sheets_inv_def)
  note len = frame_length [OF fr]
  have k: "k < length els" "i = k" "fx_timer fx" "snd (fx_to fx) = 0" "fx_chain fx = [Call (DisplayBlock k) False]"
    using run rd at by (auto simp: running_def getting_ready_def)
  note fin = fx_complete_call [OF k(3,5)]
  define fx' where "fx' = fst (fx_complete now fx)"
  define pg' where "pg' = (slider_put k (fx_to fx) (pg\<lparr>sp_sliders := (sp_sliders pg)[k := (fx', k)]\<rparr>))"
  define pg2 where "pg2 = pg'\<lparr>sp_sheets := (sp_sheets pg')[k := (sp_sheets pg' ! k)\<lparr>sh_block := True\<rparr>]\<rparr>"
  have tick: "slider_tick k now pg = Inr pg2"
    using tick_ends [OF at ends] fin by (simp add: k pg2_def pg'_def fx'_def)
  have slid: "sp_sliders pg2 = (sp_sliders pg)[k := (fx', k)]" by (simp add: pg2_def pg'_def)
  have shk: "shut pg2 k" using k len by (simp add: shut_def pg2_def pg'_def)
  have oth: "shut pg2 j = shut pg j" if "j \<noteq> k" for j using that by (simp add: shut_def pg2_def pg'_def)
  have "sheets_frame els pg2"
    using fr k len by (auto simp: sheets_frame_def slid pg2_def pg'_def map_put_same dest!: set_update_subset_insert [THEN subsetD])
  moreover have "getting_ready els pg2"
    using rd k fin shk oth
    by (auto simp: getting_ready_def slid nth_list_update fx'_def) (simp add: pg2_def pg'_def)
  ultimately show ?thesis using tick by (simp add: sheets_inv_def)
qed

lemma one_ends:
  assumes inv: "sheets_inv els (pg, Some n)" and run: "running pg k" and at: "sp_sliders pg ! k = (fx, i)"
    and ends: "fx_step slide_compute ease_default now fx =
           (fst (fx_complete now fx), FxSet (slide_compute (fx_from fx) (fx_to fx) 1) # snd (fx_complete now fx))"
  shows "\<exists>pg'. slider_tick k now pg = Inr pg' \<and> sheets_inv els (pg', Some n)"
proof -
  obtain k' where fr: "sheets_frame els pg" and k': "one_sheet els pg n k'" using inv by (auto simp: sheets_inv_def)
  then have "k' = k" using run by (simp add: one_sheet_def)
  with k' have one: "one_sheet els pg n k" by simp
  note len = frame_length [OF fr]
  have i: "i < length els" using frame_slider [OF fr] run at by (metis running_def snd_conv)
  have tm: "fx_timer fx" using run at by (simp add: running_def)
  define fx' where "fx' = fst (fx_complete now fx)"
  define pg' where "pg' = (slider_put i (fx_to fx) (pg\<lparr>sp_sliders := (sp_sliders pg)[k := (fx', i)]\<rparr>))"
  have slid: "sp_sliders pg' = (sp_sliders pg)[k := (fx', i)]" by (simp add: pg'_def)
  have fr': "sheets_frame els pg'"
    using fr i by (auto simp: sheets_frame_def slid pg'_def map_put_same dest!: set_update_subset_insert [THEN subsetD])
  have ids: "sheet_at x (sp_sheets pg') = sheet_at x (sp_sheets pg)" for x
    using fr fr' by (intro sheet_at_ids) (simp add: sheets_frame_def)
  have oth: "shut pg' j = shut pg j" if "j \<noteq> i" for j using that by (simp add: shut_def pg'_def)
  show ?thesis
  proof (cases "fx_chain fx = []")
    case True
    note fin = fx_complete_last [OF tm True]
    have "slider_tick k now pg = Inr pg'"
      using tick_ends [OF at ends] fin by (simp add: pg'_def fx'_def)
    moreover have "one_sheet els pg' n k"
      using one True tm at fin i len oth run
      by (auto simp: one_sheet_def Let_def slid running_def nth_list_update fx'_def) (simp_all add: pg'_def)
    ultimately show ?thesis using fr' by (auto simp: sheets_inv_def)
  next
    case False
    then have ch: "fx_chain fx = [Call (SheetIn n) False]" "snd (fx_to fx) = 0"
      and ex: "sheet_at (layout_id n) (sp_sheets pg) \<noteq> None"
      using one at by (auto simp: one_sheet_def Let_def)
    note fin = fx_complete_call [OF tm ch(1)]
    have "\<forall>j. \<not> running pg' j"
      using one at fin run by (auto simp: one_sheet_def running_def slid nth_list_update fx'_def)
    moreover have "\<forall>j < length els. shut pg' j"
      using one at ch i len oth by (auto simp: one_sheet_def Let_def shut_def pg'_def nth_list_update)
    ultimately obtain pg2 k2 where "slideSheetIn n False now pg' = Inr pg2" "sheets_frame els pg2" "one_sheet els pg2 n k2"
      using slideSheetIn_opens [OF fr'] ex ids by metis
    moreover have "slider_tick k now pg = slideSheetIn n False now pg'"
      using tick_ends [OF at ends] fin by (cases "slideSheetIn n False now pg'") (simp_all add: pg'_def fx'_def)
    ultimately show ?thesis by (auto simp: sheets_inv_def)
  qed
qed

lemma tick_inv:
  assumes "sheets_inv els (pg, l)" "running pg k"
  shows "\<exists>pg'. slider_tick k now pg = Inr pg' \<and> sheets_inv els (pg', l)"
proof -
  obtain fx i where at: "sp_sliders pg ! k = (fx, i)" by (cases "sp_sliders pg ! k")
  have "fx_timer fx" using assms(2) at by (simp add: running_def)
  then show ?thesis
  proof (cases rule: fx_step_running [where cmp = slide_compute and tr = ease_default and now = now])
    case (moves v)
    then show ?thesis using tick_moves [of now pg k v] moves_inv [OF assms] at by simp
  next
    case ends
    then show ?thesis using ready_ends [OF _ assms(2) at] one_ends [OF _ assms(2) at] assms(1) by (cases l) auto
  qed
qed

lemma click_inv:
  assumes inv: "sheets_inv els (pg, l)" and still: "\<forall>k. \<not> running pg k"
    and ex: "sheet_at (layout_id rel) (sp_sheets pg) \<noteq> None" and click: "showsheet_click rel now pg = Inr pg'"
  shows "sheets_inv els (pg', Some rel)"
proof (cases l)
  case None
  with inv have fr: "sheets_frame els pg" and rd: "getting_ready els pg" by (simp_all add: sheets_inv_def)
  then have "\<forall>i < length els. shut pg i" using still by (auto simp: getting_ready_def running_def)
  moreover have "slideSheetIn rel False now pg = Inr pg'" using click rd by (simp add: showsheet_click_def getting_ready_def)
  ultimately show ?thesis using slideSheetIn_opens [OF fr still _ ex, of now] by (auto simp: sheets_inv_def)
next
  case (Some n)
  with inv obtain k where fr: "sheets_frame els pg" and one: "one_sheet els pg n k" by (auto simp: sheets_inv_def)
  obtain fx i where at: "sp_sliders pg ! k = (fx, i)" by (cases "sp_sliders pg ! k")
  have k: "k < length (sp_sliders pg)" and cur: "gCurrentSlider pg = Some k" using one by (simp_all add: one_sheet_def)
  have fx: "\<not> fx_timer fx" "fx_chain fx = []"
    using still [rule_format, of k] one at k by (auto simp: running_def one_sheet_def Let_def split: if_splits)
  have i: "i < length els" using frame_slider [OF fr k] at by simp
  let ?s = "sp_sheets pg ! i"
  let ?fx = "fx\<lparr>fx_from := (css_int (sh_margin ?s), css_int (wrapper_height ?s)), fx_to := (- offsetHeight ?s, 0), fx_time := now,
      fx_timer := True, fx_chain := [Call (SheetIn rel) False]\<rparr>"
  have pg': "pg' = pg\<lparr>sp_sliders := (sp_sliders pg)[k := (?fx, i)]\<rparr>"
    using click cur at k fx
    by (simp add: showsheet_click_def slider_start_def slide_range_def slider_chain_def fx_chain_add_def chain_add_def
        fx_start_idle Let_def)
  have "sheets_frame els pg'"
    using fr i by (auto simp: sheets_frame_def pg' dest!: set_update_subset_insert [THEN subsetD])
  moreover have "one_sheet els pg' rel k"
    using one at k ex still by (auto simp: one_sheet_def Let_def pg' running_def shut_def nth_list_update)
  ultimately show ?thesis by (auto simp: sheets_inv_def)
qed

text \<open>A page whose elements are all sheets, opened without asking for a quote.\<close>

definition sheets_plain :: "string \<Rightarrow> site_sheet list \<Rightarrow> bool" where
  "sheets_plain location els \<longleftrightarrow>
     (\<forall>s \<in> set els. sh_class s) \<and> \<not> str_contains (location_query location) ''getaquote''"

definition ready_upto :: "nat \<Rightarrow> site_sheet list \<Rightarrow> sheet_page \<Rightarrow> bool" where
  "ready_upto m els pg \<longleftrightarrow>
     gCurrentSlider pg = None \<and> map sh_id (sp_sheets pg) = map sh_id els \<and> map sh_height (sp_sheets pg) = map sh_height els \<and>
     map sh_class (sp_sheets pg) = map sh_class els \<and> length (sp_sliders pg) = m \<and>
     (\<forall>k < m. \<exists>fx. sp_sliders pg ! k = (fx, k) \<and> fx_timer fx \<and> snd (fx_to fx) = 0 \<and>
        fx_chain fx = [Call (DisplayBlock k) False])"

lemma sheet_ready_upto:
  assumes "sheets_plain location els" "ready_upto m els pg" "m < length els"
  shows "ready_upto (Suc m) els (sheet_ready location now m pg)"
proof -
  let ?s = "(sp_sheets pg ! m)\<lparr>sh_wrapped := True, sh_margin := 0\<rparr>"
  define fx where "fx = \<lparr>fx_link = ''ignore'', fx_duration = Some 0, fx_timer = True, fx_time = now,
      fx_from = (0, css_int (wrapper_height ?s)), fx_to = (- offsetHeight ?s, 0), fx_chain = [Call (DisplayBlock m) False]\<rparr>"
  have len: "length (sp_sliders pg) = m" "length (sp_sheets pg) = length els"
    using assms(2) by (simp_all add: ready_upto_def) (metis length_map)
  have "map sh_class (sp_sheets pg) ! m = map sh_class els ! m" using assms(2) by (simp only: ready_upto_def)
  then have "sh_class (sp_sheets pg ! m)" using assms(1,3) len by (simp add: sheets_plain_def)
  then have eq: "sheet_ready location now m pg =
      pg\<lparr>sp_sheets := (sp_sheets pg)[m := ?s], sp_sliders := sp_sliders pg @ [(fx, m)]\<rparr>"
    using assms(1,3) len unfolding sheets_plain_def
    by (simp add: sheet_ready_def Let_def slider_new_def slider_start_def slide_range_def
        slider_chain_def fx_chain_add_def chain_add_def fx_start_idle fx_def nth_append list_update_append)
  have "fx_timer fx" "snd (fx_to fx) = 0" "fx_chain fx = [Call (DisplayBlock m) False]" by (simp_all add: fx_def)
  then show ?thesis using assms(2) by (simp add: eq ready_upto_def map_put_same nth_append less_Suc_eq all_conj_distrib)
qed

lemma sheets_domready_inv:
  assumes "sheets_plain location els"
  shows "sheets_inv els (sheets_domready location now els, None)"
proof -
  let ?pg = "\<lambda>m. fold (sheet_ready location now) [0..<m] \<lparr>sp_sheets = els, sp_sliders = [], gCurrentSlider = None\<rparr>"
  have "m \<le> length els \<Longrightarrow> ready_upto m els (?pg m)" for m
  proof (induction m)
    case (Suc m)
    then show ?case using sheet_ready_upto [OF assms, of m "?pg m" now] by simp
  qed (simp add: ready_upto_def)
  then have "ready_upto (length els) els (sheets_domready location now els)" by (simp add: sheets_domready_def)
  then show ?thesis
    by (fastforce simp: ready_upto_def sheets_inv_def sheets_frame_def getting_ready_def in_set_conv_nth)
qed

interpretation sheets: machine
  "\<lambda>st. \<exists>location now. sheets_plain location els \<and> st = (sheets_domready location now els, None)"
  sheets_step "sheets_inv els" for els
proof
  fix s t
  assume inv: "sheets_inv els s" and "sheets_step s t"
  from this(2) show "sheets_inv els t"
  proof cases
    case (sheets_click pg rel now pg' l)
    then show ?thesis using click_inv inv by simp
  next
    case (sheets_tick pg k now pg' l)
    then show ?thesis using tick_inv [of els pg l k now] inv by auto
  qed
qed (auto intro: sheets_domready_inv)





lemmas sheet_defs = slider_tick_def fx_step_def fx_complete_def stopTimer_def fx_onComplete_def callChain_def
  slider_put_def slide_compute_def fx_compute_def slideSheetIn_def slider_new_def slider_start_def slide_range_def
  slider_chain_def fx_chain_add_def chain_add_def fx_start_idle offsetHeight_def wrapper_height_def showsheet_click_def
  css_int_def Let_def

text \<open>The page after it is ready, and after the first sheet has been opened.\<close>

definition idle_slider :: "real \<Rightarrow> real \<Rightarrow> real \<times> real \<Rightarrow> real \<times> real \<Rightarrow> slider" where
  "idle_slider d t b a = \<lparr>fx_link = ''ignore'', fx_duration = Some d, fx_timer = False, fx_time = t, fx_from = b, fx_to = a, fx_chain = []\<rparr>"

definition open_sheet :: "string \<Rightarrow> real \<Rightarrow> real \<Rightarrow> site_sheet" where
  "open_sheet n h w = \<lparr>sh_id = layout_id n, sh_class = True, sh_height = h, sh_block = True, sh_wrapped = True,
     sh_margin = 0, sh_wrapper = Some w\<rparr>"

definition sheets_shut :: sheet_page where
  "sheets_shut = \<lparr>sp_sheets = [open_sheet ''faq'' 300 0, open_sheet ''getaquote'' 500 0],
     sp_sliders = [(idle_slider 0 20 (0, 0) (0, 0), 0), (idle_slider 0 20 (0, 0) (0, 0), 1)], gCurrentSlider = None\<rparr>"



lemmas sheet_samples = sheets_shut_def idle_slider_def open_sheet_def layout_id_def




text \<open>A visitor who asks for a sheet while another is still opening gets both: the slide that is running ignores
  the request to shut, but keeps what was to follow it.\<close>

lemma sheet_opened_beside:
  "\<exists>pg. bindE (showsheet_click ''faq'' 100 sheets_shut) (\<lambda>p. bindE (showsheet_click ''getaquote'' 200 p) (\<lambda>p.
     bindE (slider_tick 2 700 p) (slider_tick 3 1300))) = Inr pg \<and> map seen_height (sp_sheets pg) = [300, 500]"
  by (simp add: sheet_defs sheet_samples seen_height_def)

subsection \<open>Testimonials\<close>

text \<open>The home page has one element of the class \<open>testimonials\<close>; these are its children. A testimonial is known by the
  texts of its paragraphs, which hold no testimonials themselves. Whether a quotation is displayed is \<open>None\<close> as
  long as the style sheet decides.\<close>

record testi_quote =
  tq_html :: string
  tq_active :: bool
  tq_display :: "bool option"

datatype testi_node = Testimonial "string list" | Quote testi_quote | OtherNode string

definition p_html :: "nat \<Rightarrow> string list \<Rightarrow> string" where
  "p_html n ps = (if n < length ps then ps ! n else ''undefined'')"

fun replace_testimonial :: "testi_node \<Rightarrow> testi_node" where
  "replace_testimonial (Testimonial ps) =
     Quote \<lparr>tq_html = '' <h2>'' @ p_html 0 ps @ ''</h2><p>'' @ p_html 1 ps @ '' &#8212; <a href='' @ [CHR 0x27] @ ''/testimonials'' @
              [CHR 0x27] @ ''>read more testimonials</a></p>'',
            tq_active = False, tq_display = None\<rparr>"
| "replace_testimonial t = t"

fun upd_quote :: "(testi_quote \<Rightarrow> testi_quote) \<Rightarrow> nat \<Rightarrow> testi_node list \<Rightarrow> testi_node list" where
  "upd_quote f n [] = []"
| "upd_quote f n (Quote q # r) = (case n of 0 \<Rightarrow> Quote (f q) # r | Suc m \<Rightarrow> Quote q # upd_quote f m r)"
| "upd_quote f n (x # r) = x # upd_quote f n r"

definition show_quote :: "testi_quote \<Rightarrow> testi_quote" where
  "show_quote q = q\<lparr>tq_active := True, tq_display := Some True\<rparr>"

fun is_testimonial :: "testi_node \<Rightarrow> bool" where
  "is_testimonial (Testimonial _) = True"
| "is_testimonial _ = False"

text \<open>The script when the page is ready, and whether it sets the interval.\<close>

definition testimonials_ready :: "testi_node list option \<Rightarrow> testi_node list option \<times> bool" where
  "testimonials_ready page =
     (case page of
        None \<Rightarrow> (None, False)
      | Some kids \<Rightarrow>
          let kids1 = map replace_testimonial kids; kids2 = upd_quote show_quote 0 kids1
          in (Some kids2, length (filter is_testimonial kids2) > 1))"

text \<open>One turn of the interval, with the fading at its end; \<open>length\<close> is that of the window, the number of its frames.\<close>

fun active_index :: "testi_node list \<Rightarrow> int" where
  "active_index [] = -1"
| "active_index (x # r) =
     (if (case x of Quote q \<Rightarrow> tq_active q | _ \<Rightarrow> False) then 0 else let i = active_index r in if i = -1 then -1 else i + 1)"

definition next_index :: "int \<Rightarrow> int \<Rightarrow> int" where
  "next_index frames activeIndex =
     (if activeIndex = 0 then 1 else if activeIndex = frames - 1 then 0 else activeIndex + 1)"

fun fade_active :: "testi_node \<Rightarrow> testi_node" where
  "fade_active (Quote q) = Quote (if tq_active q then q\<lparr>tq_active := False, tq_display := Some False\<rparr> else q)"
| "fade_active t = t"

definition testimonials_turn :: "int \<Rightarrow> testi_node list \<Rightarrow> testi_node list" where
  "testimonials_turn frames kids =
     (let i = active_index kids
      in if i = -1 then kids else upd_quote show_quote (nat (next_index frames i)) (map fade_active kids))"

fun quote_marks :: "testi_node list \<Rightarrow> bool list" where
  "quote_marks [] = []"
| "quote_marks (Quote q # r) = tq_active q # quote_marks r"
| "quote_marks (_ # r) = quote_marks r"

lemma upd_quote_marks: "quote_marks (upd_quote show_quote n kids) = (quote_marks kids)[n := True]"
  by (induction show_quote n kids rule: upd_quote.induct) (auto simp: show_quote_def split: nat.splits)

lemma replaced [simp]: "\<not> is_testimonial (replace_testimonial x)"
  by (cases x) simp_all

lemma no_testimonials_left: "filter is_testimonial (upd_quote f n (map replace_testimonial kids)) = []"
proof (induction kids arbitrary: n)
  case (Cons x kids)
  then show ?case by (cases x) (auto split: nat.splits simp: filter_empty_conv)
qed simp

lemma fade_marks: "quote_marks (map fade_active kids) = map (\<lambda>_. False) (quote_marks kids)"
  by (induction kids rule: quote_marks.induct) auto

text \<open>However many testimonials there are, the interval that was to rotate them is never set: the first
  quotation is marked as active, and no other.\<close>

lemma testimonials_never_rotate:
  assumes "\<forall>m \<in> set (quote_marks (map replace_testimonial kids)). \<not> m"
  shows "\<exists>kids'. testimonials_ready (Some kids) = (Some kids', False) \<and>
    quote_marks kids' = (replicate (length (quote_marks kids')) False)[0 := True]"
proof -
  let ?kids = "upd_quote show_quote 0 (map replace_testimonial kids)"
  have "quote_marks (map replace_testimonial kids) =
      replicate (length (quote_marks (map replace_testimonial kids))) False"
    using assms by (metis replicate_eqI)
  then have "quote_marks ?kids = (replicate (length (quote_marks ?kids)) False)[0 := True]"
    by (metis upd_quote_marks length_list_update)
  then show ?thesis by (simp add: testimonials_ready_def no_testimonials_left)
qed

text \<open>Had it been set, it would have gone from one quotation to the next and, on a page without frames, stopped after
  the last with none to be seen.\<close>

lemma testimonials_end_blank:
  assumes "active_index kids = int (length (quote_marks kids)) - 1" "1 < length (quote_marks kids)"
  shows "\<forall>m \<in> set (quote_marks (testimonials_turn 0 kids)). \<not> m"
  using assms by (auto simp: testimonials_turn_def next_index_def upd_quote_marks fade_marks list_update_beyond Let_def)

lemma active_index_marks: "active_index kids = -1 \<longleftrightarrow> (\<forall>m \<in> set (quote_marks kids). \<not> m)"
proof -
  have "active_index kids \<ge> -1" for kids by (induction kids) (auto simp: Let_def)
  then have ge: "active_index kids + 1 \<noteq> -1" for kids using add_mono [of "-1" _ 1 1] by (smt (verit))
  show ?thesis
  proof (induction kids)
    case (Cons x kids)
    then show ?case using ge [of kids] by (cases x) (auto simp: Let_def)
  qed simp
qed

lemma testimonials_stay_blank:
  "\<forall>m \<in> set (quote_marks kids). \<not> m \<Longrightarrow> testimonials_turn frames kids = kids"
  by (simp add: testimonials_turn_def active_index_marks [THEN iffD2])

subsection \<open>Texts in empty fields and stripes of tables\<close>

record hint_field =
  hf_title :: string
  hf_value :: string

definition field_focusin :: "hint_field \<Rightarrow> hint_field" where
  "field_focusin f = (if hf_title f = hf_value f then f\<lparr>hf_value := []\<rparr> else f)"

definition field_focusout :: "hint_field \<Rightarrow> hint_field" where
  "field_focusout f = (if hf_value f = [] then f\<lparr>hf_value := hf_title f\<rparr> else f)"

text \<open>A row of a table: its classes and those of its cells.\<close>

record table_row =
  row_classes :: "string list"
  row_cells :: "string list list"

definition add_class :: "string \<Rightarrow> string list \<Rightarrow> string list" where
  "add_class c cs = (if c \<in> set cs then cs else cs @ [c])"

definition stripe_plan_row :: "table_row \<Rightarrow> table_row" where
  "stripe_plan_row r =
     \<lparr>row_classes = add_class ''even'' (row_classes r),
      row_cells = (if 2 < length (row_cells r)
        then (row_cells r)[2 := add_class ''darkblue-bg'' (row_cells r ! 2)] else row_cells r)\<rparr>"

definition stripe_plans :: "table_row list \<Rightarrow> table_row list" where
  "stripe_plans rows =
     map (\<lambda>i. if even i \<and> i < length rows - 1 then stripe_plan_row (rows ! i) else rows ! i) [0..<length rows]"

fun stripe_prices :: "bool \<Rightarrow> table_row list \<Rightarrow> table_row list" where
  "stripe_prices ev [] = []"
| "stripe_prices ev (r # rs) =
     (if ''big-cells'' \<in> set (row_classes r) then r # stripe_prices ev rs
      else (if ev then r\<lparr>row_classes := add_class ''blue-bg'' (row_classes r)\<rparr> else r) # stripe_prices (\<not> ev) rs)"

text \<open>Leaving a field undoes entering it, unless it was empty; what is typed in between stays, and a field left empty
  shows its title, which counts as nothing when it is entered again.\<close>

lemma focus_roundtrip: "hf_value f \<noteq> [] \<Longrightarrow> field_focusout (field_focusin f) = f"
  by (simp add: field_focusin_def field_focusout_def)

lemma focus_typed:
  "hf_value (field_focusout ((field_focusin f)\<lparr>hf_value := v\<rparr>)) = (if v = [] then hf_title f else v)"
  by (simp add: field_focusin_def field_focusout_def)

lemma focus_title_is_empty: "hf_value (field_focusin (f\<lparr>hf_value := hf_title f\<rparr>)) = []"
  by (simp add: field_focusin_def)

lemma stripe_plans_last: "rows \<noteq> [] \<Longrightarrow> last (stripe_plans rows) = last rows"
  by (simp add: stripe_plans_def last_map last_conv_nth)

subsection \<open>The address of the customer\<close>

text \<open>The box of the first quote form that takes the address of the property for that of the customer. The form is
  the list of its text fields with their values; a field that is not there has no value and gets none.\<close>

definition same_address_fields :: "(string \<times> string) list" where
  "same_address_fields =
     [(''customer[customer_address]'', ''property[address]''), (''customer_address2'', ''property[address2]''),
      (''customer[customer_city]'', ''property[city]''), (''customer[customer_state]'', ''property[state]''),
      (''customer[customer_zip]'', ''property[zip_code]'')]"

definition copy_field :: "string \<times> string \<Rightarrow> (string \<times> string) list \<Rightarrow> (string \<times> string) list" where
  "copy_field p form =
     (case (map_of form (fst p), map_of form (snd p)) of
        (Some _, Some v) \<Rightarrow> AList.update (fst p) v form
      | _ \<Rightarrow> form)"

definition use_same_address_change :: "bool \<Rightarrow> (string \<times> string) list \<Rightarrow> (string \<times> string) list" where
  "use_same_address_change checked form = (if checked then fold copy_field same_address_fields form else form)"

text \<open>A key pressed in a field of the customer's address takes the mark off the box.\<close>

definition customer_address_keydown :: "bool \<Rightarrow> bool" where
  "customer_address_keydown checked = False"

lemma copy_field_lookup:
  "map_of (copy_field p form) k =
     (if k = fst p \<and> map_of form k \<noteq> None \<and> map_of form (snd p) \<noteq> None then map_of form (snd p) else map_of form k)"
  by (auto simp: copy_field_def update_conv split: option.splits)

lemma fold_copy_lookup:
  assumes "distinct (map fst ps)" "set (map fst ps) \<inter> set (map snd ps) = {}"
  shows "map_of (fold copy_field ps form) k =
    (case map_of ps k of
       Some src \<Rightarrow> if map_of form k \<noteq> None \<and> map_of form src \<noteq> None then map_of form src else map_of form k
     | None \<Rightarrow> map_of form k)"
  using assms
proof (induction ps arbitrary: form)
  case (Cons p ps)
  have "map_of (fold copy_field ps (copy_field p form)) k =
    (case map_of ps k of
       Some src \<Rightarrow> if map_of (copy_field p form) k \<noteq> None \<and> map_of (copy_field p form) src \<noteq> None
                  then map_of (copy_field p form) src else map_of (copy_field p form) k
     | None \<Rightarrow> map_of (copy_field p form) k)"
    using Cons.prems by (intro Cons.IH) auto
  moreover have "map_of ps (fst p) = None" using Cons.prems(1) by (simp add: map_of_eq_None_iff)
  moreover have "src \<noteq> fst p" if "map_of ps k = Some src" for src
  proof -
    have "src \<in> set (map snd (p # ps))" using map_of_SomeD [OF that] by (simp add: rev_image_eqI)
    moreover have "fst p \<in> set (map fst (p # ps))" by simp
    ultimately show ?thesis using Cons.prems(2) by (metis disjoint_iff)
  qed
  ultimately show ?case by (cases p) (auto simp: copy_field_lookup split: option.splits)
qed simp

lemma same_address_copies:
  assumes "(dst, src) \<in> set same_address_fields" "map_of form dst \<noteq> None" "map_of form src = Some v"
  shows "map_of (use_same_address_change True form) dst = Some v"
proof -
  have "distinct (map fst same_address_fields)" by (simp add: same_address_fields_def)
  moreover have "set (map fst same_address_fields) \<inter> set (map snd same_address_fields) = {}"
    by (simp add: same_address_fields_def)
  ultimately show ?thesis
    using assms map_of_is_SomeI [OF _ assms(1)] by (simp add: use_same_address_change_def fold_copy_lookup)
qed

subsection \<open>Two dialogs of the staff\<close>

text \<open>The dialog that sends a quick email to a customer and the one that changes the status of a customer: whether it
  is open, the hidden identifier, the name that is shown, and the options of the list of templates. A request is
  its method, its address and the fields of the form it carries; \<open>others\<close> are the fields of the form that the scripts
  do not touch.\<close>

record staff_dialog =
  sd_open :: bool
  sd_customer_id :: string
  sd_customer_name :: string
  sd_options :: string

type_synonym staff_request = "string \<times> string \<times> (string \<times> string) list"

definition template_option :: "string \<times> string \<Rightarrow> string" where
  "template_option = (\<lambda>(name, key). ''<option value='' @ [CHR 0x27] @ key @ [CHR 0x27] @ ''>'' @ name @ ''</option>'')"

definition quick_email_clicked :: "string \<Rightarrow> string \<Rightarrow> staff_dialog \<Rightarrow> staff_dialog \<times> staff_request list" where
  "quick_email_clicked i name dlg =
     (dlg\<lparr>sd_open := True, sd_customer_id := i, sd_customer_name := name\<rparr>,
      [(''GET'', ''/admin/email_templates/async_quickly_email'', [])])"

definition quick_email_templates :: "(string \<times> string) list \<Rightarrow> staff_dialog \<Rightarrow> staff_dialog" where
  "quick_email_templates templates dlg = dlg\<lparr>sd_options := concat (map template_option templates)\<rparr>"

definition send_quick_email_clicked :: "(string \<times> string) list \<Rightarrow> string \<Rightarrow> staff_dialog \<Rightarrow> staff_request list" where
  "send_quick_email_clicked others template dlg =
     [(''POST'', ''/admin/email_templates/async_quickly_email'',
       others @ [(''customer_id'', sd_customer_id dlg), (''template_id'', template)])]"

definition edit_customer_clicked :: "string \<Rightarrow> string \<Rightarrow> staff_dialog \<Rightarrow> staff_dialog" where
  "edit_customer_clicked i name dlg = dlg\<lparr>sd_open := True, sd_customer_name := name, sd_customer_id := i\<rparr>"

definition update_customer_status_clicked :: "(string \<times> string) list \<Rightarrow> string \<Rightarrow> staff_dialog \<Rightarrow> staff_request list" where
  "update_customer_status_clicked others status dlg =
     [(''POST'', ''/admin/customers/async_update/'' @ sd_customer_id dlg,
       others @ [(''id'', sd_customer_id dlg), (''customer[status_id]'', status)])]"

text \<open>An answer to either request clicks every button that closes a dialog.\<close>

definition dialogs_close :: "staff_dialog list \<Rightarrow> staff_dialog list" where
  "dialogs_close ds = map (\<lambda>d. d\<lparr>sd_open := False\<rparr>) ds"

text \<open>However many customers have been chosen before, the request names the one chosen last.\<close>

lemma status_of_last_customer:
  "update_customer_status_clicked others status
     (edit_customer_clicked i name (fold (\<lambda>(i, name). edit_customer_clicked i name) before dlg)) =
   [(''POST'', ''/admin/customers/async_update/'' @ i, others @ [(''id'', i), (''customer[status_id]'', status)])]"
  by (simp add: update_customer_status_clicked_def edit_customer_clicked_def)

end
