(* ===== verification/Spec2Isabelle.thy ===== *)
theory Spec2Isabelle
  imports Taffy_Refine CI_Paginator CI_Autocomplete CI_Table CI_Dialogs CI_Panels CI_Resize CI_Frames Quote_Ports Contractor_Map Fax_Pages Site_Scripts
begin

text \<open>
  This development verifies the client-side scripts of the Select Home Warranty application, a Rails
  program whose pages are driven by JavaScript under \<open>src/app/assets/javascripts\<close>.

  \<^bold>\<open>The program.\<close> \<open>cip/cip.src.js\<close> is a framework of components in one file: a copy of MooTools (types,
  arrays, hashes, strings, events, requests), the in-memory collection TAFFY, and the classes \<open>CI*\<close>. A
  component (\<open>CIObject\<close>) has an identifier, properties and events; a view (\<open>CIView\<close>) draws an element,
  which is in the document at most once; a requestable component owns a \<open>CIRequest\<close> and passes on what
  becomes of its requests as events. Lists, tables, forms, tabs, menus, sheets and floating panels are
  built from these: a \<open>CITable\<close> keeps its records in a TAFFY collection, draws them through its columns
  and edits them in form fields; a paginator and its filters ask a table for pages. The scripts of the
  pages put components together: \<open>admin.js\<close> and \<open>contractor-map.js\<close> for the staff, \<open>getaquote.js\<close>,
  \<open>getaquote_jquery.js\<close>, \<open>nhw.js\<close> and \<open>affilates.js\<close> for visitors, who fill in forms and are told
  prices; short scripts of single pages slide sheets, show testimonials and open dialogs.

  \<^bold>\<open>The theories\<close>, in the order of the code:

  \<^item> \<open>JS_Base\<close> (prelude): the values of the language (\<open>jsval\<close>), their conversions and the two equalities,
    computations that may throw (\<open>js_error + 'a\<close> with \<open>bindE\<close>, \<open>mapE\<close>, \<open>foldE\<close>), property lists, the
    interface \<open>dict\<close> of dictionaries, and the locale \<open>machine\<close>, which gives an invariant of every reachable
    state from an invariant of the steps. Every step relation below is an interpretation of \<open>machine\<close>.
  \<^item> \<open>Moo\<close>: the functions of MooTools that the other code calls: \<open>Array\<close>, \<open>Hash\<close>, \<open>Number\<close>, \<open>String\<close>,
    \<open>toQueryString\<close>, \<open>JSON.encode\<close>, \<open>Events\<close> (interface \<open>event_source\<close>) and \<open>Chain\<close>.
  \<^item> \<open>Moo_Fx\<close>: the animations \<open>Fx\<close> with their timer, links and chain, the easing functions and \<open>Fx.Slide\<close>: the value of
    an animation stays between its ends, the loop of \<open>Bounce\<close> ends, chained animations keep their order.
  \<^item> \<open>Taffy_Util\<close>, \<open>Taffy\<close>, \<open>Taffy_Props\<close>, \<open>Taffy_Refine\<close>: TAFFY. The collection is the record \<open>taffy\<close> (rows, index
    array, templates, handlers) and every method is a function on it. The lemmas say what \<open>find\<close>, \<open>remove\<close>,
    \<open>update\<close>, \<open>insert\<close> and \<open>orderBy\<close> do to the rows (interface \<open>row_store\<close>); the properties are the
    index invariant, the equivalence of \<open>orderBy\<close> with a stable sort, the refinement of lists of records
    (locale \<open>simulation\<close>), the type of the rows, and the termination of the loop of \<open>remove\<close>.
  \<^item> \<open>CI_Object\<close>, \<open>CI_View\<close>, \<open>CI_Request\<close>: identifiers, \<open>synthesize\<close>, \<open>set\<close> and styles; visibility and elements;
    requests, their parameters, the events of an answer, and the indicator under any interleaving of
    requests and answers.
  \<^item> \<open>CI_Style\<close>, \<open>CI_Resize\<close>: rectangles, resize behaviours, borders and corners as 32-bit masks, selection
    styles; the sizes of a tree of views when the window is resized.
  \<^item> \<open>CI_Button\<close>, \<open>CI_Paginator\<close>, \<open>CI_Form\<close>, \<open>CI_Tabs\<close>, \<open>CI_Autocomplete\<close>, \<open>CI_Lists\<close>, \<open>CI_Table\<close>: one component or
    family each; its object is a record, its methods and handlers are functions of the same names.
    The properties are the invariants of what is marked, displayed and numbered in every reachable
    state, the round trips of forms and editors, and the errors of the handlers. The two tab panels share
    the interface \<open>tab_view\<close>.
  \<^item> \<open>CI_Panels\<close>, \<open>CI_Dialogs\<close>, \<open>CI_Frames\<close>: panels, titles, toolbars and curtains with the drawing of trees of components
    (\<open>CIObject.element\<close>); modal layers, sheets and floating panels with their animations; the elements of
    sheets, floating panels and tables.
  \<^item> \<open>Quote\<close>, \<open>Quote_Ports\<close>: validation, prices, discounts and payments of the quote pages, and the
    comparison of the three versions of the page.
  \<^item> \<open>Admin\<close>, \<open>Fax_Pages\<close>, \<open>Contractor_Map\<close>: the pages of the staff, composed of the components above.
  \<^item> \<open>Site_Scripts\<close>: the sliding sheets of \<open>nhw.js\<close> over \<open>Moo_Fx\<close>, \<open>testimonials.js\<close>, \<open>getquote_functions.js\<close>, the box of
    \<open>getaquote.js\<close> that copies the address, and the two dialogs under \<open>func\<close>.

  \<^bold>\<open>How code becomes definitions.\<close> A method that changes its object is a function from the record to the
  record, with the events it fires as a list where they matter; a method that may throw returns a sum
  with the error on the left, and where the state at the time of the error matters it is returned with
  it. Handlers that the user or the server triggers are the steps of an inductive relation, one rule
  for each, so that a property of the reachable states covers every order of clicks, requests and answers.
  Loops are structural recursion, or functions with a termination proof (\<open>sweep\<close>, \<open>settle\<close>,
  \<open>circle_from\<close>, \<open>substitute\<close>), so that they return; the one loop that need not end, that of the easing \<open>Bounce\<close>,
  is a partial function, with a lemma that says when it does. There is no fuel.

  \<^bold>\<open>What the model takes for granted.\<close> Numbers are rationals with \<open>NaN\<close>; rounding of binary fractions, infinities
  and negative zero are left out (points on the map and the values of animations are reals). Objects are values; where code relies on
  a shared reference (the array a table shares with its collection, the style of a column that its cells
  share, the variable of a loop that its handlers share) the sharing is written into the definitions.
  A string is a list of Latin-1 characters. Regular expressions given to TAFFY and functions given by
  name in a configuration are parameters. Time stands still during one operation and is a parameter
  of it. \<open>Array.sort\<close> is stable. An animation runs by its timer (\<open>Moo_Fx\<close>, \<open>Site_Scripts\<close>), is a value that
  waits for its end and may end in any order (\<open>CI_Dialogs\<close>, the drawer of a curtain), or is taken at its end. Handlers do not call back into the
  object whose event they handle, except where the code of the framework itself does so.

  \<^bold>\<open>Not modelled.\<close> The DOM, \<open>Class\<close>, \<open>Fx.CSS\<close> and the selectors of MooTools, jQuery, Google Maps and the vendored
  libraries are code the scripts only call; what is needed of them is stated where it is used.
  \<open>TAFFY.JSON.parse\<close> runs \<open>eval\<close>. Focus of fields, dragging and scrolling change nothing but the look of a
  page. Of the framework the default styles, the accessors of elements and the constructors that only name
  a class are left out. \<open>admin_settings.js\<close> sets up plugins and goes to other pages. The minified and older copies of the
  framework repeat the code that is modelled. The server is Ruby.
\<close>

end
